(* ===== verification/Revana_Prelude.thy ===== *)
theory Revana_Prelude
  imports Main "HOL-Library.Word" "HOL-Library.Monad_Syntax"
begin

text \<open>
  The vocabulary every component shares: machine integers at their C++ widths, byte
  buffers, and the checked buffer accesses of the source.

  A C++ \<^verbatim>\<open>std::array<uint8_t, N>\<close>, \<^verbatim>\<open>std::vector<uint8_t>\<close> or \<^verbatim>\<open>std::span\<close> is a byte list.
  An access outside the buffer is undefined behaviour in C++; here every access is an
  \<open>option\<close> whose \<open>None\<close> means exactly that, so a theorem \<open>f bs \<noteq> None\<close> (or \<open>f bs = Some r\<close>) is
  a memory-safety statement.  \<^verbatim>\<open>std::expected<T, E>\<close> is the sum \<open>E + T\<close>.
\<close>

unbundle bit_operations_syntax

type_synonym u8 = "8 word"
type_synonym u16 = "16 word"
type_synonym u32 = "32 word"
type_synonym u64 = "64 word"
type_synonym bytes = "8 word list"

named_theorems buffer_defs \<open>definitions of the checked buffer accesses\<close>
named_theorems buffer_simps \<open>behaviour of the checked buffer accesses\<close>

section \<open>Checked buffer accesses\<close>

text \<open>\<^verbatim>\<open>bytes[i]\<close>.\<close>

definition at_index :: "'a list \<Rightarrow> nat \<Rightarrow> 'a option" where
  [buffer_defs]: "at_index bs i = (if i < length bs then Some (bs ! i) else None)"

text \<open>\<^verbatim>\<open>bytes[i] = v\<close>.\<close>

definition set_index :: "'a list \<Rightarrow> nat \<Rightarrow> 'a \<Rightarrow> 'a list option" where
  [buffer_defs]: "set_index bs i v = (if i < length bs then Some (bs[i := v]) else None)"

text \<open>The range \<^verbatim>\<open>[bytes.begin() + first, bytes.begin() + first + n)\<close>.\<close>

definition sub_range :: "'a list \<Rightarrow> nat \<Rightarrow> nat \<Rightarrow> 'a list option" where
  [buffer_defs]: "sub_range bs first n =
     (if first + n \<le> length bs then Some (take n (drop first bs)) else None)"

text \<open>\<^verbatim>\<open>std::copy(xs.begin(), xs.end(), bytes.begin() + first)\<close>.\<close>

definition copy_to :: "'a list \<Rightarrow> nat \<Rightarrow> 'a list \<Rightarrow> 'a list option" where
  [buffer_defs]: "copy_to bs first xs =
     (if first + length xs \<le> length bs
      then Some (take first bs @ xs @ drop (first + length xs) bs) else None)"

text \<open>\<^verbatim>\<open>std::fill(bytes.begin() + first, bytes.begin() + last, v)\<close>.\<close>

definition fill_range :: "'a list \<Rightarrow> nat \<Rightarrow> nat \<Rightarrow> 'a \<Rightarrow> 'a list option" where
  [buffer_defs]: "fill_range bs lo hi v =
     (if lo \<le> hi then copy_to bs lo (replicate (hi - lo) v) else None)"

lemma at_index_Some [buffer_simps]: "i < length bs \<Longrightarrow> at_index bs i = Some (bs ! i)"
  by (simp add: buffer_defs)

lemma at_index_eq_Some_iff: "at_index bs i = Some x \<longleftrightarrow> i < length bs \<and> bs ! i = x"
  by (auto simp: buffer_defs)

lemma set_index_Some [buffer_simps]: "i < length bs \<Longrightarrow> set_index bs i v = Some (bs[i := v])"
  by (simp add: buffer_defs)

lemma sub_range_Some [buffer_simps]:
  "first + n \<le> length bs \<Longrightarrow> sub_range bs first n = Some (take n (drop first bs))"
  by (simp add: buffer_defs)

lemma copy_to_Some [buffer_simps]:
  "first + length xs \<le> length bs \<Longrightarrow>
     copy_to bs first xs = Some (take first bs @ xs @ drop (first + length xs) bs)"
  by (simp add: buffer_defs)

lemma copy_to_length: "copy_to bs first xs = Some cs \<Longrightarrow> length cs = length bs"
  by (auto simp: buffer_defs split: if_splits)

lemma copy_to_nth:
  "copy_to bs first xs = Some cs \<Longrightarrow> i < length bs \<Longrightarrow>
     cs ! i = (if first \<le> i \<and> i < first + length xs then xs ! (i - first) else bs ! i)"
  by (auto simp: buffer_defs nth_append min_def split: if_splits)

lemma copy_to_range:
  "copy_to bs first xs = Some cs \<Longrightarrow> take (length xs) (drop first cs) = xs"
  by (auto simp: buffer_defs split: if_splits)

lemma copy_to_copy_to:
  "copy_to bs first xs = Some cs \<Longrightarrow> length ys = length xs \<Longrightarrow>
     copy_to cs first ys = copy_to bs first ys"
  by (auto simp: buffer_defs split: if_splits)

lemma fill_range_Some [buffer_simps]:
  "lo \<le> hi \<Longrightarrow> hi \<le> length bs \<Longrightarrow>
     fill_range bs lo hi v =
       Some (take lo bs @ replicate (hi - lo) v @ drop hi bs)"
  by (simp add: buffer_defs)

lemma fill_range_length: "fill_range bs lo hi v = Some cs \<Longrightarrow> length cs = length bs"
  by (auto simp: buffer_defs split: if_splits)

section \<open>Words and lists\<close>

lemma unat_of_nat_small: "n < 2 ^ LENGTH('w) \<Longrightarrow> unat (of_nat n :: 'w::len word) = n"
  by (simp add: unat_of_nat)

lemma take_eq_nth_eq: "take n xs = take n ys \<Longrightarrow> i < n \<Longrightarrow> xs ! i = ys ! i"
  by (metis nth_take)

lemma list_eq_iff_ranges:
  "length xs = length ys \<Longrightarrow> take n xs = take n ys \<Longrightarrow> drop n xs = drop n ys \<Longrightarrow> xs = ys"
  by (metis append_take_drop_id)

end
