(* ===== verification/Handle_Ownership.thy ===== *)
theory Handle_Ownership
  imports Revana_Prelude "HOL-Library.Multiset"
begin

text \<open>
  The owning handles of \<^verbatim>\<open>src/login/auth_client.cpp\<close> and \<^verbatim>\<open>src/login/lobby_client.cpp\<close>: the class
  \<^verbatim>\<open>SocketHandle\<close>, whose objects are constructed, moved from one to another and destroyed.  An object's
  \<^verbatim>\<open>value_\<close> is \<open>None\<close> for \<^verbatim>\<open>INVALID_SOCKET\<close>.  The models of the clients close a socket where its handle
  goes out of scope; here is why that is once, whatever the moves in between.
\<close>

section \<open>The objects\<close>

text \<open>The live objects with their values, the sockets wrapped so far and the calls of \<^verbatim>\<open>closesocket\<close>.\<close>

record handle_store =
  handles :: "nat \<rightharpoonup> nat option"
  opened :: "nat list"
  closed :: "nat list"

definition no_handles :: handle_store where
  "no_handles = \<lparr>handles = Map.empty, opened = [], closed = []\<rparr>"

definition put_value :: "nat \<Rightarrow> nat option \<Rightarrow> handle_store \<Rightarrow> handle_store" where
  "put_value h v w = w\<lparr>handles := (handles w)(h \<mapsto> v)\<rparr>"

definition Reset :: "nat \<Rightarrow> handle_store \<Rightarrow> handle_store" where
  "Reset h w =
     (case handles w h of
        Some (Some s) \<Rightarrow> put_value h None (w\<lparr>closed := s # closed w\<rparr>)
      | _ \<Rightarrow> w)"

text \<open>\<^verbatim>\<open>std::exchange(other.value_, INVALID_SOCKET)\<close>; \<open>None\<close> when the object is not alive.\<close>

definition exchange_value :: "nat \<Rightarrow> handle_store \<Rightarrow> (nat option \<times> handle_store) option" where
  "exchange_value h w = map_option (\<lambda>v. (v, put_value h None w)) (handles w h)"

text \<open>
  The operations of the class; the system gives out a number only while no socket with it is open.  \<open>None\<close> is
  an operation on an object that is not alive, or a construction over a live one.
\<close>

datatype handle_op = Default_Handle nat | Wrap nat nat | Move_Construct nat nat | Move_Assign nat nat | Destroy nat

definition in_use :: "handle_store \<Rightarrow> nat \<Rightarrow> bool" where
  "in_use w s \<longleftrightarrow> count_list (closed w) s < count_list (opened w) s"

fun handle_step :: "handle_op \<Rightarrow> handle_store \<Rightarrow> handle_store option" where
  "handle_step (Default_Handle h) w = (if handles w h = None then Some (put_value h None w) else None)"
| "handle_step (Wrap h s) w =
     (if handles w h = None \<and> \<not> in_use w s then Some (put_value h (Some s) (w\<lparr>opened := s # opened w\<rparr>)) else None)"
| "handle_step (Move_Construct h other) w =
     (if handles w h = None then do { (v, w) \<leftarrow> exchange_value other w; Some (put_value h v w) } else None)"
| "handle_step (Move_Assign h other) w =
     (if handles w h = None then None
      else if h = other then Some w
      else do { (v, w) \<leftarrow> exchange_value other (Reset h w); Some (put_value h v w) })"
| "handle_step (Destroy h) w =
     (if handles w h = None then None else let w = Reset h w in Some (w\<lparr>handles := (handles w)(h := None)\<rparr>))"

fun handle_run :: "handle_op list \<Rightarrow> handle_store \<Rightarrow> handle_store option" where
  "handle_run [] w = Some w"
| "handle_run (op # ops) w = do { w \<leftarrow> handle_step op w; handle_run ops w }"

section \<open>Ownership\<close>

definition owns :: "handle_store \<Rightarrow> nat \<Rightarrow> nat \<Rightarrow> bool" where
  "owns w h s \<longleftrightarrow> handles w h = Some (Some s)"

definition owned :: "handle_store \<Rightarrow> nat \<Rightarrow> bool" where
  "owned w s \<longleftrightarrow> (\<exists>h. owns w h s)"

text \<open>A socket has at most one owner, and has been closed as often as opened unless it has one.\<close>

definition ownership :: "handle_store \<Rightarrow> bool" where
  "ownership w \<longleftrightarrow> (\<forall>h h' s. owns w h s \<longrightarrow> owns w h' s \<longrightarrow> h = h') \<and>
     (\<forall>s. count_list (opened w) s = count_list (closed w) s + (if owned w s then 1 else 0))"

lemma ownershipD:
  assumes "ownership w"
  shows "owns w h s \<Longrightarrow> owns w h' s \<Longrightarrow> h = h'"
    and "count_list (opened w) s = count_list (closed w) s + (if owned w s then 1 else 0)"
  using assms by (simp_all add: ownership_def)

lemma ownershipI:
  assumes "\<And>h h' s. owns w h s \<Longrightarrow> owns w h' s \<Longrightarrow> h = h'"
    and "\<And>s. count_list (opened w) s = count_list (closed w) s + (if owned w s then 1 else 0)"
  shows "ownership w"
  using assms by (auto simp: ownership_def)

lemma ownership_cong: "owns w = owns w' \<Longrightarrow> opened w = opened w' \<Longrightarrow> closed w = closed w' \<Longrightarrow> ownership w = ownership w'"
  by (simp add: ownership_def owned_def)

lemma counts_put [simp]: "opened (put_value h v w) = opened w" "closed (put_value h v w) = closed w"
  by (simp_all add: put_value_def)

lemma owns_put: "owns (put_value h v w) h' s \<longleftrightarrow> (if h' = h then v = Some s else owns w h' s)"
  by (simp add: put_value_def owns_def)

lemma owns_opened [simp]: "owns (w\<lparr>opened := ss\<rparr>) h s = owns w h s"
  by (simp add: owns_def)

text \<open>Putting \<^verbatim>\<open>INVALID_SOCKET\<close> where no socket is owned, resetting, and moving to an object that owns nothing.\<close>

lemma ownership_put_invalid:
  assumes "ownership w" "\<And>s. \<not> owns w h s" shows "ownership (put_value h None w)"
proof -
  have "owns (put_value h None w) = owns w" using assms(2) by (auto simp: owns_put fun_eq_iff)
  with assms(1) ownership_cong [of "put_value h None w" w] show ?thesis by simp
qed

lemma owns_Reset: "owns (Reset h w) h' s \<longleftrightarrow> owns w h' s \<and> h' \<noteq> h"
  by (cases "handles w h") (auto simp: Reset_def owns_put owns_def put_value_def split: option.splits)

lemma Reset_counts:
  "opened (Reset h w) = opened w" "count_list (closed (Reset h w)) s = count_list (closed w) s + (if owns w h s then 1 else 0)"
  by (auto simp: Reset_def owns_def split: option.splits)

lemma ownership_Reset:
  assumes "ownership w" shows "ownership (Reset h w)"
proof -
  have "owned (Reset h w) s \<longleftrightarrow> owned w s \<and> \<not> owns w h s" for s
    using ownershipD(1) [OF assms] unfolding owned_def owns_Reset by blast
  moreover have "owns w h s \<Longrightarrow> owned w s" for s unfolding owned_def by blast
  ultimately show ?thesis using ownershipD [OF assms] by (intro ownershipI) (auto simp: owns_Reset Reset_counts)
qed

lemma ownership_move:
  assumes "ownership w" "h \<noteq> other" "\<And>s. \<not> owns w h s" "exchange_value other w = Some (v, w')"
  shows "ownership (put_value h v w')"
proof -
  from assms(4) have v: "v = Some s \<longleftrightarrow> owns w other s" and w': "w' = put_value other None w" for s
    by (auto simp: exchange_value_def owns_def)
  have moved: "owns (put_value h v w') h' s \<longleftrightarrow> (if h' = h then owns w other s else h' \<noteq> other \<and> owns w h' s)" for h' s
    by (simp add: owns_put w' v)
  have "owned (put_value h v w') s = owned w s" for s
    unfolding owned_def moved using assms(3) by metis
  moreover have "opened (put_value h v w') = opened w" "closed (put_value h v w') = closed w" by (simp_all add: w')
  moreover have "h1 = h2" if "owns (put_value h v w') h1 s" "owns (put_value h v w') h2 s" for h1 h2 s
    using that ownershipD(1) [OF assms(1)] unfolding moved by (auto split: if_splits)
  ultimately show ?thesis using ownershipD(2) [OF assms(1)] by (intro ownershipI) simp_all
qed

lemma ownership_wrap:
  assumes "ownership w" "\<not> in_use w s" "\<And>r. \<not> owns w h r"
  shows "ownership (put_value h (Some s) (w\<lparr>opened := s # opened w\<rparr>))"
proof -
  have free: "\<not> owned w s" using ownershipD(2) [OF assms(1), of s] assms(2) by (auto simp: in_use_def)
  have wrapped: "owns (put_value h (Some s) (w\<lparr>opened := s # opened w\<rparr>)) h' r \<longleftrightarrow> (if h' = h then r = s else owns w h' r)" for h' r
    by (auto simp: owns_put)
  have "owned (put_value h (Some s) (w\<lparr>opened := s # opened w\<rparr>)) r \<longleftrightarrow> owned w r \<or> r = s" for r
    unfolding owned_def wrapped using assms(3) by metis
  moreover have "h1 = h2" if "owns (put_value h (Some s) (w\<lparr>opened := s # opened w\<rparr>)) h1 r"
    "owns (put_value h (Some s) (w\<lparr>opened := s # opened w\<rparr>)) h2 r" for h1 h2 r
    using that free ownershipD(1) [OF assms(1)] unfolding owned_def wrapped by (auto split: if_splits)
  ultimately show ?thesis using ownershipD(2) [OF assms(1)] free by (intro ownershipI) auto
qed

lemma handle_step_ownership:
  assumes "ownership w" "handle_step op w = Some w'" shows "ownership w'"
proof (cases op)
  case (Default_Handle h)
  with assms show ?thesis by (auto simp: owns_def intro: ownership_put_invalid split: if_splits)
next
  case (Wrap h s)
  with assms show ?thesis by (auto simp: owns_def intro: ownership_wrap split: if_splits)
next
  case (Move_Construct h other)
  with assms(2) obtain v w1 where "exchange_value other w = Some (v, w1)" "w' = put_value h v w1" "handles w h = None"
    by (auto simp: bind_eq_Some_conv split: if_splits)
  moreover from this have "h \<noteq> other" by (auto simp: exchange_value_def)
  ultimately show ?thesis using ownership_move [OF assms(1)] by (auto simp: owns_def)
next
  case (Move_Assign h other)
  show ?thesis
  proof (cases "h = other")
    case False
    with assms(2) Move_Assign obtain v w1 where "exchange_value other (Reset h w) = Some (v, w1)" "w' = put_value h v w1"
      by (auto simp: bind_eq_Some_conv split: if_splits)
    with ownership_move [OF ownership_Reset [OF assms(1)] False, of h] show ?thesis by (simp add: owns_Reset)
  qed (use assms Move_Assign in \<open>auto split: if_splits\<close>)
next
  case (Destroy h)
  with assms(2) have w': "w' = (Reset h w)\<lparr>handles := (handles (Reset h w))(h := None)\<rparr>" by (auto simp: Let_def split: if_splits)
  have "owns w' h' s = owns (Reset h w) h' s" for h' s using owns_Reset [of h w h s] by (auto simp: w' owns_def)
  then have "owns w' = owns (Reset h w)" by blast
  with ownership_Reset [OF assms(1), of h] ownership_cong [of w' "Reset h w"] show ?thesis by (simp add: w')
qed

lemma handle_run_ownership: "ownership w \<Longrightarrow> handle_run ops w = Some w' \<Longrightarrow> ownership w'"
  by (induction ops arbitrary: w) (auto simp: bind_eq_Some_conv intro: handle_step_ownership)

text \<open>
  C0: however handles are constructed, moved and destroyed, every open socket has exactly one owner and
  every other was closed exactly as often as it was opened; when the last handle is gone no socket is open
  and none was closed twice.
\<close>

theorem sockets_closed_once:
  assumes "handle_run ops no_handles = Some w"
  shows "(\<forall>s. in_use w s \<longleftrightarrow> (\<exists>!h. handles w h = Some (Some s))) \<and>
    (\<forall>s. \<not> in_use w s \<longrightarrow> count_list (opened w) s = count_list (closed w) s) \<and>
    (handles w = Map.empty \<longrightarrow> mset (closed w) = mset (opened w))"
proof -
  have inv: "ownership w"
    by (rule handle_run_ownership [OF _ assms]) (simp add: ownership_def no_handles_def owned_def owns_def)
  note count = ownershipD(2) [OF inv]
  have used: "in_use w s \<longleftrightarrow> owned w s" for s using count [of s] by (simp add: in_use_def)
  have "in_use w s \<longleftrightarrow> (\<exists>!h. owns w h s)" for s
    unfolding used owned_def using ownershipD(1) [OF inv] by blast
  moreover have "mset (closed w) = mset (opened w)" if "handles w = Map.empty"
    by (rule multiset_eqI) (use that count in \<open>simp add: count_mset owned_def owns_def\<close>)
  ultimately show ?thesis using count used by (simp add: owns_def)
qed

theorem sockets_closed_once_witness:
  "\<exists>w. handle_run [Default_Handle 0, Wrap 1 7, Move_Assign 0 1, Destroy 1, Wrap 1 9, Move_Assign 0 1,
      Wrap 2 7, Move_Construct 3 2, Destroy 2, Destroy 1, Destroy 0, Destroy 3] no_handles = Some w \<and>
     closed w = [7, 9, 7] \<and> mset (closed w) = mset (opened w)"
proof -
  obtain w where w: "handle_run [Default_Handle 0, Wrap 1 7, Move_Assign 0 1, Destroy 1, Wrap 1 9, Move_Assign 0 1,
      Wrap 2 7, Move_Construct 3 2, Destroy 2, Destroy 1, Destroy 0, Destroy 3] no_handles = Some w"
    and c: "closed w = [7, 9, 7]" "handles w = Map.empty"
    by (simp add: no_handles_def put_value_def Reset_def exchange_value_def in_use_def Let_def)
  from sockets_closed_once [OF w] c have "mset (closed w) = mset (opened w)" by blast
  with w c show ?thesis by blast
qed

end
