(* ===== verification/Md5_Reference.thy ===== *)
theory Md5_Reference
  imports Revana_Prelude
begin

text \<open>
  The MD5 digest of RFC 1321, as the concrete function with which the parameter
  \<^verbatim>\<open>BCRYPT_MD5_ALGORITHM\<close> of the model is instantiated in the witnesses.  No theorem about the
  program rests on it: it shows that the hypotheses on the hash provider can hold, and lets the
  golden vectors of \<^verbatim>\<open>tests/lobby_packets_test.cpp\<close> be replayed in the kernel.

  The registers are integers below \<open>2 ^ 32\<close>, with the wrap-around written out, so that the
  simplifier evaluates a digest.  A row of a round table is \<open>(message word, 2 ^ s, 2 ^ (32 - s), sine)\<close>
  for a rotation by \<open>s\<close>.
\<close>

type_synonym md5_state = "int \<times> int \<times> int \<times> int"
type_synonym md5_row = "nat \<times> int \<times> int \<times> int"

definition md5_table1 :: "md5_row list" where
  "md5_table1 =
     [(0, 128, 33554432, 0xd76aa478), (1, 4096, 1048576, 0xe8c7b756),
      (2, 131072, 32768, 0x242070db), (3, 4194304, 1024, 0xc1bdceee),
      (4, 128, 33554432, 0xf57c0faf), (5, 4096, 1048576, 0x4787c62a),
      (6, 131072, 32768, 0xa8304613), (7, 4194304, 1024, 0xfd469501),
      (8, 128, 33554432, 0x698098d8), (9, 4096, 1048576, 0x8b44f7af),
      (10, 131072, 32768, 0xffff5bb1), (11, 4194304, 1024, 0x895cd7be),
      (12, 128, 33554432, 0x6b901122), (13, 4096, 1048576, 0xfd987193),
      (14, 131072, 32768, 0xa679438e), (15, 4194304, 1024, 0x49b40821)]"

definition md5_table2 :: "md5_row list" where
  "md5_table2 =
     [(1, 32, 134217728, 0xf61e2562), (6, 512, 8388608, 0xc040b340),
      (11, 16384, 262144, 0x265e5a51), (0, 1048576, 4096, 0xe9b6c7aa),
      (5, 32, 134217728, 0xd62f105d), (10, 512, 8388608, 0x02441453),
      (15, 16384, 262144, 0xd8a1e681), (4, 1048576, 4096, 0xe7d3fbc8),
      (9, 32, 134217728, 0x21e1cde6), (14, 512, 8388608, 0xc33707d6),
      (3, 16384, 262144, 0xf4d50d87), (8, 1048576, 4096, 0x455a14ed),
      (13, 32, 134217728, 0xa9e3e905), (2, 512, 8388608, 0xfcefa3f8),
      (7, 16384, 262144, 0x676f02d9), (12, 1048576, 4096, 0x8d2a4c8a)]"

definition md5_table3 :: "md5_row list" where
  "md5_table3 =
     [(5, 16, 268435456, 0xfffa3942), (8, 2048, 2097152, 0x8771f681),
      (11, 65536, 65536, 0x6d9d6122), (14, 8388608, 512, 0xfde5380c),
      (1, 16, 268435456, 0xa4beea44), (4, 2048, 2097152, 0x4bdecfa9),
      (7, 65536, 65536, 0xf6bb4b60), (10, 8388608, 512, 0xbebfbc70),
      (13, 16, 268435456, 0x289b7ec6), (0, 2048, 2097152, 0xeaa127fa),
      (3, 65536, 65536, 0xd4ef3085), (6, 8388608, 512, 0x04881d05),
      (9, 16, 268435456, 0xd9d4d039), (12, 2048, 2097152, 0xe6db99e5),
      (15, 65536, 65536, 0x1fa27cf8), (2, 8388608, 512, 0xc4ac5665)]"

definition md5_table4 :: "md5_row list" where
  "md5_table4 =
     [(0, 64, 67108864, 0xf4292244), (7, 1024, 4194304, 0x432aff97),
      (14, 32768, 131072, 0xab9423a7), (5, 2097152, 2048, 0xfc93a039),
      (12, 64, 67108864, 0x655b59c3), (3, 1024, 4194304, 0x8f0ccc92),
      (10, 32768, 131072, 0xffeff47d), (1, 2097152, 2048, 0x85845dd1),
      (8, 64, 67108864, 0x6fa87e4f), (15, 1024, 4194304, 0xfe2ce6e0),
      (6, 32768, 131072, 0xa3014314), (13, 2097152, 2048, 0x4e0811a1),
      (4, 64, 67108864, 0xf7537e82), (11, 1024, 4194304, 0xbd3af235),
      (2, 32768, 131072, 0x2ad7d2bb), (9, 2097152, 2048, 0xeb86d391)]"

fun md5_word :: "bytes \<Rightarrow> int" where
  "md5_word [] = 0"
| "md5_word (b # bs) = uint b + 256 * md5_word bs"

fun md5_words :: "bytes \<Rightarrow> int list" where
  "md5_words (a # b # c # d # bs) = md5_word [a, b, c, d] # md5_words bs"
| "md5_words _ = []"

definition md5_le32 :: "int \<Rightarrow> bytes" where
  "md5_le32 v = map word_of_int
     [v mod 256, v div 256 mod 256, v div 65536 mod 256, v div 16777216 mod 256]"

definition md5_pad :: "bytes \<Rightarrow> bytes" where
  "md5_pad bs =
     bs @ 0x80 # replicate ((119 - length bs mod 64) mod 64) 0
       @ md5_le32 (8 * int (length bs)) @ md5_le32 (8 * int (length bs) div 4294967296)"

definition md5_not :: "int \<Rightarrow> int" where
  "md5_not x = 4294967295 - x"

definition md5_choose :: "int \<Rightarrow> int \<Rightarrow> int \<Rightarrow> int" where
  "md5_choose b c d = (b AND c) OR (md5_not b AND d)"

definition md5_select :: "int \<Rightarrow> int \<Rightarrow> int \<Rightarrow> int" where
  "md5_select b c d = (d AND b) OR (md5_not d AND c)"

definition md5_parity :: "int \<Rightarrow> int \<Rightarrow> int \<Rightarrow> int" where
  "md5_parity b c d = b XOR c XOR d"

definition md5_cross :: "int \<Rightarrow> int \<Rightarrow> int \<Rightarrow> int" where
  "md5_cross b c d = c XOR (b OR md5_not d)"

definition md5_add32 :: "int \<Rightarrow> int \<Rightarrow> int" where
  "md5_add32 x y = (x + y) mod 4294967296"

definition md5_rotate :: "int \<Rightarrow> int \<Rightarrow> int \<Rightarrow> int" where
  "md5_rotate p q x = x * p mod 4294967296 + x div q"

fun md5_round ::
  "(int \<Rightarrow> int \<Rightarrow> int \<Rightarrow> int) \<Rightarrow> int list \<Rightarrow> md5_row list \<Rightarrow> md5_state \<Rightarrow> md5_state"
where
  "md5_round f m [] st = st"
| "md5_round f m ((g, p, q, k) # rows) (a, b, c, d) =
     md5_round f m rows
       (d, md5_add32 b (md5_rotate p q (md5_add32 (f b c d) (a + k + m ! g))), b, c)"

fun md5_add_state :: "md5_state \<Rightarrow> md5_state \<Rightarrow> md5_state" where
  "md5_add_state (a, b, c, d) (a', b', c', d') =
     (md5_add32 a a', md5_add32 b b', md5_add32 c c', md5_add32 d d')"

definition md5_block :: "int list \<Rightarrow> md5_state \<Rightarrow> md5_state" where
  "md5_block m st =
     md5_add_state st
       (md5_round md5_cross m md5_table4
         (md5_round md5_parity m md5_table3
           (md5_round md5_select m md5_table2
             (md5_round md5_choose m md5_table1 st))))"

fun md5_blocks :: "nat \<Rightarrow> int list \<Rightarrow> md5_state \<Rightarrow> md5_state" where
  "md5_blocks 0 ws st = st"
| "md5_blocks (Suc n) ws st = md5_blocks n (drop 16 ws) (md5_block (take 16 ws) st)"

fun md5_output :: "md5_state \<Rightarrow> bytes" where
  "md5_output (a, b, c, d) = md5_le32 a @ md5_le32 b @ md5_le32 c @ md5_le32 d"

definition md5 :: "bytes \<Rightarrow> bytes" where
  "md5 bs =
     md5_output (md5_blocks ((length bs + 72) div 64) (md5_words (md5_pad bs))
       (0x67452301, 0xefcdab89, 0x98badcfe, 0x10325476))"

lemma length_md5_output [simp]: "length (md5_output st) = 16"
  by (cases st) (simp add: md5_le32_def)

lemma length_md5 [simp]: "length (md5 bs) = 16"
  by (simp add: md5_def)

lemmas md5_eval =
  md5_def md5_pad_def md5_le32_def md5_block_def md5_not_def md5_choose_def md5_select_def
  md5_parity_def md5_cross_def md5_add32_def md5_rotate_def md5_table1_def md5_table2_def
  md5_table3_def md5_table4_def

end
