(* ===== verification/Crypto_Provider.thy ===== *)
theory Crypto_Provider
  imports Revana_Prelude Md5_Reference
begin

text \<open>
  \<^verbatim>\<open>CalculateMd5\<close> of \<^verbatim>\<open>src/login/lobby_packets.cpp\<close> (and its copy in
  \<^verbatim>\<open>src/runtime/revana_hooks.cpp\<close>) over the Windows BCrypt provider.  BCrypt is not part of the
  repository: the status of each of its calls and the bytes it writes are the parameter
  \<open>bcrypt\<close> of the definitions.  What the program relies on is the locale \<open>md5_service\<close>:
  a successful call computes one fixed 16-byte digest function.
\<close>

section \<open>The provider\<close>

text \<open>
  \<open>open_ok\<close>, \<open>create_ok\<close>, \<open>hash_ok\<close>: the \<^verbatim>\<open>BCRYPT_SUCCESS\<close> of the calls; \<open>create_handle\<close>:
  whether \<^verbatim>\<open>BCryptCreateHash\<close> stored a handle; \<open>finish data out\<close>: success of
  \<^verbatim>\<open>BCryptFinishHash\<close> after \<open>data\<close> was hashed, and the output buffer \<open>out\<close> after the call (a failing
  call may have written part of it).
\<close>

record bcrypt =
  open_ok :: bool
  create_ok :: bool
  create_handle :: bool
  hash_ok :: "bytes \<Rightarrow> bool"
  finish :: "bytes \<Rightarrow> bytes \<Rightarrow> bool \<times> bytes"

datatype bcrypt_call =
    BCryptOpenAlgorithmProvider
  | BCryptCreateHash
  | BCryptHashData bytes
  | BCryptFinishHash
  | BCryptDestroyHash
  | BCryptCloseAlgorithmProvider

text \<open>
  The result is the returned flag, the output buffer afterwards and the provider calls made.
\<close>

definition CalculateMd5 :: "bcrypt \<Rightarrow> bytes \<Rightarrow> bytes \<Rightarrow> bool \<times> bytes \<times> bcrypt_call list" where
  "CalculateMd5 bc bytes output =
     (if \<not> open_ok bc then (False, output, [BCryptOpenAlgorithmProvider])
      else
        let (status, output', calls) =
          (if \<not> create_ok bc then (False, output, [])
           else if \<not> hash_ok bc bytes then (False, output, [BCryptHashData bytes])
           else (case finish bc bytes output of
                   (ok, out) \<Rightarrow> (ok, out, [BCryptHashData bytes, BCryptFinishHash])));
          destroy = (if create_handle bc then [BCryptDestroyHash] else [])
        in (status, output',
            [BCryptOpenAlgorithmProvider, BCryptCreateHash] @ calls @ destroy
              @ [BCryptCloseAlgorithmProvider]))"

text \<open>The copy in \<^verbatim>\<open>revana_hooks.cpp\<close>, on a raw pointer and a size.\<close>

definition CalculateMd5_hooks :: "bcrypt \<Rightarrow> bytes \<Rightarrow> bytes \<Rightarrow> bool \<times> bytes \<times> bcrypt_call list" where
  "CalculateMd5_hooks bc bytes digest =
     (if \<not> open_ok bc then (False, digest, [BCryptOpenAlgorithmProvider])
      else
        let (status, digest', calls) =
          (if \<not> create_ok bc then (False, digest, [])
           else if \<not> hash_ok bc bytes then (False, digest, [BCryptHashData bytes])
           else (case finish bc bytes digest of
                   (ok, out) \<Rightarrow> (ok, out, [BCryptHashData bytes, BCryptFinishHash])));
          destroy = (if create_handle bc then [BCryptDestroyHash] else [])
        in (status, digest',
            [BCryptOpenAlgorithmProvider, BCryptCreateHash] @ calls @ destroy
              @ [BCryptCloseAlgorithmProvider]))"

lemma CalculateMd5_hooks_eq: "CalculateMd5_hooks = CalculateMd5"
  by (intro ext) (simp only: CalculateMd5_hooks_def CalculateMd5_def)

text \<open>
  Handle discipline: the provider is closed exactly when it was opened, as the last call, and a
  hash object is destroyed exactly when one was created.
\<close>

lemma CalculateMd5_releases_handles:
  assumes "CalculateMd5 bc bs out = (ok, out', calls)"
  shows "(BCryptCloseAlgorithmProvider \<in> set calls) = open_ok bc"
    and "open_ok bc \<Longrightarrow> last calls = BCryptCloseAlgorithmProvider"
    and "(BCryptDestroyHash \<in> set calls) = (open_ok bc \<and> create_handle bc)"
    and "ok \<Longrightarrow> open_ok bc \<and> create_ok bc \<and> hash_ok bc bs \<and> finish bc bs out = (True, out')"
  using assms
  by (auto simp: CalculateMd5_def Let_def split: if_splits prod.splits)

section \<open>The contract of the provider\<close>

locale md5_service =
  fixes bc :: bcrypt and digest :: "bytes \<Rightarrow> bytes"
  assumes finish_digest: "length out = 16 \<Longrightarrow> finish bc bs out = (True, d) \<Longrightarrow> d = digest bs"
    and finish_length: "length (snd (finish bc bs out)) = length out"
    and digest_length: "length (digest bs) = 16"
begin

lemma CalculateMd5_success:
  "length out = 16 \<Longrightarrow> CalculateMd5 bc bs out = (True, d, calls) \<Longrightarrow> d = digest bs"
  using CalculateMd5_releases_handles(4) [of bc bs out True d calls] finish_digest by blast

lemma CalculateMd5_length:
  "CalculateMd5 bc bs out = (ok, d, calls) \<Longrightarrow> length d = length out"
  using finish_length [of bs out]
  by (auto simp: CalculateMd5_def Let_def split: if_splits prod.splits)

end

text \<open>A provider that never fails.\<close>

locale md5_available = md5_service +
  assumes available:
    "length out = 16 \<Longrightarrow> open_ok bc \<and> create_ok bc \<and> hash_ok bc bs \<and> fst (finish bc bs out)"
begin

lemma CalculateMd5_available:
  assumes "length out = 16"
  shows "\<exists>calls. CalculateMd5 bc bs out = (True, digest bs, calls)"
proof -
  obtain ok d calls where r: "CalculateMd5 bc bs out = (ok, d, calls)" by (cases "CalculateMd5 bc bs out")
  then have ok using available [OF assms, of bs]
    by (auto simp: CalculateMd5_def Let_def split: if_splits prod.splits)
  with r CalculateMd5_success [OF assms] show ?thesis by auto
qed

end

text \<open>Two concrete providers: BCrypt working, with RFC 1321 as the digest, and BCrypt unavailable.\<close>

definition bcrypt_md5 :: bcrypt where
  "bcrypt_md5 = \<lparr>open_ok = True, create_ok = True, create_handle = True, hash_ok = (\<lambda>_. True),
     finish = (\<lambda>bs out. if length out = 16 then (True, md5 bs) else (False, out))\<rparr>"

definition bcrypt_unavailable :: bcrypt where
  "bcrypt_unavailable = \<lparr>open_ok = False, create_ok = False, create_handle = False,
     hash_ok = (\<lambda>_. False), finish = (\<lambda>bs out. (False, out))\<rparr>"

interpretation rfc1321: md5_available bcrypt_md5 md5
  by unfold_locales (auto simp: bcrypt_md5_def)

interpretation no_bcrypt: md5_service bcrypt_unavailable md5
  by unfold_locales (auto simp: bcrypt_unavailable_def)

lemma CalculateMd5_bcrypt_md5:
  "length out = 16 \<Longrightarrow>
     CalculateMd5 bcrypt_md5 bs out =
       (True, md5 bs, [BCryptOpenAlgorithmProvider, BCryptCreateHash, BCryptHashData bs,
          BCryptFinishHash, BCryptDestroyHash, BCryptCloseAlgorithmProvider])"
  by (simp add: CalculateMd5_def bcrypt_md5_def)

lemma CalculateMd5_unavailable:
  "CalculateMd5 bcrypt_unavailable bs out = (False, out, [BCryptOpenAlgorithmProvider])"
  by (simp add: CalculateMd5_def bcrypt_unavailable_def)

end
