(* ===== verification/Le_Codec.thy ===== *)
theory Le_Codec
  imports Revana_Prelude
begin

text \<open>
  The little-endian field accesses of \<^verbatim>\<open>src/login/lobby_packets.cpp\<close> and
  \<^verbatim>\<open>src/runtime/revana_hooks.cpp\<close>, and the interface under which the packet builders and parsers
  use them: a field of a fixed width that can be written and read back without disturbing the
  bytes around it.
\<close>

section \<open>The accesses\<close>

definition WriteLe32 :: "bytes \<Rightarrow> nat \<Rightarrow> u32 \<Rightarrow> bytes option" where
  "WriteLe32 bs offset value =
     do {
       bs \<leftarrow> set_index bs (offset + 0) (ucast value);
       bs \<leftarrow> set_index bs (offset + 1) (ucast (drop_bit 8 value));
       bs \<leftarrow> set_index bs (offset + 2) (ucast (drop_bit 16 value));
       set_index bs (offset + 3) (ucast (drop_bit 24 value))
     }"

definition ReadLe16 :: "bytes \<Rightarrow> nat \<Rightarrow> u16 option" where
  "ReadLe16 bs offset =
     do {
       b0 \<leftarrow> at_index bs offset;
       b1 \<leftarrow> at_index bs (offset + 1);
       Some (ucast b0 OR ucast (push_bit 8 (ucast b1 :: u32)))
     }"

definition ReadLe32 :: "bytes \<Rightarrow> nat \<Rightarrow> u32 option" where
  "ReadLe32 bs offset =
     do {
       b0 \<leftarrow> at_index bs offset;
       b1 \<leftarrow> at_index bs (offset + 1);
       b2 \<leftarrow> at_index bs (offset + 2);
       b3 \<leftarrow> at_index bs (offset + 3);
       Some (ucast b0 OR push_bit 8 (ucast b1) OR push_bit 16 (ucast b2) OR push_bit 24 (ucast b3))
     }"

section \<open>Pure views of the accesses\<close>

definition le16 :: "u8 \<Rightarrow> u8 \<Rightarrow> u16" where
  "le16 b0 b1 = ucast b0 OR push_bit 8 (ucast b1)"

definition le32 :: "u8 \<Rightarrow> u8 \<Rightarrow> u8 \<Rightarrow> u8 \<Rightarrow> u32" where
  "le32 b0 b1 b2 b3 =
     ucast b0 OR push_bit 8 (ucast b1) OR push_bit 16 (ucast b2) OR push_bit 24 (ucast b3)"

definition le32_bytes :: "u32 \<Rightarrow> bytes" where
  "le32_bytes v = [ucast v, ucast (drop_bit 8 v), ucast (drop_bit 16 v), ucast (drop_bit 24 v)]"

lemma length_le32_bytes [simp]: "length (le32_bytes v) = 4"
  by (simp add: le32_bytes_def)

lemma bit_le32:
  "bit (le32 b0 b1 b2 b3) n =
     (if n < 8 then bit b0 n else if n < 16 then bit b1 (n - 8)
      else if n < 24 then bit b2 (n - 16) else n < 32 \<and> bit b3 (n - 24))"
proof -
  have "\<not> bit b n" if "8 \<le> n" for b :: u8 and n using that bit_imp_le_length [of b n] by auto
  then show ?thesis by (simp add: le32_def bit_simps, auto)
qed

lemma le32_of_bytes:
  "le32 (ucast v) (ucast (drop_bit 8 v)) (ucast (drop_bit 16 v)) (ucast (drop_bit 24 v)) = v"
  by (rule bit_word_eqI) (simp add: bit_le32 bit_simps, auto)

lemma le32_inject:
  "le32 a0 a1 a2 a3 = le32 b0 b1 b2 b3 \<longleftrightarrow> a0 = b0 \<and> a1 = b1 \<and> a2 = b2 \<and> a3 = b3"
proof
  assume eq: "le32 a0 a1 a2 a3 = le32 b0 b1 b2 b3"
  have "bit a0 n = bit b0 n" if "n < 8" for n
    using bit_le32 [of a0 a1 a2 a3 n] bit_le32 [of b0 b1 b2 b3 n] eq that by simp
  moreover have "bit a1 n = bit b1 n" if "n < 8" for n
    using bit_le32 [of a0 a1 a2 a3 "n + 8"] bit_le32 [of b0 b1 b2 b3 "n + 8"] eq that by simp
  moreover have "bit a2 n = bit b2 n" if "n < 8" for n
    using bit_le32 [of a0 a1 a2 a3 "n + 16"] bit_le32 [of b0 b1 b2 b3 "n + 16"] eq that by simp
  moreover have "bit a3 n = bit b3 n" if "n < 8" for n
    using bit_le32 [of a0 a1 a2 a3 "n + 24"] bit_le32 [of b0 b1 b2 b3 "n + 24"] eq that by simp
  ultimately show "a0 = b0 \<and> a1 = b1 \<and> a2 = b2 \<and> a3 = b3"
    by (auto intro!: bit_word_eqI)
qed simp

lemma le16_bits: "ucast b0 OR ucast (push_bit 8 (ucast b1 :: u32)) = le16 b0 b1"
  by (rule bit_word_eqI) (auto simp: le16_def bit_simps)

lemma ReadLe16_eq:
  "ReadLe16 bs off =
     (if off + 2 \<le> length bs then Some (le16 (bs ! off) (bs ! (off + 1))) else None)"
  unfolding ReadLe16_def le16_bits by (auto simp: at_index_def)

lemma ReadLe32_eq:
  "ReadLe32 bs off =
     (if off + 4 \<le> length bs
      then Some (le32 (bs ! off) (bs ! (off + 1)) (bs ! (off + 2)) (bs ! (off + 3))) else None)"
  by (auto simp: ReadLe32_def at_index_def le32_def)

lemma WriteLe32_eq:
  "WriteLe32 bs off v = copy_to bs off (le32_bytes v)"
proof (cases "off + 4 \<le> length bs")
  case True
  then have "WriteLe32 bs off v =
      Some (bs[off := ucast v, off + 1 := ucast (drop_bit 8 v), off + 2 := ucast (drop_bit 16 v),
               off + 3 := ucast (drop_bit 24 v)])"
    by (simp add: WriteLe32_def set_index_def)
  moreover have "bs[off := ucast v, off + 1 := ucast (drop_bit 8 v), off + 2 := ucast (drop_bit 16 v),
      off + 3 := ucast (drop_bit 24 v)] = take off bs @ le32_bytes v @ drop (off + 4) bs"
    using True by (intro nth_equalityI)
      (auto simp: le32_bytes_def nth_append nth_list_update nth_Cons' min_def)
  ultimately show ?thesis using True by (simp add: copy_to_def)
next
  case False
  then show ?thesis by (auto simp: WriteLe32_def set_index_def copy_to_def split: if_splits)
qed

lemma le32_bytes_of_le32: "le32_bytes (le32 b0 b1 b2 b3) = [b0, b1, b2, b3]"
  using le32_of_bytes [of "le32 b0 b1 b2 b3"] by (simp add: le32_bytes_def le32_inject)

lemma le32_nth_bytes:
  "le32 (le32_bytes v ! 0) (le32_bytes v ! 1) (le32_bytes v ! 2) (le32_bytes v ! 3) = v"
  using le32_of_bytes [of v] by (simp add: le32_bytes_def)

lemma le32_bytes_inject [simp]: "le32_bytes v = le32_bytes w \<longleftrightarrow> v = w"
proof
  assume eq: "le32_bytes v = le32_bytes w"
  show "v = w" using le32_nth_bytes [of v] unfolding eq le32_nth_bytes by (rule sym)
qed simp

lemma take4_drop: "off + 4 \<le> length bs \<Longrightarrow>
    take 4 (drop off bs) = [bs ! off, bs ! (off + 1), bs ! (off + 2), bs ! (off + 3)]"
proof (rule nth_equalityI)
  assume l: "off + 4 \<le> length bs"
  then show "length (take 4 (drop off bs)) = length [bs ! off, bs ! (off + 1), bs ! (off + 2), bs ! (off + 3)]"
    by simp
  fix i assume "i < length (take 4 (drop off bs))"
  then consider "i = 0" | "i = 1" | "i = 2" | "i = 3" by fastforce
  then show "take 4 (drop off bs) ! i = [bs ! off, bs ! (off + 1), bs ! (off + 2), bs ! (off + 3)] ! i"
    by cases (use l in simp_all)
qed

lemma ReadLe32_iff:
  "ReadLe32 bs off = Some v \<longleftrightarrow> off + 4 \<le> length bs \<and> take 4 (drop off bs) = le32_bytes v"
proof (cases "off + 4 \<le> length bs")
  case True
  then show ?thesis unfolding ReadLe32_eq take4_drop [OF True]
    by (simp flip: le32_bytes_of_le32)
qed (simp add: ReadLe32_eq)

section \<open>The interface: a fixed-width field\<close>

locale packet_field =
  fixes get :: "bytes \<Rightarrow> nat \<Rightarrow> 'v option"
    and put :: "bytes \<Rightarrow> nat \<Rightarrow> 'v \<Rightarrow> bytes option"
    and width :: nat
  assumes write_defined: "off + width \<le> length bs \<Longrightarrow> put bs off v \<noteq> None"
    and write_bounds: "put bs off v = Some cs \<Longrightarrow> off + width \<le> length bs"
    and write_length: "put bs off v = Some cs \<Longrightarrow> length cs = length bs"
    and read_write: "put bs off v = Some cs \<Longrightarrow> get cs off = Some v"
    and write_frame: "put bs off v = Some cs \<Longrightarrow> i < length bs \<Longrightarrow> i < off \<or> off + width \<le> i \<Longrightarrow>
           cs ! i = bs ! i"
    and read_local: "length bs = length cs \<Longrightarrow> (\<And>i. off \<le> i \<Longrightarrow> i < off + width \<Longrightarrow> bs ! i = cs ! i) \<Longrightarrow>
           get bs off = get cs off"
begin

lemma read_after_other_write:
  assumes "put bs off v = Some cs" and "off' + width \<le> off \<or> off + width \<le> off'"
    and "off' + width \<le> length bs"
  shows "get cs off' = get bs off'"
proof (rule read_local)
  show len: "length cs = length bs" using assms(1) by (rule write_length)
  show "cs ! i = bs ! i" if "off' \<le> i" "i < off' + width" for i
    using assms that by (intro write_frame [OF assms(1)]) auto
qed

lemma write_idempotent_read:
  "put bs off v = Some cs \<Longrightarrow> put cs off v' = Some ds \<Longrightarrow> get ds off = Some v'"
  by (rule read_write)

end

interpretation le32_field: packet_field ReadLe32 WriteLe32 4
proof unfold_locales
  fix bs cs :: bytes and off i :: nat and v :: u32
  assume w: "WriteLe32 bs off v = Some cs"
  then show "off + 4 \<le> length bs" by (auto simp: WriteLe32_eq copy_to_def split: if_splits)
  then show "length cs = length bs" using w by (auto simp: WriteLe32_eq copy_to_length)
  show "ReadLe32 cs off = Some v"
    using w \<open>off + 4 \<le> length bs\<close>
    by (auto simp: WriteLe32_eq copy_to_def ReadLe32_eq nth_append le32_bytes_def min_def le32_of_bytes)
  show "cs ! i = bs ! i" if "i < length bs" "i < off \<or> off + 4 \<le> i"
    using w that by (auto simp: WriteLe32_eq copy_to_nth)
qed (auto simp: WriteLe32_eq copy_to_def ReadLe32_eq)

text \<open>A byte range is a field too: \<^verbatim>\<open>std::copy\<close> into the packet, read as a range.\<close>

interpretation byte_field: packet_field at_index set_index 1
  by unfold_locales (auto simp: buffer_defs split: if_splits)

end
