(* ===== verification/Lobby_Packets.thy ===== *)
theory Lobby_Packets
  imports Crypto_Provider Le_Codec
begin

text \<open>
  \<^verbatim>\<open>src/login/lobby_packets.h\<close> and \<^verbatim>\<open>src/login/lobby_packets.cpp\<close>: the fixed-layout lobby packets the
  bridge builds, the guest packets it authenticates in place, and the server packets it
  validates before the guest may see them.  The map-session key operations of the same file are
  in the theory of the map key.

  A parser has type \<open>(ParseError + 'a) option\<close>: \<open>None\<close> is an access outside the span, \<open>Inl\<close> the
  \<^verbatim>\<open>std::unexpected\<close> of the source, \<open>Inr\<close> its value.
\<close>

section \<open>Sizes and data\<close>

abbreviation (input) kSessionHashSize :: nat where "kSessionHashSize \<equiv> 16"
abbreviation (input) kMapSessionKeySize :: nat where "kMapSessionKeySize \<equiv> 20"
abbreviation (input) kClientVersionSize :: nat where "kClientVersionSize \<equiv> 10"
abbreviation (input) kDataRequestSize :: nat where "kDataRequestSize \<equiv> 28"
abbreviation (input) kViewLoginSize :: nat where "kViewLoginSize \<equiv> 152"
abbreviation (input) kViewCharacterRequestSize :: nat where "kViewCharacterRequestSize \<equiv> 44"
abbreviation (input) kKeyResponseSize :: nat where "kKeyResponseSize \<equiv> 40"
abbreviation (input) kLobbyHeaderSize :: nat where "kLobbyHeaderSize \<equiv> 28"
abbreviation (input) kCharacterListHeaderSize :: nat where "kCharacterListHeaderSize \<equiv> 32"
abbreviation (input) kCharacterEntrySize :: nat where "kCharacterEntrySize \<equiv> 140"
abbreviation (input) kLobbyTerminator :: u32 where "kLobbyTerminator \<equiv> 0x46465849"

record SessionMaterial =
  account_id :: u32
  session_hash :: bytes

datatype ParseError =
    kTruncated
  | kInvalidSize
  | kInvalidTerminator
  | kUnexpectedCommand
  | kInvalidCharacterCount
  | kInvalidIdentifier
  | kChecksumUnavailable

record KeyResponse =
  response_key :: u32
  expansion_mask :: u32
  feature_mask :: u32

record CharacterSummary =
  content_id :: u32
  char_status :: u16
  char_name :: bytes

record CharacterList =
  characters :: "CharacterSummary list"

definition kLobbyMarker :: bytes where
  "kLobbyMarker = [0x49, 0x58, 0x46, 0x46]"

definition kAuthenticatedLobbyCommands :: "u32 list" where
  "kAuthenticatedLobbyCommands = [0x07, 0x14, 0x1F, 0x21, 0x22, 0x24, 0x26, 0x28, 0x2B]"

section \<open>Packet builders\<close>

definition CopySessionHash :: "bytes \<Rightarrow> bytes \<Rightarrow> bytes option" where
  "CopySessionHash bs hash = copy_to bs 12 hash"

definition MakeDataBind :: "bytes \<Rightarrow> bytes option" where
  "MakeDataBind hash =
     do {
       packet \<leftarrow> set_index (replicate kDataRequestSize 0) 0 0xFE;
       CopySessionHash packet hash
     }"

definition MakeDataAccountRequest :: "SessionMaterial \<Rightarrow> bytes \<Rightarrow> bytes option" where
  "MakeDataAccountRequest session server_address =
     do {
       packet \<leftarrow> set_index (replicate kDataRequestSize 0) 0 0xA1;
       packet \<leftarrow> WriteLe32 packet 1 (account_id session);
       packet \<leftarrow> copy_to packet 5 server_address;
       CopySessionHash packet (session_hash session)
     }"

definition MakeDataSelectionRequest :: "bytes \<Rightarrow> bytes option" where
  "MakeDataSelectionRequest map_session_key =
     do {
       packet \<leftarrow> set_index (replicate kDataRequestSize 0) 0 0xA2;
       copy_to packet 1 map_session_key
     }"

definition MakeViewLogin :: "bytes \<Rightarrow> bytes \<Rightarrow> bytes option" where
  "MakeViewLogin hash client_version =
     do {
       packet \<leftarrow> WriteLe32 (replicate kViewLoginSize 0) 0 (of_nat kViewLoginSize);
       packet \<leftarrow> WriteLe32 packet 4 kLobbyTerminator;
       packet \<leftarrow> WriteLe32 packet 8 0x26;
       packet \<leftarrow> CopySessionHash packet hash;
       copy_to packet 116 client_version
     }"

text \<open>The result is the returned flag and the \<^verbatim>\<open>output\<close> vector.\<close>

definition PrepareLobbySend ::
  "bytes \<Rightarrow> u16 \<Rightarrow> u16 \<Rightarrow> u16 \<Rightarrow> bytes \<Rightarrow> bytes \<Rightarrow> (bool \<times> bytes) option" where
  "PrepareLobbySend source peer_port data_port view_port hash client_version =
     (if (peer_port \<noteq> data_port \<and> peer_port \<noteq> view_port) \<or> length source < kDataRequestSize
      then Some (False, [])
      else do {
        marker \<leftarrow> sub_range source 4 4;
        if kLobbyMarker \<noteq> marker then Some (False, [])
        else do {
          command \<leftarrow> ReadLe32 source 8;
          if command \<notin> set kAuthenticatedLobbyCommands then Some (False, [])
          else do {
            output \<leftarrow> CopySessionHash source hash;
            if command = 0x26
            then (if peer_port \<noteq> view_port \<or> length output < kViewLoginSize
                  then Some (False, [])
                  else do {
                    output \<leftarrow> copy_to output 116 client_version;
                    Some (True, output)
                  })
            else Some (True, output)
          }
        }
      })"

section \<open>Validation of server packets\<close>

definition ValidateLobbyHeader :: "bytes \<Rightarrow> u32 \<Rightarrow> nat \<Rightarrow> (ParseError + u32) option" where
  "ValidateLobbyHeader bs expected_command minimum_size =
     (if length bs < minimum_size then Some (Inl kTruncated)
      else do {
        packet_size \<leftarrow> ReadLe32 bs 0;
        if unat packet_size < minimum_size \<or> length bs < unat packet_size
        then Some (Inl kInvalidSize)
        else do {
          terminator \<leftarrow> ReadLe32 bs 4;
          if terminator \<noteq> kLobbyTerminator then Some (Inl kInvalidTerminator)
          else do {
            command \<leftarrow> ReadLe32 bs 8;
            if command \<noteq> expected_command then Some (Inl kUnexpectedCommand)
            else Some (Inr packet_size)
          }
        }
      })"

definition CalculateLobbyIdentifier :: "bcrypt \<Rightarrow> bytes \<Rightarrow> (ParseError + bytes) option" where
  "CalculateLobbyIdentifier bc bs =
     (if length bs < kLobbyHeaderSize then Some (Inl kTruncated)
      else do {
        packet_size \<leftarrow> ReadLe32 bs 0;
        if unat packet_size < kLobbyHeaderSize \<or> length bs < unat packet_size
        then Some (Inl kInvalidSize)
        else do {
          hash_input \<leftarrow> sub_range bs 0 (unat packet_size);
          hash_input \<leftarrow> fill_range hash_input 12 28 0;
          (case CalculateMd5 bc hash_input (replicate kSessionHashSize 0) of
             (ok, identifier, _) \<Rightarrow>
               if \<not> ok then Some (Inl kChecksumUnavailable) else Some (Inr identifier))
        }
      })"

definition ValidateLobbyIdentifier :: "bcrypt \<Rightarrow> bytes \<Rightarrow> nat \<Rightarrow> (ParseError + unit) option" where
  "ValidateLobbyIdentifier bc bs packet_size =
     do {
       packet \<leftarrow> sub_range bs 0 packet_size;
       calculated \<leftarrow> CalculateLobbyIdentifier bc packet;
       (case calculated of
          Inl e \<Rightarrow> Some (Inl e)
        | Inr identifier \<Rightarrow> do {
            field \<leftarrow> sub_range bs 12 (length identifier);
            if identifier \<noteq> field then Some (Inl kInvalidIdentifier) else Some (Inr ())
          })
     }"

definition ParseKeyResponse :: "bcrypt \<Rightarrow> bytes \<Rightarrow> (ParseError + KeyResponse) option" where
  "ParseKeyResponse bc bs =
     do {
       header \<leftarrow> ValidateLobbyHeader bs 0x05 kKeyResponseSize;
       (case header of
          Inl e \<Rightarrow> Some (Inl e)
        | Inr packet_size \<Rightarrow>
            if unat packet_size \<noteq> kKeyResponseSize then Some (Inl kInvalidSize)
            else do {
              identifier \<leftarrow> ValidateLobbyIdentifier bc bs (unat packet_size);
              (case identifier of
                 Inl e \<Rightarrow> Some (Inl e)
               | Inr _ \<Rightarrow> do {
                   k \<leftarrow> ReadLe32 bs 28;
                   e \<leftarrow> ReadLe32 bs 32;
                   f \<leftarrow> ReadLe32 bs 36;
                   Some (Inr \<lparr>response_key = k, expansion_mask = e, feature_mask = f\<rparr>)
                 })
            })
     }"

definition IsCompleteKeyResponse :: "bcrypt \<Rightarrow> bytes \<Rightarrow> bool option" where
  "IsCompleteKeyResponse bc bs =
     (if length bs \<noteq> kKeyResponseSize then Some False
      else do {
        parsed \<leftarrow> ParseKeyResponse bc bs;
        Some (case parsed of Inl _ \<Rightarrow> False | Inr _ \<Rightarrow> True)
      })"

text \<open>One iteration of the loop of \<^verbatim>\<open>ParseCharacterList\<close>, and the loop from entry \<open>i\<close>, \<open>n\<close> entries left.\<close>

definition ParseCharacterEntry :: "bytes \<Rightarrow> nat \<Rightarrow> CharacterSummary option" where
  "ParseCharacterEntry bs i =
     do {
       let entry_offset = kCharacterListHeaderSize + i * kCharacterEntrySize;
       let name_offset = entry_offset + 12;
       name_field \<leftarrow> sub_range bs name_offset 16;
       cid \<leftarrow> ReadLe32 bs entry_offset;
       st \<leftarrow> ReadLe16 bs (entry_offset + 8);
       Some \<lparr>content_id = cid, char_status = st, char_name = takeWhile (\<lambda>b. b \<noteq> 0) name_field\<rparr>
     }"

fun ParseCharacterEntries :: "bytes \<Rightarrow> nat \<Rightarrow> nat \<Rightarrow> CharacterSummary list option" where
  "ParseCharacterEntries bs i 0 = Some []"
| "ParseCharacterEntries bs i (Suc n) =
     do {
       c \<leftarrow> ParseCharacterEntry bs i;
       cs \<leftarrow> ParseCharacterEntries bs (Suc i) n;
       Some (c # cs)
     }"

definition ParseCharacterList :: "bcrypt \<Rightarrow> bytes \<Rightarrow> (ParseError + CharacterList) option" where
  "ParseCharacterList bc bs =
     do {
       header \<leftarrow> ValidateLobbyHeader bs 0x20 kCharacterListHeaderSize;
       (case header of
          Inl e \<Rightarrow> Some (Inl e)
        | Inr packet_size \<Rightarrow> do {
            character_count \<leftarrow> ReadLe32 bs 28;
            if character_count > 16 then Some (Inl kInvalidCharacterCount)
            else if unat packet_size
                      \<noteq> kCharacterListHeaderSize + kCharacterEntrySize * unat character_count
            then Some (Inl kInvalidSize)
            else do {
              identifier \<leftarrow> ValidateLobbyIdentifier bc bs (unat packet_size);
              (case identifier of
                 Inl e \<Rightarrow> Some (Inl e)
               | Inr _ \<Rightarrow> do {
                   cs \<leftarrow> ParseCharacterEntries bs 0 (unat character_count);
                   Some (Inr \<lparr>characters = cs\<rparr>)
                 })
            }
          })
     }"

section \<open>Layout of the built packets\<close>

text \<open>
  The wire images, written out byte by byte: a constant command byte, little-endian fields, and
  zero everywhere the code does not write.
\<close>

lemma CopySessionHash_eq:
  "length hash = 16 \<Longrightarrow> 28 \<le> length bs \<Longrightarrow>
     CopySessionHash bs hash = Some (take 12 bs @ hash @ drop 28 bs)"
  by (simp add: CopySessionHash_def copy_to_def)

lemma MakeDataBind_bytes:
  "length hash = 16 \<Longrightarrow> MakeDataBind hash = Some (0xFE # replicate 11 0 @ hash)"
  by (simp add: MakeDataBind_def set_index_def CopySessionHash_def copy_to_def numeral_eq_Suc)

lemma MakeDataAccountRequest_bytes:
  assumes "length (session_hash session) = 16" and "length ip = 4"
  shows "MakeDataAccountRequest session ip =
           Some (0xA1 # le32_bytes (account_id session) @ ip @ replicate 3 0 @ session_hash session)"
  using assms
  by (simp add: MakeDataAccountRequest_def set_index_def WriteLe32_eq CopySessionHash_def copy_to_def
      numeral_eq_Suc)

lemma MakeDataSelectionRequest_bytes:
  "length key = 20 \<Longrightarrow> MakeDataSelectionRequest key = Some (0xA2 # key @ replicate 7 0)"
  by (simp add: MakeDataSelectionRequest_def set_index_def copy_to_def numeral_eq_Suc)

lemma MakeViewLogin_bytes:
  assumes "length hash = 16" and "length version = 10"
  shows "MakeViewLogin hash version =
           Some (le32_bytes 152 @ le32_bytes kLobbyTerminator @ le32_bytes 0x26 @ hash
                   @ replicate 88 0 @ version @ replicate 26 0)"
  using assms
  by (simp add: MakeViewLogin_def WriteLe32_eq CopySessionHash_def copy_to_def drop_replicate take_replicate)

section \<open>Authentication of guest packets\<close>

text \<open>
  What \<^verbatim>\<open>PrepareLobbySend\<close> recognises, and the packet it produces: the guest's packet with the
  session hash over bytes 12 to 27 and, in a view login, the client version over bytes 116 to 125.
\<close>

definition recognised_lobby_packet :: "bytes \<Rightarrow> u16 \<Rightarrow> u16 \<Rightarrow> u16 \<Rightarrow> bool" where
  "recognised_lobby_packet source peer_port data_port view_port \<longleftrightarrow>
     (peer_port = data_port \<or> peer_port = view_port) \<and> 28 \<le> length source \<and>
     take 4 (drop 4 source) = kLobbyMarker \<and>
     (\<exists>command. ReadLe32 source 8 = Some command \<and> command \<in> set kAuthenticatedLobbyCommands \<and>
        (command = 0x26 \<longrightarrow> peer_port = view_port \<and> 152 \<le> length source))"

definition authenticated_packet :: "bytes \<Rightarrow> bytes \<Rightarrow> bytes \<Rightarrow> bytes" where
  "authenticated_packet source hash client_version =
     (let stamped = take 12 source @ hash @ drop 28 source
      in if ReadLe32 source 8 = Some 0x26
         then take 116 stamped @ client_version @ drop 126 stamped else stamped)"

lemma PrepareLobbySend_eq:
  assumes "length hash = 16" and "length version = 10"
  shows "PrepareLobbySend source peer data view hash version =
           Some (if recognised_lobby_packet source peer data view
                 then (True, authenticated_packet source hash version) else (False, []))"
proof (cases "(peer = data \<or> peer = view) \<and> 28 \<le> length source")
  case True
  then obtain command where c: "ReadLe32 source 8 = Some command" by (simp add: ReadLe32_eq)
  have m: "sub_range source 4 4 = Some (take 4 (drop 4 source))" using True by (simp add: sub_range_def)
  have h: "CopySessionHash source hash = Some (take 12 source @ hash @ drop 28 source)"
    using True assms by (simp add: CopySessionHash_eq)
  show ?thesis
  proof (cases "take 4 (drop 4 source) = kLobbyMarker \<and> command \<in> set kAuthenticatedLobbyCommands")
    case recognised: True
    have v: "copy_to (take 12 source @ hash @ drop 28 source) 116 version =
        Some (take 116 (take 12 source @ hash @ drop 28 source) @ version
              @ drop 126 (take 12 source @ hash @ drop 28 source))" if "152 \<le> length source"
      unfolding copy_to_def using that assms by simp
    show ?thesis
      using True recognised assms c m h v
      by (auto simp: PrepareLobbySend_def recognised_lobby_packet_def authenticated_packet_def Let_def)
  next
    case False
    then show ?thesis using True c m
      by (auto simp: PrepareLobbySend_def recognised_lobby_packet_def)
  qed
next
  case False
  then show ?thesis by (auto simp: PrepareLobbySend_def recognised_lobby_packet_def)
qed

lemma recognised_command_offset:
  "recognised_lobby_packet source peer data view \<Longrightarrow>
     28 \<le> length source \<and> (ReadLe32 source 8 = Some 0x26 \<longrightarrow> 152 \<le> length source)"
  by (auto simp: recognised_lobby_packet_def)

lemma authenticated_packet_length:
  assumes "recognised_lobby_packet source peer data view" "length hash = 16" "length version = 10"
  shows "length (authenticated_packet source hash version) = length source"
  using recognised_command_offset [OF assms(1)] assms(2,3)
  by (auto simp: authenticated_packet_def Let_def min_def)

lemma authenticated_packet_nth:
  assumes "recognised_lobby_packet source peer data view" "length hash = 16" "length version = 10"
    and "i < length source"
  shows "authenticated_packet source hash version ! i =
           (if 12 \<le> i \<and> i < 28 then hash ! (i - 12)
            else if ReadLe32 source 8 = Some 0x26 \<and> 116 \<le> i \<and> i < 126 then version ! (i - 116)
            else source ! i)"
proof -
  let ?stamped = "take 12 source @ hash @ drop 28 source"
  note r = recognised_command_offset [OF assms(1)]
  have "copy_to source 12 hash = Some ?stamped" using r assms(2) by (simp add: copy_to_def)
  then have stamped: "?stamped ! i = (if 12 \<le> i \<and> i < 28 then hash ! (i - 12) else source ! i)"
    using copy_to_nth [of source 12 hash ?stamped i] assms by simp
  show ?thesis
  proof (cases "ReadLe32 source 8 = Some 0x26")
    case True
    have l: "length ?stamped = length source" using r assms(2) by simp
    have "copy_to ?stamped 116 version = Some (take 116 ?stamped @ version @ drop 126 ?stamped)"
      using r True l assms(3) by (simp only: copy_to_def) simp
    from copy_to_nth [OF this, of i] show ?thesis
      using True l assms stamped by (simp only: authenticated_packet_def Let_def) auto
  next
    case False
    then show ?thesis using stamped by (auto simp: authenticated_packet_def Let_def)
  qed
qed

lemma authenticated_packet_take12:
  assumes "recognised_lobby_packet source peer data view" "length hash = 16" "length version = 10"
  shows "take 12 (authenticated_packet source hash version) = take 12 source"
  using recognised_command_offset [OF assms(1)] assms(2,3)
  by (simp add: authenticated_packet_def Let_def min_def)

lemma take12_header:
  assumes "take 12 xs = take 12 ys" "28 \<le> length xs" "28 \<le> length ys"
  shows "take 4 (drop 4 xs) = take 4 (drop 4 ys)" "ReadLe32 xs 8 = ReadLe32 ys 8"
proof -
  have n: "xs ! i = ys ! i" if "i < 12" for i using assms(1) that by (rule take_eq_nth_eq)
  show "take 4 (drop 4 xs) = take 4 (drop 4 ys)"
    using assms n by (intro nth_equalityI) auto
  show "ReadLe32 xs 8 = ReadLe32 ys 8" using assms n by (simp add: ReadLe32_eq)
qed

lemma recognised_authenticated:
  assumes "recognised_lobby_packet source peer data view" "length hash = 16" "length version = 10"
  shows "recognised_lobby_packet (authenticated_packet source hash version) peer data view"
    and "ReadLe32 (authenticated_packet source hash version) 8 = ReadLe32 source 8"
proof -
  note len = authenticated_packet_length [OF assms] and r = recognised_command_offset [OF assms(1)]
  note hd = take12_header [OF authenticated_packet_take12 [OF assms]]
  show "ReadLe32 (authenticated_packet source hash version) 8 = ReadLe32 source 8"
    using hd(2) len r by simp
  then show "recognised_lobby_packet (authenticated_packet source hash version) peer data view"
    using hd(1) len r assms(1) by (simp add: recognised_lobby_packet_def)
qed

lemma authenticated_packet_idem:
  assumes "recognised_lobby_packet source peer data view" "length hash = 16" "length version = 10"
  shows "authenticated_packet (authenticated_packet source hash version) hash version
           = authenticated_packet source hash version" (is "?ff = ?f")
proof (rule nth_equalityI)
  note r2 = recognised_authenticated [OF assms]
  note len = authenticated_packet_length [OF assms] authenticated_packet_length [OF r2(1) assms(2,3)]
  show "length ?ff = length ?f" using len by simp
  fix i assume "i < length ?ff"
  then have "i < length ?f" "i < length source" using len by auto
  then show "?ff ! i = ?f ! i"
    using authenticated_packet_nth [OF r2(1) assms(2,3)] authenticated_packet_nth [OF assms] r2(2)
    by auto
qed

section \<open>The view login as a guest packet\<close>

lemma kLobbyMarker_bytes: "le32_bytes kLobbyTerminator = kLobbyMarker"
  by (simp add: kLobbyMarker_def le32_bytes_def)

lemma length_kLobbyMarker: "length kLobbyMarker = 4"
  by (simp add: kLobbyMarker_def)

lemma view_login_command:
  "ReadLe32 (le32_bytes n @ le32_bytes m @ le32_bytes c @ rest) 8 = Some c"
  by (simp add: ReadLe32_iff)

lemma view_login_shape:
  assumes "length h = 16" "length v = 10"
  shows "recognised_lobby_packet (le32_bytes 152 @ le32_bytes kLobbyTerminator @ le32_bytes 0x26 @ h
           @ replicate 88 0 @ v @ replicate 26 0) view data view"
  using view_login_command [of 152 kLobbyTerminator "0x26"] assms
  by (simp add: recognised_lobby_packet_def kAuthenticatedLobbyCommands_def kLobbyMarker_bytes
      length_kLobbyMarker)

lemma view_login_restamped:
  assumes "length h = 16" "length v = 10" "length hash = 16" "length version = 10"
  shows "authenticated_packet (le32_bytes 152 @ le32_bytes kLobbyTerminator @ le32_bytes 0x26 @ h
           @ replicate 88 0 @ v @ replicate 26 0) hash version =
         le32_bytes 152 @ le32_bytes kLobbyTerminator @ le32_bytes 0x26 @ hash
           @ replicate 88 0 @ version @ replicate 26 0"
  using view_login_command [of 152 kLobbyTerminator "0x26"] assms
  by (simp add: authenticated_packet_def Let_def)

section \<open>Properties of the builders and of the authentication\<close>

text \<open>
  C20: for every guest packet, \<^verbatim>\<open>PrepareLobbySend\<close> reads and writes inside its buffers, accepts exactly
  the recognised packets, and its output is the packet with only bytes 12 to 27 (the session hash)
  and, in a view login, bytes 116 to 125 (the client version) replaced.
\<close>

theorem prepare_lobby_send_exact:
  assumes "length hash = 16" "length version = 10"
  shows "\<exists>ok out. PrepareLobbySend source peer data view hash version = Some (ok, out) \<and>
    ok = recognised_lobby_packet source peer data view \<and>
    (\<not> ok \<longrightarrow> out = []) \<and>
    (ok \<longrightarrow> length out = length source \<and>
       (\<forall>i < length source. out ! i =
          (if 12 \<le> i \<and> i < 28 then hash ! (i - 12)
           else if ReadLe32 source 8 = Some 0x26 \<and> 116 \<le> i \<and> i < 126 then version ! (i - 116)
           else source ! i)))"
  using PrepareLobbySend_eq [OF assms, of source peer data view] authenticated_packet_length [OF _ assms]
    authenticated_packet_nth [OF _ assms] by auto

theorem prepare_lobby_send_exact_witness:
  "\<exists>ok out. PrepareLobbySend (replicate 28 0) 1 2 3 (replicate 16 7) (replicate 10 8) = Some (ok, out) \<and> out = []"
  using prepare_lobby_send_exact [of "replicate 16 7" "replicate 10 8" "replicate 28 0" 1 2 3]
  by (auto simp: recognised_lobby_packet_def)

text \<open>
  Preparing a packet that was already prepared with the same credentials changes nothing, so a
  guest that resends a captured packet sends the same bytes.
\<close>

theorem prepare_lobby_send_idempotent:
  assumes "length hash = 16" "length version = 10"
    and "PrepareLobbySend source peer data view hash version = Some (True, out)"
  shows "PrepareLobbySend out peer data view hash version = Some (True, out)"
proof -
  from assms have rec: "recognised_lobby_packet source peer data view"
    and out: "out = authenticated_packet source hash version"
    by (auto simp: PrepareLobbySend_eq split: if_splits)
  show ?thesis
    unfolding PrepareLobbySend_eq [OF assms(1,2)] out
    using recognised_authenticated(1) [OF rec assms(1,2)] authenticated_packet_idem [OF rec assms(1,2)]
    by simp
qed

definition sample_view_login :: bytes where
  "sample_view_login =
     le32_bytes 152 @ le32_bytes kLobbyTerminator @ le32_bytes 0x26 @ replicate 140 0"

theorem prepare_lobby_send_idempotent_witness:
  "\<exists>out. PrepareLobbySend sample_view_login 3 2 3 (replicate 16 7) (replicate 10 8) = Some (True, out) \<and>
     PrepareLobbySend out 3 2 3 (replicate 16 7) (replicate 10 8) = Some (True, out)"
proof -
  have len: "length sample_view_login = 152" by (simp add: sample_view_login_def)
  then have "recognised_lobby_packet sample_view_login 3 2 3"
    by (simp add: recognised_lobby_packet_def kAuthenticatedLobbyCommands_def ReadLe32_iff)
       (simp add: sample_view_login_def kLobbyMarker_bytes)
  then obtain out where
    "PrepareLobbySend sample_view_login 3 2 3 (replicate 16 7) (replicate 10 8) = Some (True, out)"
    by (simp add: PrepareLobbySend_eq)
  then show ?thesis
    using prepare_lobby_send_idempotent [of "replicate 16 7" "replicate 10 8" sample_view_login 3 2 3 out]
    by simp
qed

text \<open>
  The three data-channel requests have their documented 28-byte images: the session bind, the
  account request and the selection request that carries the map session key.
\<close>

theorem data_request_layouts:
  assumes "length (session_hash session) = 16" "length ip = 4" "length key = 20"
  shows "MakeDataBind (session_hash session) = Some (0xFE # replicate 11 0 @ session_hash session) \<and>
    MakeDataAccountRequest session ip =
      Some (0xA1 # le32_bytes (account_id session) @ ip @ replicate 3 0 @ session_hash session) \<and>
    MakeDataSelectionRequest key = Some (0xA2 # key @ replicate 7 0)"
  using assms MakeDataBind_bytes MakeDataAccountRequest_bytes MakeDataSelectionRequest_bytes by blast

theorem data_request_layouts_witness:
  "MakeDataAccountRequest \<lparr>account_id = 0x01020304, session_hash = replicate 16 0xAB\<rparr> [127, 0, 0, 1] =
     Some ([0xA1, 4, 3, 2, 1, 127, 0, 0, 1, 0, 0, 0] @ replicate 16 0xAB)"
proof -
  have "replicate 3 (0 :: u8) = [0, 0, 0]" by (simp add: numeral_eq_Suc)
  then show ?thesis
    using data_request_layouts [of "\<lparr>account_id = 0x01020304, session_hash = replicate 16 0xAB\<rparr>"
        "[127, 0, 0, 1]" "replicate 20 0"]
    by (simp add: le32_bytes_def)
qed

text \<open>
  C32: the bootstrap view login and the authentication of guest packets agree: the packet
  \<^verbatim>\<open>MakeViewLogin\<close> builds is recognised on the view port, and preparing one built with any
  credentials gives the one built with the credentials of the session.
\<close>

theorem view_login_agrees_with_prepare:
  assumes "length hash = 16" "length version = 10" "length hash' = 16" "length version' = 10"
    and "MakeViewLogin hash' version' = Some packet"
  shows "\<exists>authenticated. MakeViewLogin hash version = Some authenticated \<and>
    PrepareLobbySend packet view data view hash version = Some (True, authenticated)"
proof -
  let ?p = "\<lambda>h v. le32_bytes 152 @ le32_bytes kLobbyTerminator @ le32_bytes 0x26 @ h
      @ replicate 88 0 @ v @ replicate 26 (0 :: u8)"
  have packet: "packet = ?p hash' version'"
    using assms(5) by (simp add: MakeViewLogin_bytes [OF assms(3,4)])
  have "recognised_lobby_packet (?p hash' version') view data view"
    and "authenticated_packet (?p hash' version') hash version = ?p hash version"
    using view_login_shape [OF assms(3,4)] view_login_restamped [OF assms(3,4,1,2)] by simp_all
  then show ?thesis unfolding packet
    by (simp add: PrepareLobbySend_eq [OF assms(1,2)] MakeViewLogin_bytes [OF assms(1,2)])
qed

theorem view_login_agrees_with_prepare_witness:
  "\<exists>packet out. MakeViewLogin (replicate 16 0) (replicate 10 0) = Some packet \<and>
     MakeViewLogin (replicate 16 7) (replicate 10 8) = Some out \<and>
     PrepareLobbySend packet 54001 54230 54001 (replicate 16 7) (replicate 10 8) = Some (True, out)"
proof -
  obtain packet where p: "MakeViewLogin (replicate 16 0) (replicate 10 0) = Some packet"
    using MakeViewLogin_bytes [OF length_replicate length_replicate] by blast
  have "\<exists>out. MakeViewLogin (replicate 16 7) (replicate 10 8) = Some out \<and>
      PrepareLobbySend packet 54001 54230 54001 (replicate 16 7) (replicate 10 8) = Some (True, out)"
    by (rule view_login_agrees_with_prepare [OF _ _ _ _ p]) (simp_all only: length_replicate)
  with p show ?thesis by blast
qed

end
