(* ===== verification/Map_Key.thy ===== *)
theory Map_Key
  imports Lobby_Packets
begin

text \<open>
  The map-session key operations of \<^verbatim>\<open>src/login/lobby_packets.cpp\<close>: generation, the rollover by
  two that client and server make on a zone change, and the derivation of the 16-byte map cipher
  key.  The random generator \<^verbatim>\<open>BCryptGenRandom\<close> is a parameter: a function from the buffer to its
  status and the buffer afterwards.
\<close>

section \<open>Operations\<close>

definition GenerateMapSessionKey :: "(bytes \<Rightarrow> bool \<times> bytes) \<Rightarrow> bytes \<Rightarrow> bool \<times> bytes" where
  "GenerateMapSessionKey gen_random map_session_key =
     (let key = replicate (length map_session_key) 0
      in case gen_random key of
           (success, key) \<Rightarrow>
             if \<not> success then (False, replicate (length key) 0) else (True, key))"

abbreviation (input) kRolloverWordOffset :: nat where "kRolloverWordOffset \<equiv> 4 * 4"

definition AdvanceMapSessionKey :: "bytes \<Rightarrow> bytes option" where
  "AdvanceMapSessionKey map_session_key =
     do {
       rollover_word \<leftarrow> ReadLe32 map_session_key kRolloverWordOffset;
       WriteLe32 map_session_key kRolloverWordOffset (rollover_word + 2)
     }"

definition DeriveMapCipherKey :: "bcrypt \<Rightarrow> bytes \<Rightarrow> bytes \<Rightarrow> bool \<times> bytes" where
  "DeriveMapCipherKey bc map_session_key map_cipher_key =
     (let cipher = replicate (length map_cipher_key) 0
      in case CalculateMd5 bc map_session_key cipher of
           (ok, cipher, _) \<Rightarrow>
             if \<not> ok then (False, replicate (length cipher) 0)
             else (let kept = takeWhile (\<lambda>b. b \<noteq> 0) cipher
                   in (True, kept @ replicate (length cipher - length kept) 0)))"

section \<open>Generation\<close>

lemma GenerateMapSessionKey_failure:
  "GenerateMapSessionKey gen key = (False, k) \<Longrightarrow> \<forall>b \<in> set k. b = 0"
  by (auto simp: GenerateMapSessionKey_def Let_def split: prod.splits if_splits)

section \<open>Rollover\<close>

definition rollover_word :: "bytes \<Rightarrow> u32" where
  "rollover_word key = le32 (key ! 16) (key ! 17) (key ! 18) (key ! 19)"

text \<open>The key after \<open>n\<close> zone changes, as the server computes it.\<close>

definition rolled :: "bytes \<Rightarrow> nat \<Rightarrow> bytes" where
  "rolled key n = take 16 key @ le32_bytes (rollover_word key + 2 * of_nat n)"

lemma length_rolled [simp]: "length key = 20 \<Longrightarrow> length (rolled key n) = 20"
  by (simp add: rolled_def)

lemma rollover_word_rolled:
  "length key = 20 \<Longrightarrow> rollover_word (rolled key n) = rollover_word key + 2 * of_nat n"
  using le32_nth_bytes [of "rollover_word key + 2 * of_nat n"]
  by (simp add: rollover_word_def rolled_def nth_append)

lemma rolled_0: "length key = 20 \<Longrightarrow> rolled key 0 = key"
proof -
  assume l: "length key = 20"
  have "drop 16 key = take 4 (drop 16 key)" using l by simp
  also have "\<dots> = le32_bytes (rollover_word key)"
    using l take4_drop [of 16 key] by (simp add: rollover_word_def le32_bytes_of_le32)
  finally have "le32_bytes (rollover_word key) = drop 16 key" by simp
  then show ?thesis by (simp add: rolled_def)
qed

lemma rolled_rolled: "length key = 20 \<Longrightarrow> rolled (rolled key m) n = rolled key (m + n)"
  by (simp add: rolled_def [of "rolled key m"] rollover_word_rolled)
     (simp add: rolled_def algebra_simps)

lemma AdvanceMapSessionKey_eq:
  "length key = 20 \<Longrightarrow> AdvanceMapSessionKey key = Some (rolled key 1)"
  by (simp add: AdvanceMapSessionKey_def ReadLe32_eq WriteLe32_eq copy_to_def rolled_def rollover_word_def)

fun advance_times :: "nat \<Rightarrow> bytes \<Rightarrow> bytes option" where
  "advance_times 0 key = Some key"
| "advance_times (Suc n) key = do { key \<leftarrow> AdvanceMapSessionKey key; advance_times n key }"

lemma advance_times_eq: "length key = 20 \<Longrightarrow> advance_times n key = Some (rolled key n)"
proof (induction n arbitrary: key)
  case (Suc n)
  then show ?case
    using rolled_rolled [of key 1 n] by (simp add: AdvanceMapSessionKey_eq)
qed (simp add: rolled_0)

text \<open>The rollover word wraps at 32 bits; the key first repeats after \<open>2 ^ 31\<close> zone changes.\<close>

lemma two_times_of_nat_eq_0_iff:
  "(2 * of_nat n :: u32) = 0 \<longleftrightarrow> 2 ^ 31 dvd n"
proof -
  have "(2 * of_nat n :: u32) = of_nat (2 * n)" by simp
  also have "\<dots> = 0 \<longleftrightarrow> 2 ^ 32 dvd 2 * n"
    by (simp only: word_of_nat_eq_0_iff) simp
  also have "(2::nat) ^ 32 = 2 * 2 ^ 31" by simp
  also have "2 * 2 ^ 31 dvd 2 * n \<longleftrightarrow> 2 ^ 31 dvd n" by (simp only: nat_mult_dvd_cancel_disj) simp
  finally show ?thesis .
qed

lemma rolled_eq_self_iff:
  assumes "length key = 20"
  shows "rolled key n = key \<longleftrightarrow> 2 ^ 31 dvd n"
proof -
  have "rolled key n = key \<longleftrightarrow> rolled key n = rolled key 0" using assms by (simp add: rolled_0)
  also have "\<dots> \<longleftrightarrow> (2 * of_nat n :: u32) = 0" by (simp add: rolled_def)
  finally show ?thesis by (simp only: two_times_of_nat_eq_0_iff)
qed

section \<open>Derivation\<close>

definition cut_at_zero :: "bytes \<Rightarrow> bytes" where
  "cut_at_zero d = takeWhile (\<lambda>b. b \<noteq> 0) d @ replicate (length d - length (takeWhile (\<lambda>b. b \<noteq> 0) d)) 0"

lemma length_cut_at_zero [simp]: "length (cut_at_zero d) = length d"
  by (simp add: cut_at_zero_def length_takeWhile_le)

lemma cut_at_zero_nth:
  assumes "i < length d"
  shows "cut_at_zero d ! i = (if \<exists>j \<le> i. d ! j = 0 then 0 else d ! i)"
proof -
  let ?k = "length (takeWhile (\<lambda>b. b \<noteq> 0) d)"
  show ?thesis
  proof (cases "i < ?k")
    case True
    have "d ! j \<noteq> 0" if "j \<le> i" for j
    proof -
      have "j < ?k" using that True by simp
      then have "takeWhile (\<lambda>b. b \<noteq> 0) d ! j \<noteq> 0"
        using set_takeWhileD [OF nth_mem] by blast
      with \<open>j < ?k\<close> show ?thesis by (simp add: takeWhile_nth)
    qed
    with True show ?thesis by (auto simp: cut_at_zero_def nth_append takeWhile_nth)
  next
    case False
    then have "?k < length d" using assms by simp
    then have "d ! ?k = 0" using nth_length_takeWhile [of "\<lambda>b. b \<noteq> 0" d] by simp
    with False assms show ?thesis by (auto simp: cut_at_zero_def nth_append intro!: exI [of _ ?k])
  qed
qed

context md5_service
begin

lemma DeriveMapCipherKey_success:
  assumes "length ck = 16" "DeriveMapCipherKey bc key ck = (True, c)"
  shows "c = cut_at_zero (digest key)"
  using assms CalculateMd5_success [of "replicate 16 0" key]
  by (auto simp: DeriveMapCipherKey_def Let_def cut_at_zero_def split: prod.splits if_splits)

lemma DeriveMapCipherKey_failure:
  assumes "length ck = 16" "DeriveMapCipherKey bc key ck = (False, c)"
  shows "c = replicate 16 0"
  using assms CalculateMd5_length [of key "replicate 16 0"]
  by (auto simp: DeriveMapCipherKey_def Let_def split: prod.splits if_splits)

lemma DeriveMapCipherKey_length:
  "length ck = 16 \<Longrightarrow> length (snd (DeriveMapCipherKey bc key ck)) = 16"
proof -
  assume l: "length ck = 16"
  obtain ok c where r: "DeriveMapCipherKey bc key ck = (ok, c)" by (cases "DeriveMapCipherKey bc key ck")
  show ?thesis
  proof (cases ok)
    case True
    with r have "c = cut_at_zero (digest key)" by (intro DeriveMapCipherKey_success [OF l]) simp
    with r show ?thesis by (simp add: digest_length)
  next
    case False
    with r have "c = replicate 16 0" by (intro DeriveMapCipherKey_failure [OF l]) simp
    with r show ?thesis by simp
  qed
qed

end

context md5_available
begin

lemma DeriveMapCipherKey_available:
  "length ck = 16 \<Longrightarrow> DeriveMapCipherKey bc key ck = (True, cut_at_zero (digest key))"
  using CalculateMd5_available [of "replicate 16 0" key]
  by (auto simp: DeriveMapCipherKey_def Let_def cut_at_zero_def digest_length)

end

section \<open>Properties of the key operations\<close>

text \<open>
  C37: after any number \<open>n\<close> of zone changes the map session key is the original one with \<open>2 * n\<close> added
  to its last little-endian word, wrapping at 32 bits; it first repeats after \<open>2 ^ 31\<close> changes.
\<close>

theorem advance_map_session_key_iterated:
  assumes "length key = 20"
  shows "advance_times n key = Some (take 16 key @ le32_bytes (rollover_word key + 2 * of_nat n)) \<and>
    (advance_times n key = Some key \<longleftrightarrow> 2 ^ 31 dvd n)"
  using advance_times_eq [OF assms] rolled_eq_self_iff [OF assms] by (simp add: rolled_def)

theorem advance_map_session_key_iterated_witness:
  "advance_times 3 (replicate 16 9 @ [0xFB, 0xFF, 0xFF, 0xFF]) = Some (replicate 16 9 @ [1, 0, 0, 0])"
proof -
  have "rollover_word (replicate 16 9 @ [0xFB, 0xFF, 0xFF, 0xFF]) = 0xFFFFFFFB"
    by (simp add: rollover_word_def nth_append le32_def)
  then show ?thesis
    using advance_map_session_key_iterated [of "replicate 16 9 @ [0xFB, 0xFF, 0xFF, 0xFF]" 3]
    by (simp add: le32_bytes_def)
qed

text \<open>
  C34: a derived map cipher key is the MD5 digest of the session key up to its first zero byte and
  zero from there on; a failed derivation leaves sixteen zero bytes, never a partial digest.
\<close>

theorem derive_map_cipher_key_exact:
  assumes "md5_service bc digest" "length old = 16" "DeriveMapCipherKey bc key old = (ok, c)"
  shows "length c = 16 \<and>
    (ok \<longrightarrow> (\<forall>i < 16. c ! i = (if \<exists>j \<le> i. digest key ! j = 0 then 0 else digest key ! i))) \<and>
    (\<not> ok \<longrightarrow> c = replicate 16 0)"
proof -
  note success = md5_service.DeriveMapCipherKey_success [OF assms(1,2), of key c]
  note failure = md5_service.DeriveMapCipherKey_failure [OF assms(1,2), of key c]
  have "length (digest key) = 16" by (rule md5_service.digest_length [OF assms(1)])
  then show ?thesis using assms(3) success failure by (cases ok) (simp_all add: cut_at_zero_nth)
qed

theorem derive_map_cipher_key_exact_witness:
  "DeriveMapCipherKey bcrypt_unavailable (replicate 20 5) (replicate 16 9) = (False, replicate 16 0)"
proof -
  obtain ok c where d: "DeriveMapCipherKey bcrypt_unavailable (replicate 20 5) (replicate 16 9) = (ok, c)"
    by (cases "DeriveMapCipherKey bcrypt_unavailable (replicate 20 5) (replicate 16 9)")
  moreover from d have "\<not> ok" by (simp add: DeriveMapCipherKey_def CalculateMd5_unavailable Let_def)
  ultimately show ?thesis
    using derive_map_cipher_key_exact [OF no_bcrypt.md5_service_axioms _ d] by simp
qed

text \<open>
  On the key bytes 0x40 to 0x53 the derivation, with MD5 computed by RFC 1321, gives the
  cipher key of the unit test.
\<close>

theorem derive_map_cipher_key_golden:
  "DeriveMapCipherKey bcrypt_md5 (map of_nat [0x40..<0x54]) (replicate 16 0) =
     (True, [0x6B, 0x7E, 0x62, 0xB6, 0x2D, 0xF0, 0xC7, 0x69, 0xCA, 0xC4, 0x86, 0xE1, 0xCE, 0x52, 0x8C, 0xAB])"
proof -
  have key: "map of_nat [0x40..<0x54] =
    ([0x40, 0x41, 0x42, 0x43, 0x44, 0x45, 0x46, 0x47, 0x48, 0x49, 0x4A, 0x4B, 0x4C, 0x4D, 0x4E, 0x4F,
      0x50, 0x51, 0x52, 0x53] :: bytes)" by simp
  have pad: "replicate 35 (0 :: u8) = [0,0,0,0,0,0,0,0,0,0,0,0,0,0,0,0,0,0,0,0,0,0,0,0,0,0,0,0,0,0,0,0,0,0,0]"
    by (simp add: numeral_eq_Suc)
  have "md5 (map of_nat [0x40..<0x54]) =
    [0x6B, 0x7E, 0x62, 0xB6, 0x2D, 0xF0, 0xC7, 0x69, 0xCA, 0xC4, 0x86, 0xE1, 0xCE, 0x52, 0x8C, 0xAB]"
    unfolding key by (simp add: md5_eval pad)
  then show ?thesis
    using rfc1321.DeriveMapCipherKey_available [of "replicate 16 0"]
    by (simp add: cut_at_zero_def)
qed

end
