(* ===== verification/Map_Store.thy ===== *)
theory Map_Store
  imports Map_Key
begin

text \<open>
  The process-wide map handoff state of \<^verbatim>\<open>src/runtime/revana_hooks.cpp\<close>: the shared session key and
  the cipher key derived from it, the rollover flag of a pending zone change, and the world
  endpoint.  Each operation is the source function on the record of its globals; the operations
  run under \<^verbatim>\<open>g_direct_map_key_mutex\<close> here as one step, and the theory of key
  concurrency takes them apart.
\<close>

section \<open>State and operations\<close>

record map_globals =
  cipher_key_enabled :: bool
  cipher_key_reported :: bool
  rollover_pending :: bool
  direct_session_key :: bytes
  direct_cipher_key :: bytes
  endpoint_enabled :: bool
  direct_ipv4 :: u32
  direct_port :: u16

definition initial_map_globals :: map_globals where
  "initial_map_globals =
     \<lparr>cipher_key_enabled = False, cipher_key_reported = False, rollover_pending = False,
      direct_session_key = replicate 20 0, direct_cipher_key = replicate 16 0,
      endpoint_enabled = False, direct_ipv4 = 0, direct_port = 0\<rparr>"

definition ClearDirectMapKeyMaterial :: "map_globals \<Rightarrow> map_globals" where
  "ClearDirectMapKeyMaterial g =
     g\<lparr>direct_session_key := replicate (length (direct_session_key g)) 0,
       direct_cipher_key := replicate (length (direct_cipher_key g)) 0\<rparr>"

text \<open>The result is the returned flag, \<^verbatim>\<open>advanced\<close> and the globals.\<close>

definition AdvanceDirectMapSessionKey :: "bcrypt \<Rightarrow> map_globals \<Rightarrow> (bool \<times> bool \<times> map_globals) option" where
  "AdvanceDirectMapSessionKey bc g =
     (if \<not> cipher_key_enabled g then Some (False, False, g)
      else if rollover_pending g then Some (True, False, g)
      else do {
        next_session_key \<leftarrow> AdvanceMapSessionKey (direct_session_key g);
        (case DeriveMapCipherKey bc next_session_key (replicate 16 0) of
           (ok, next_cipher_key) \<Rightarrow>
             if \<not> ok then Some (False, False, g)
             else Some (True, True,
               g\<lparr>direct_session_key := next_session_key, direct_cipher_key := next_cipher_key,
                 cipher_key_reported := False, rollover_pending := True\<rparr>))
      })"

text \<open>\<open>None\<close> is a null \<^verbatim>\<open>key\<close> pointer.\<close>

definition RevanaConfigureDirectMapSessionKey ::
  "bcrypt \<Rightarrow> bytes option \<Rightarrow> map_globals \<Rightarrow> bool \<times> map_globals" where
  "RevanaConfigureDirectMapSessionKey bc key g =
     (case key of
        None \<Rightarrow> (False, g)
      | Some k \<Rightarrow>
          if length k \<noteq> length (direct_session_key g) then (False, g)
          else case DeriveMapCipherKey bc k (replicate 16 0) of
                 (ok, cipher_key) \<Rightarrow>
                   if \<not> ok then (False, g)
                   else
                     let g = g\<lparr>cipher_key_enabled := False\<rparr>;
                         g = g\<lparr>direct_session_key := k, direct_cipher_key := cipher_key\<rparr>;
                         g = g\<lparr>cipher_key_reported := False, rollover_pending := False\<rparr>
                     in (True, g\<lparr>cipher_key_enabled := True\<rparr>))"

definition RevanaClearDirectMapCipherKey :: "map_globals \<Rightarrow> map_globals" where
  "RevanaClearDirectMapCipherKey g =
     (let g = g\<lparr>cipher_key_enabled := False\<rparr>;
          g = ClearDirectMapKeyMaterial g
      in g\<lparr>cipher_key_reported := False, rollover_pending := False\<rparr>)"

definition RevanaConfigureDirectMapEndpoint ::
  "u32 \<Rightarrow> u16 \<Rightarrow> map_globals \<Rightarrow> bool \<times> map_globals" where
  "RevanaConfigureDirectMapEndpoint ipv4_address port g =
     (if ipv4_address = 0 \<or> port = 0 \<or> port = 0xFFFF then (False, g)
      else (True, g\<lparr>direct_ipv4 := ipv4_address, direct_port := port, endpoint_enabled := True\<rparr>))"

definition RevanaClearDirectMapEndpoint :: "map_globals \<Rightarrow> map_globals" where
  "RevanaClearDirectMapEndpoint g =
     g\<lparr>endpoint_enabled := False, direct_ipv4 := 0, direct_port := 0\<rparr>"

section \<open>The invariant\<close>

text \<open>
  The keys have their sizes, an enabled store holds the cipher key of its session key, and an
  enabled endpoint is a usable one (the hooks treat port 0 and port 65535 as missing).
\<close>

definition keys_match :: "(bytes \<Rightarrow> bytes) \<Rightarrow> map_globals \<Rightarrow> bool" where
  "keys_match digest g \<longleftrightarrow> direct_cipher_key g = cut_at_zero (digest (direct_session_key g))"

definition map_globals_ok :: "(bytes \<Rightarrow> bytes) \<Rightarrow> map_globals \<Rightarrow> bool" where
  "map_globals_ok digest g \<longleftrightarrow>
     length (direct_session_key g) = 20 \<and> length (direct_cipher_key g) = 16 \<and>
     (cipher_key_enabled g \<longrightarrow> keys_match digest g) \<and>
     (endpoint_enabled g \<longrightarrow> direct_ipv4 g \<noteq> 0 \<and> direct_port g \<noteq> 0 \<and> direct_port g \<noteq> 0xFFFF)"

lemmas map_op_defs =
  AdvanceDirectMapSessionKey_def RevanaConfigureDirectMapSessionKey_def
  RevanaClearDirectMapCipherKey_def ClearDirectMapKeyMaterial_def
  RevanaConfigureDirectMapEndpoint_def RevanaClearDirectMapEndpoint_def

lemma initial_map_globals_ok: "map_globals_ok digest initial_map_globals"
  by (simp add: map_globals_ok_def initial_map_globals_def)

lemma RevanaClearDirectMapCipherKey_ok:
  "map_globals_ok digest g \<Longrightarrow> map_globals_ok digest (RevanaClearDirectMapCipherKey g)"
  by (simp add: map_globals_ok_def map_op_defs Let_def)

lemma RevanaConfigureDirectMapEndpoint_ok:
  "map_globals_ok digest g \<Longrightarrow> map_globals_ok digest (snd (RevanaConfigureDirectMapEndpoint ip port g))"
  by (auto simp: map_globals_ok_def map_op_defs keys_match_def)

lemma RevanaClearDirectMapEndpoint_ok:
  "map_globals_ok digest g \<Longrightarrow> map_globals_ok digest (RevanaClearDirectMapEndpoint g)"
  by (auto simp: map_globals_ok_def map_op_defs keys_match_def)

lemma AdvanceDirectMapSessionKey_cases:
  assumes "md5_service bc digest" "map_globals_ok digest g"
  obtains (unchanged) r where "AdvanceDirectMapSessionKey bc g = Some (r, False, g)"
      "r = (cipher_key_enabled g \<and> rollover_pending g)"
    | (advanced) "cipher_key_enabled g" "\<not> rollover_pending g"
      "AdvanceDirectMapSessionKey bc g = Some (True, True,
         g\<lparr>direct_session_key := rolled (direct_session_key g) 1,
           direct_cipher_key := cut_at_zero (digest (rolled (direct_session_key g) 1)),
           cipher_key_reported := False, rollover_pending := True\<rparr>)"
proof (cases "cipher_key_enabled g \<and> \<not> rollover_pending g")
  case True
  have len: "length (direct_session_key g) = 20" using assms(2) by (simp add: map_globals_ok_def)
  obtain ok c where d: "DeriveMapCipherKey bc (rolled (direct_session_key g) 1) (replicate 16 0) = (ok, c)"
    by (cases "DeriveMapCipherKey bc (rolled (direct_session_key g) 1) (replicate 16 0)")
  show thesis
  proof (cases ok)
    case ok: True
    with d have "c = cut_at_zero (digest (rolled (direct_session_key g) 1))"
      by (intro md5_service.DeriveMapCipherKey_success [OF assms(1), of "replicate 16 0"]) simp_all
    then show thesis using True d ok len advanced by (simp add: map_op_defs AdvanceMapSessionKey_eq)
  next
    case False
    then show thesis using True d len unchanged by (simp add: map_op_defs AdvanceMapSessionKey_eq)
  qed
next
  case False
  then show thesis using unchanged by (auto simp: map_op_defs)
qed

lemma AdvanceDirectMapSessionKey_ok:
  assumes "md5_service bc digest" "map_globals_ok digest g"
    and "AdvanceDirectMapSessionKey bc g = Some (r, a, g')"
  shows "map_globals_ok digest g'"
proof (cases rule: AdvanceDirectMapSessionKey_cases [OF assms(1,2)])
  case (1 r)
  then show ?thesis using assms by simp
next
  case 2
  then show ?thesis using assms(2,3) md5_service.digest_length [OF assms(1)]
    by (auto simp: map_globals_ok_def keys_match_def)
qed

lemma RevanaConfigureDirectMapSessionKey_cases:
  assumes "md5_service bc digest" "map_globals_ok digest g"
  obtains (rejected) "RevanaConfigureDirectMapSessionKey bc key g = (False, g)"
    | (configured) k where "key = Some k" "length k = 20"
      "RevanaConfigureDirectMapSessionKey bc key g = (True,
         g\<lparr>cipher_key_enabled := True, cipher_key_reported := False, rollover_pending := False,
           direct_session_key := k, direct_cipher_key := cut_at_zero (digest k)\<rparr>)"
proof (cases key)
  case None
  then show thesis using rejected by (simp add: map_op_defs)
next
  case (Some k)
  obtain ok c where d: "DeriveMapCipherKey bc k (replicate 16 0) = (ok, c)"
    by (cases "DeriveMapCipherKey bc k (replicate 16 0)")
  have c: "c = cut_at_zero (digest k)" if ok
    using d that by (intro md5_service.DeriveMapCipherKey_success [OF assms(1), of "replicate 16 0"]) simp_all
  show thesis
  proof (cases "ok \<and> length k = 20")
    case True
    then show thesis using Some d c assms(2) configured
      by (simp add: map_op_defs Let_def map_globals_ok_def)
  next
    case False
    then show thesis using Some d assms(2) rejected
      by (auto simp: map_op_defs map_globals_ok_def)
  qed
qed

lemma RevanaConfigureDirectMapSessionKey_ok:
  assumes "md5_service bc digest" "map_globals_ok digest g"
  shows "map_globals_ok digest (snd (RevanaConfigureDirectMapSessionKey bc key g))"
  using assms md5_service.digest_length [OF assms(1)]
  by (cases rule: RevanaConfigureDirectMapSessionKey_cases [OF assms, of key])
     (auto simp: map_globals_ok_def keys_match_def)

section \<open>The lifecycle of the key\<close>

text \<open>
  What the world connection does to an established key: a zone handoff packet (0x00B) asks for a
  rollover, a world login response (0x00A) ends the pending one.  The abstract lifecycle only
  counts the rollovers of a key and remembers whether one is pending.
\<close>

datatype map_event = ZoneHandoff bcrypt | WorldLogin

definition AcknowledgeWorldLogin :: "map_globals \<Rightarrow> map_globals" where
  "AcknowledgeWorldLogin g = g\<lparr>rollover_pending := False\<rparr>"

fun map_step :: "map_event \<Rightarrow> map_globals \<Rightarrow> map_globals option" where
  "map_step (ZoneHandoff bc) g = map_option (snd \<circ> snd) (AdvanceDirectMapSessionKey bc g)"
| "map_step WorldLogin g = Some (AcknowledgeWorldLogin g)"

fun map_run :: "map_event list \<Rightarrow> map_globals \<Rightarrow> map_globals option" where
  "map_run [] g = Some g"
| "map_run (e # es) g = do { g \<leftarrow> map_step e g; map_run es g }"

type_synonym lifecycle = "nat \<times> bool"

fun lifecycle_step :: "map_event \<Rightarrow> lifecycle \<Rightarrow> lifecycle" where
  "lifecycle_step (ZoneHandoff bc) (n, pending) = (if pending then (n, True) else (Suc n, True))"
| "lifecycle_step WorldLogin (n, pending) = (n, False)"

text \<open>The globals that realise a lifecycle state of the key \<open>k\<close>.\<close>

definition realises :: "(bytes \<Rightarrow> bytes) \<Rightarrow> bytes \<Rightarrow> lifecycle \<Rightarrow> map_globals \<Rightarrow> bool" where
  "realises digest k l g \<longleftrightarrow>
     cipher_key_enabled g \<and> direct_session_key g = rolled k (fst l) \<and>
     direct_cipher_key g = cut_at_zero (digest (rolled k (fst l))) \<and> rollover_pending g = snd l"

definition event_provider :: "(bytes \<Rightarrow> bytes) \<Rightarrow> map_event \<Rightarrow> bool" where
  "event_provider digest e = (case e of ZoneHandoff bc \<Rightarrow> md5_available bc digest | WorldLogin \<Rightarrow> True)"

lemma map_step_realises:
  assumes "event_provider digest e" "length k = 20" "realises digest k l g"
  shows "\<exists>g'. map_step e g = Some g' \<and> realises digest k (lifecycle_step e l) g'"
proof (cases e)
  case (ZoneHandoff bc)
  then have bc: "md5_available bc digest" using assms(1) by (simp add: event_provider_def)
  obtain n p where l: "l = (n, p)" by (cases l)
  show ?thesis
    using assms l ZoneHandoff md5_available.DeriveMapCipherKey_available [OF bc, of "replicate 16 0"]
    by (auto simp: realises_def AdvanceDirectMapSessionKey_def AdvanceMapSessionKey_eq rolled_rolled)
next
  case WorldLogin
  then show ?thesis using assms by (cases l) (auto simp: realises_def AcknowledgeWorldLogin_def)
qed

lemma map_run_realises:
  assumes "\<forall>e \<in> set es. event_provider digest e" "length k = 20" "realises digest k l g"
  shows "\<exists>g'. map_run es g = Some g' \<and> realises digest k (fold lifecycle_step es l) g'"
  using assms
proof (induction es arbitrary: l g)
  case (Cons e es)
  from Cons.prems obtain g' where "map_step e g = Some g'" "realises digest k (lifecycle_step e l) g'"
    using map_step_realises [of digest e k l g] by auto
  with Cons show ?case by simp
qed simp

text \<open>Repeated handoff packets before the next world login count once.\<close>

lemma lifecycle_repeated_handoffs:
  "fold lifecycle_step (replicate (Suc m) (ZoneHandoff bc)) (n, False) = (Suc n, True)"
proof -
  have "fold lifecycle_step (replicate m (ZoneHandoff bc)) (Suc n, True) = (Suc n, True)"
    by (induction m) auto
  then show ?thesis by simp
qed

section \<open>Properties of the store\<close>

text \<open>The stores any sequence of operations can reach, the provider answering each call as it likes.\<close>

inductive map_reachable :: "(bytes \<Rightarrow> bytes) \<Rightarrow> map_globals \<Rightarrow> bool" for digest where
  start: "map_reachable digest initial_map_globals"
| configure: "map_reachable digest g \<Longrightarrow> md5_service bc digest \<Longrightarrow>
    map_reachable digest (snd (RevanaConfigureDirectMapSessionKey bc key g))"
| clear: "map_reachable digest g \<Longrightarrow> map_reachable digest (RevanaClearDirectMapCipherKey g)"
| endpoint: "map_reachable digest g \<Longrightarrow>
    map_reachable digest (snd (RevanaConfigureDirectMapEndpoint ipv4 port g))"
| clear_endpoint: "map_reachable digest g \<Longrightarrow> map_reachable digest (RevanaClearDirectMapEndpoint g)"
| advance: "map_reachable digest g \<Longrightarrow> md5_service bc digest \<Longrightarrow>
    AdvanceDirectMapSessionKey bc g = Some (r, a, g') \<Longrightarrow> map_reachable digest g'"
| login: "map_reachable digest g \<Longrightarrow> map_reachable digest (AcknowledgeWorldLogin g)"

lemma AcknowledgeWorldLogin_ok:
  "map_globals_ok digest g \<Longrightarrow> map_globals_ok digest (AcknowledgeWorldLogin g)"
  by (simp add: map_globals_ok_def AcknowledgeWorldLogin_def keys_match_def)

text \<open>
  C10: in every reachable state of the map handoff store, whatever the order of configuration,
  rollover, acknowledgement and clearing and whichever provider calls fail, the keys have their
  sizes, an enabled cipher key is the one derived from the stored session key, and an enabled
  endpoint has a non-zero address and a port other than 0 and 65535.
\<close>

theorem map_store_invariant:
  assumes "map_reachable digest g"
  shows "length (direct_session_key g) = 20 \<and> length (direct_cipher_key g) = 16 \<and>
    (cipher_key_enabled g \<longrightarrow> direct_cipher_key g = cut_at_zero (digest (direct_session_key g))) \<and>
    (endpoint_enabled g \<longrightarrow> direct_ipv4 g \<noteq> 0 \<and> direct_port g \<noteq> 0 \<and> direct_port g \<noteq> 0xFFFF)"
proof -
  have "map_globals_ok digest g" using assms
    by induction (blast intro: initial_map_globals_ok RevanaConfigureDirectMapSessionKey_ok
        RevanaClearDirectMapCipherKey_ok RevanaConfigureDirectMapEndpoint_ok
        RevanaClearDirectMapEndpoint_ok AdvanceDirectMapSessionKey_ok AcknowledgeWorldLogin_ok)+
  then show ?thesis by (auto simp: map_globals_ok_def keys_match_def)
qed

theorem map_store_invariant_witness:
  "direct_port (snd (RevanaConfigureDirectMapEndpoint 0x7F000001 0xFFFF initial_map_globals)) = 0 \<and>
   length (direct_session_key (snd (RevanaConfigureDirectMapEndpoint 0x7F000001 0xFFFF initial_map_globals))) = 20"
proof -
  have "map_reachable md5 (snd (RevanaConfigureDirectMapEndpoint 0x7F000001 0xFFFF initial_map_globals))"
    by (intro map_reachable.intros)
  from map_store_invariant [OF this] show ?thesis
    by (simp add: RevanaConfigureDirectMapEndpoint_def initial_map_globals_def)
qed



end
