(* ===== verification/Key_Concurrency.thy ===== *)
theory Key_Concurrency
  imports Map_Store
begin

text \<open>
  The map keys under concurrency.  The operations of \<^verbatim>\<open>src/runtime/revana_hooks.cpp\<close> on them are taken
  apart into their atomic steps: accesses to the flags, which are atomic variables, acquiring and releasing
  \<^verbatim>\<open>g_direct_map_key_mutex\<close>, and, between those, the writes of the two keys.  One thread, the owner of the
  bridge, configures and clears; any number of guest threads advance, apply and acknowledge.
\<close>

section \<open>Threads and their program points\<close>

datatype key_thread = Owner_Thread | Guest_Thread nat

text \<open>\<^verbatim>\<open>RevanaConfigureDirectMapSessionKey\<close> after the derivation, and \<^verbatim>\<open>RevanaClearDirectMapCipherKey\<close>.\<close>

datatype owner_pc =
    Owner_Idle
  | Conf_Disable bytes bytes | Conf_Lock bytes bytes | Conf_Session bytes bytes | Conf_Cipher bytes | Conf_Unlock
  | Conf_Reported | Conf_Pending | Conf_Enable
  | Clear_Disable | Clear_Lock | Clear_Session | Clear_Cipher | Clear_Reported | Clear_Pending | Clear_Unlock

text \<open>\<^verbatim>\<open>AdvanceDirectMapSessionKey\<close>, \<^verbatim>\<open>RevanaApplyDirectMapCipherKey\<close> and the acknowledgement of a login.\<close>

datatype guest_pc =
    Guest_Idle
  | Adv_Lock | Adv_Enabled | Adv_Pending | Adv_Derive | Adv_Session bytes bytes | Adv_Cipher bytes
  | Adv_Reported | Adv_Mark | Adv_Unlock
  | Apply_Enabled | Apply_Lock | Apply_Recheck | Apply_Copy | Apply_Unlock bool | Apply_Report
  | Login_Ack

text \<open>
  \<open>copied\<close> records the keys at each copy to a guest: the session key of the moment and the bytes copied;
  \<open>configured\<close> the session keys the owner has stored.
\<close>

record key_system =
  globals :: map_globals
  holder :: "key_thread option"
  owner :: owner_pc
  guests :: "nat \<Rightarrow> guest_pc"
  copied :: "(bytes \<times> bytes) list"
  configured :: "bytes list"

definition acquire :: "key_thread \<Rightarrow> key_system \<Rightarrow> key_system option" where
  "acquire t s = (if holder s = None then Some (s\<lparr>holder := Some t\<rparr>) else None)"

definition owner_at :: "owner_pc \<Rightarrow> key_system \<Rightarrow> key_system" where
  "owner_at pc s = s\<lparr>owner := pc\<rparr>"

definition guest_at :: "nat \<Rightarrow> guest_pc \<Rightarrow> key_system \<Rightarrow> key_system" where
  "guest_at i pc s = s\<lparr>guests := (guests s)(i := pc)\<rparr>"

definition store_globals :: "(map_globals \<Rightarrow> map_globals) \<Rightarrow> key_system \<Rightarrow> key_system" where
  "store_globals f s = s\<lparr>globals := f (globals s)\<rparr>"

text \<open>One step of the owner; \<open>None\<close> while it waits for the mutex or has nothing to do.\<close>

fun owner_next :: "owner_pc \<Rightarrow> key_system \<Rightarrow> key_system option" where
  "owner_next Owner_Idle s = None"
| "owner_next (Conf_Disable k c) s =
     Some (owner_at (Conf_Lock k c) (store_globals (\<lambda>g. g\<lparr>cipher_key_enabled := False\<rparr>) s))"
| "owner_next (Conf_Lock k c) s = map_option (owner_at (Conf_Session k c)) (acquire Owner_Thread s)"
| "owner_next (Conf_Session k c) s =
     Some (owner_at (Conf_Cipher c) (store_globals (\<lambda>g. g\<lparr>direct_session_key := k\<rparr>) s\<lparr>configured := k # configured s\<rparr>))"
| "owner_next (Conf_Cipher c) s = Some (owner_at Conf_Unlock (store_globals (\<lambda>g. g\<lparr>direct_cipher_key := c\<rparr>) s))"
| "owner_next Conf_Unlock s = Some (owner_at Conf_Reported (s\<lparr>holder := None\<rparr>))"
| "owner_next Conf_Reported s = Some (owner_at Conf_Pending (store_globals (\<lambda>g. g\<lparr>cipher_key_reported := False\<rparr>) s))"
| "owner_next Conf_Pending s = Some (owner_at Conf_Enable (store_globals (\<lambda>g. g\<lparr>rollover_pending := False\<rparr>) s))"
| "owner_next Conf_Enable s = Some (owner_at Owner_Idle (store_globals (\<lambda>g. g\<lparr>cipher_key_enabled := True\<rparr>) s))"
| "owner_next Clear_Disable s = Some (owner_at Clear_Lock (store_globals (\<lambda>g. g\<lparr>cipher_key_enabled := False\<rparr>) s))"
| "owner_next Clear_Lock s = map_option (owner_at Clear_Session) (acquire Owner_Thread s)"
| "owner_next Clear_Session s = Some (owner_at Clear_Cipher (store_globals
     (\<lambda>g. g\<lparr>direct_session_key := replicate (length (direct_session_key g)) 0\<rparr>) s))"
| "owner_next Clear_Cipher s = Some (owner_at Clear_Reported (store_globals
     (\<lambda>g. g\<lparr>direct_cipher_key := replicate (length (direct_cipher_key g)) 0\<rparr>) s))"
| "owner_next Clear_Reported s = Some (owner_at Clear_Pending (store_globals (\<lambda>g. g\<lparr>cipher_key_reported := False\<rparr>) s))"
| "owner_next Clear_Pending s = Some (owner_at Clear_Unlock (store_globals (\<lambda>g. g\<lparr>rollover_pending := False\<rparr>) s))"
| "owner_next Clear_Unlock s = Some (owner_at Owner_Idle (s\<lparr>holder := None\<rparr>))"

text \<open>
  One step of guest thread \<open>i\<close>: in \<^verbatim>\<open>AdvanceDirectMapSessionKey\<close>, whose derivation uses the provider of the
  moment, in \<^verbatim>\<open>RevanaApplyDirectMapCipherKey\<close>, and the acknowledgement.
\<close>

fun advance_next :: "bcrypt \<Rightarrow> nat \<Rightarrow> guest_pc \<Rightarrow> key_system \<Rightarrow> key_system option" where
  "advance_next bc i Adv_Lock s = map_option (guest_at i Adv_Enabled) (acquire (Guest_Thread i) s)"
| "advance_next bc i Adv_Enabled s =
     Some (guest_at i (if cipher_key_enabled (globals s) then Adv_Pending else Adv_Unlock) s)"
| "advance_next bc i Adv_Pending s =
     Some (guest_at i (if rollover_pending (globals s) then Adv_Unlock else Adv_Derive) s)"
| "advance_next bc i Adv_Derive s = do {
     next_session_key \<leftarrow> AdvanceMapSessionKey (direct_session_key (globals s));
     (case DeriveMapCipherKey bc next_session_key (replicate 16 0) of
        (ok, next_cipher_key) \<Rightarrow>
          Some (guest_at i (if ok then Adv_Session next_session_key next_cipher_key else Adv_Unlock) s))
   }"
| "advance_next bc i (Adv_Session k c) s =
     Some (guest_at i (Adv_Cipher c) (store_globals (\<lambda>g. g\<lparr>direct_session_key := k\<rparr>) s))"
| "advance_next bc i (Adv_Cipher c) s =
     Some (guest_at i Adv_Reported (store_globals (\<lambda>g. g\<lparr>direct_cipher_key := c\<rparr>) s))"
| "advance_next bc i Adv_Reported s =
     Some (guest_at i Adv_Mark (store_globals (\<lambda>g. g\<lparr>cipher_key_reported := False\<rparr>) s))"
| "advance_next bc i Adv_Mark s =
     Some (guest_at i Adv_Unlock (store_globals (\<lambda>g. g\<lparr>rollover_pending := True\<rparr>) s))"
| "advance_next bc i Adv_Unlock s = Some (guest_at i Guest_Idle (s\<lparr>holder := None\<rparr>))"
| "advance_next bc i _ s = None"

fun apply_next :: "nat \<Rightarrow> guest_pc \<Rightarrow> key_system \<Rightarrow> key_system option" where
  "apply_next i Apply_Enabled s =
     Some (guest_at i (if cipher_key_enabled (globals s) then Apply_Lock else Guest_Idle) s)"
| "apply_next i Apply_Lock s = map_option (guest_at i Apply_Recheck) (acquire (Guest_Thread i) s)"
| "apply_next i Apply_Recheck s =
     Some (guest_at i (if cipher_key_enabled (globals s) then Apply_Copy else Apply_Unlock False) s)"
| "apply_next i Apply_Copy s = Some (guest_at i (Apply_Unlock True)
     (s\<lparr>copied := (direct_session_key (globals s), direct_cipher_key (globals s)) # copied s\<rparr>))"
| "apply_next i (Apply_Unlock installed) s =
     Some (guest_at i (if installed then Apply_Report else Guest_Idle) (s\<lparr>holder := None\<rparr>))"
| "apply_next i Apply_Report s =
     Some (guest_at i Guest_Idle (store_globals (\<lambda>g. g\<lparr>cipher_key_reported := True\<rparr>) s))"
| "apply_next i _ s = None"

fun in_apply :: "guest_pc \<Rightarrow> bool" where
  "in_apply Apply_Enabled = True" | "in_apply Apply_Lock = True" | "in_apply Apply_Recheck = True"
| "in_apply Apply_Copy = True" | "in_apply (Apply_Unlock installed) = True" | "in_apply Apply_Report = True"
| "in_apply _ = False"

definition guest_next :: "bcrypt \<Rightarrow> nat \<Rightarrow> guest_pc \<Rightarrow> key_system \<Rightarrow> key_system option" where
  "guest_next bc i pc s =
     (if pc = Login_Ack then Some (guest_at i Guest_Idle (store_globals AcknowledgeWorldLogin s))
      else if in_apply pc then apply_next i pc s
      else advance_next bc i pc s)"

lemma guest_next_simps [simp]:
  "guest_next bc i Guest_Idle s = None"
  "guest_next bc i Adv_Lock s = map_option (guest_at i Adv_Enabled) (acquire (Guest_Thread i) s)"
  "guest_next bc i Adv_Enabled s =
     Some (guest_at i (if cipher_key_enabled (globals s) then Adv_Pending else Adv_Unlock) s)"
  "guest_next bc i Adv_Pending s =
     Some (guest_at i (if rollover_pending (globals s) then Adv_Unlock else Adv_Derive) s)"
  "guest_next bc i Adv_Derive s = do {
     next_session_key \<leftarrow> AdvanceMapSessionKey (direct_session_key (globals s));
     (case DeriveMapCipherKey bc next_session_key (replicate 16 0) of
        (ok, next_cipher_key) \<Rightarrow>
          Some (guest_at i (if ok then Adv_Session next_session_key next_cipher_key else Adv_Unlock) s))
   }"
  "guest_next bc i (Adv_Session k c) s =
     Some (guest_at i (Adv_Cipher c) (store_globals (\<lambda>g. g\<lparr>direct_session_key := k\<rparr>) s))"
  "guest_next bc i (Adv_Cipher c) s =
     Some (guest_at i Adv_Reported (store_globals (\<lambda>g. g\<lparr>direct_cipher_key := c\<rparr>) s))"
  "guest_next bc i Adv_Reported s =
     Some (guest_at i Adv_Mark (store_globals (\<lambda>g. g\<lparr>cipher_key_reported := False\<rparr>) s))"
  "guest_next bc i Adv_Mark s =
     Some (guest_at i Adv_Unlock (store_globals (\<lambda>g. g\<lparr>rollover_pending := True\<rparr>) s))"
  "guest_next bc i Adv_Unlock s = Some (guest_at i Guest_Idle (s\<lparr>holder := None\<rparr>))"
  "guest_next bc i Apply_Enabled s =
     Some (guest_at i (if cipher_key_enabled (globals s) then Apply_Lock else Guest_Idle) s)"
  "guest_next bc i Apply_Lock s = map_option (guest_at i Apply_Recheck) (acquire (Guest_Thread i) s)"
  "guest_next bc i Apply_Recheck s =
     Some (guest_at i (if cipher_key_enabled (globals s) then Apply_Copy else Apply_Unlock False) s)"
  "guest_next bc i Apply_Copy s = Some (guest_at i (Apply_Unlock True)
     (s\<lparr>copied := (direct_session_key (globals s), direct_cipher_key (globals s)) # copied s\<rparr>))"
  "guest_next bc i (Apply_Unlock installed) s =
     Some (guest_at i (if installed then Apply_Report else Guest_Idle) (s\<lparr>holder := None\<rparr>))"
  "guest_next bc i Apply_Report s =
     Some (guest_at i Guest_Idle (store_globals (\<lambda>g. g\<lparr>cipher_key_reported := True\<rparr>) s))"
  "guest_next bc i Login_Ack s = Some (guest_at i Guest_Idle (store_globals AcknowledgeWorldLogin s))"
  by (simp_all add: guest_next_def)

text \<open>
  The steps of the system.  A configuration that gets as far as the keys has derived the cipher key; a
  failed one has no step here, it changes nothing.
\<close>

inductive key_step :: "(bytes \<Rightarrow> bytes) \<Rightarrow> key_system \<Rightarrow> key_system \<Rightarrow> bool" for digest where
  Configure_Starts: "owner s = Owner_Idle \<Longrightarrow> md5_service bc digest \<Longrightarrow> length k = 20 \<Longrightarrow>
    DeriveMapCipherKey bc k (replicate 16 0) = (True, c) \<Longrightarrow> key_step digest s (owner_at (Conf_Disable k c) s)"
| Clear_Starts: "owner s = Owner_Idle \<Longrightarrow> key_step digest s (owner_at Clear_Disable s)"
| Owner_Steps: "owner_next (owner s) s = Some s' \<Longrightarrow> key_step digest s s'"
| Guest_Starts: "guests s i = Guest_Idle \<Longrightarrow> pc \<in> {Adv_Lock, Apply_Enabled, Login_Ack} \<Longrightarrow>
    key_step digest s (guest_at i pc s)"
| Guest_Steps: "md5_service bc digest \<Longrightarrow> guest_next bc i (guests s i) s = Some s' \<Longrightarrow> key_step digest s s'"

inductive key_run :: "(bytes \<Rightarrow> bytes) \<Rightarrow> key_system \<Rightarrow> bool" for digest where
  Initially: "map_globals_ok digest g \<Longrightarrow> \<not> cipher_key_enabled g \<Longrightarrow>
    key_run digest \<lparr>globals = g, holder = None, owner = Owner_Idle, guests = (\<lambda>_. Guest_Idle), copied = [], configured = []\<rparr>"
| Stepping: "key_run digest s \<Longrightarrow> key_step digest s s' \<Longrightarrow> key_run digest s'"

inductive_cases key_stepE: "key_step digest s s'"


section \<open>The invariant\<close>

text \<open>Who is inside the critical section, and which guests have seen the keys enabled from inside.\<close>

fun owner_inside :: "owner_pc \<Rightarrow> bool" where
  "owner_inside (Conf_Session k c) = True" | "owner_inside (Conf_Cipher c) = True" | "owner_inside Conf_Unlock = True"
| "owner_inside Clear_Session = True" | "owner_inside Clear_Cipher = True" | "owner_inside Clear_Reported = True"
| "owner_inside Clear_Pending = True" | "owner_inside Clear_Unlock = True" | "owner_inside _ = False"

fun guest_inside :: "guest_pc \<Rightarrow> bool" where
  "guest_inside Guest_Idle = False" | "guest_inside Adv_Lock = False" | "guest_inside Apply_Enabled = False"
| "guest_inside Apply_Lock = False" | "guest_inside Apply_Report = False" | "guest_inside Login_Ack = False"
| "guest_inside _ = True"

fun owner_early :: "owner_pc \<Rightarrow> bool" where
  "owner_early Owner_Idle = True" | "owner_early (Conf_Disable k c) = True" | "owner_early (Conf_Lock k c) = True"
| "owner_early Clear_Disable = True" | "owner_early Clear_Lock = True" | "owner_early _ = False"

fun owner_enabled :: "owner_pc \<Rightarrow> bool" where
  "owner_enabled Owner_Idle = True" | "owner_enabled (Conf_Disable k c) = True" | "owner_enabled Clear_Disable = True"
| "owner_enabled _ = False"

text \<open>A session key that descends from a configured one, and a store whose keys belong together.\<close>

definition descends :: "bytes list \<Rightarrow> bytes \<Rightarrow> bool" where
  "descends ks k \<longleftrightarrow> (\<exists>k0 \<in> set ks. \<exists>n. k = rolled k0 n)"

definition settled :: "(bytes \<Rightarrow> bytes) \<Rightarrow> bytes list \<Rightarrow> map_globals \<Rightarrow> bool" where
  "settled digest ks g \<longleftrightarrow> keys_match digest g \<and> descends ks (direct_session_key g)"

fun owner_holds :: "(bytes \<Rightarrow> bytes) \<Rightarrow> bytes list \<Rightarrow> map_globals \<Rightarrow> owner_pc \<Rightarrow> bool" where
  "owner_holds digest ks g (Conf_Disable k c) \<longleftrightarrow> length k = 20 \<and> c = cut_at_zero (digest k)"
| "owner_holds digest ks g (Conf_Lock k c) \<longleftrightarrow> length k = 20 \<and> c = cut_at_zero (digest k)"
| "owner_holds digest ks g (Conf_Session k c) \<longleftrightarrow> length k = 20 \<and> c = cut_at_zero (digest k)"
| "owner_holds digest ks g (Conf_Cipher c) \<longleftrightarrow>
     c = cut_at_zero (digest (direct_session_key g)) \<and> descends ks (direct_session_key g)"
| "owner_holds digest ks g Conf_Unlock \<longleftrightarrow> settled digest ks g"
| "owner_holds digest ks g Conf_Reported \<longleftrightarrow> settled digest ks g"
| "owner_holds digest ks g Conf_Pending \<longleftrightarrow> settled digest ks g"
| "owner_holds digest ks g Conf_Enable \<longleftrightarrow> settled digest ks g"
| "owner_holds digest ks g _ \<longleftrightarrow> True"

fun guest_holds :: "(bytes \<Rightarrow> bytes) \<Rightarrow> bytes list \<Rightarrow> map_globals \<Rightarrow> bool \<Rightarrow> guest_pc \<Rightarrow> bool" where
  "guest_holds digest ks g early Adv_Pending \<longleftrightarrow> early \<and> settled digest ks g"
| "guest_holds digest ks g early Adv_Derive \<longleftrightarrow> early \<and> settled digest ks g"
| "guest_holds digest ks g early (Adv_Session k c) \<longleftrightarrow> early \<and> settled digest ks g \<and>
     length k = 20 \<and> c = cut_at_zero (digest k) \<and> descends ks k"
| "guest_holds digest ks g early (Adv_Cipher c) \<longleftrightarrow> early \<and>
     c = cut_at_zero (digest (direct_session_key g)) \<and> descends ks (direct_session_key g)"
| "guest_holds digest ks g early Adv_Reported \<longleftrightarrow> early \<and> settled digest ks g"
| "guest_holds digest ks g early Adv_Mark \<longleftrightarrow> early \<and> settled digest ks g"
| "guest_holds digest ks g early Apply_Copy \<longleftrightarrow> early \<and> settled digest ks g"
| "guest_holds digest ks g early _ \<longleftrightarrow> True"

definition exclusive :: "key_system \<Rightarrow> bool" where
  "exclusive s \<longleftrightarrow> owner_inside (owner s) = (holder s = Some Owner_Thread) \<and>
     (\<forall>i. guest_inside (guests s i) = (holder s = Some (Guest_Thread i)))"

definition key_inv :: "(bytes \<Rightarrow> bytes) \<Rightarrow> key_system \<Rightarrow> bool" where
  "key_inv digest s \<longleftrightarrow> exclusive s \<and>
     length (direct_session_key (globals s)) = 20 \<and> length (direct_cipher_key (globals s)) = 16 \<and>
     (\<forall>k \<in> set (configured s). length k = 20) \<and>
     owner_holds digest (configured s) (globals s) (owner s) \<and>
     (\<forall>i. guest_holds digest (configured s) (globals s) (owner_early (owner s)) (guests s i)) \<and>
     (cipher_key_enabled (globals s) \<longrightarrow> owner_enabled (owner s) \<and>
        ((\<forall>i c. guests s i \<noteq> Adv_Cipher c) \<longrightarrow> settled digest (configured s) (globals s))) \<and>
     list_all (\<lambda>p. snd p = cut_at_zero (digest (fst p)) \<and> descends (configured s) (fst p)) (copied s)"

lemma guest_holds_outside: "\<not> guest_inside pc \<Longrightarrow> guest_holds digest ks g early pc"
  by (cases pc) auto

lemma guest_holds_early: "guest_holds digest ks g False pc \<Longrightarrow> guest_holds digest ks g True pc"
  by (cases pc) auto

lemma owner_enabled_early: "owner_enabled pc \<Longrightarrow> owner_early pc \<and> \<not> owner_inside pc"
  by (cases pc) auto

lemma owner_early_outside: "owner_early pc \<Longrightarrow> \<not> owner_inside pc \<and> owner_holds digest ks g pc = owner_holds digest ks g' pc"
  by (cases pc) auto

text \<open>What a step may do to a part of the state without touching the rest of the invariant.\<close>

lemma settled_cong:
  "direct_session_key g = direct_session_key g' \<Longrightarrow> direct_cipher_key g = direct_cipher_key g' \<Longrightarrow>
     settled digest ks g = settled digest ks g'"
  by (simp add: settled_def keys_match_def)

lemma holds_cong:
  assumes "direct_session_key g = direct_session_key g'" "direct_cipher_key g = direct_cipher_key g'"
  shows "owner_holds digest ks g pc = owner_holds digest ks g' pc"
    "guest_holds digest ks g early gpc = guest_holds digest ks g' early gpc"
  using assms settled_cong [OF assms] by (cases pc, simp_all) (cases gpc, simp_all)


text \<open>The flags are not part of it.\<close>

lemma flags_hold [simp]:
  "owner_holds digest ks (g\<lparr>cipher_key_enabled := b\<rparr>) pc = owner_holds digest ks g pc"
  "owner_holds digest ks (g\<lparr>cipher_key_reported := b\<rparr>) pc = owner_holds digest ks g pc"
  "owner_holds digest ks (g\<lparr>rollover_pending := b\<rparr>) pc = owner_holds digest ks g pc"
  "guest_holds digest ks (g\<lparr>cipher_key_enabled := b\<rparr>) early gpc = guest_holds digest ks g early gpc"
  "guest_holds digest ks (g\<lparr>cipher_key_reported := b\<rparr>) early gpc = guest_holds digest ks g early gpc"
  "guest_holds digest ks (g\<lparr>rollover_pending := b\<rparr>) early gpc = guest_holds digest ks g early gpc"
  "settled digest ks (g\<lparr>cipher_key_enabled := b\<rparr>) = settled digest ks g"
  "settled digest ks (g\<lparr>cipher_key_reported := b\<rparr>) = settled digest ks g"
  "settled digest ks (g\<lparr>rollover_pending := b\<rparr>) = settled digest ks g"
  by (rule holds_cong settled_cong; simp)+

lemmas step_defs = owner_at_def guest_at_def store_globals_def acquire_def

lemma descends_Cons: "descends ks k \<Longrightarrow> descends (k0 # ks) k"
  by (auto simp: descends_def)

lemma copies_Cons:
  "list_all (\<lambda>p. snd p = cut_at_zero (digest (fst p)) \<and> descends ks (fst p)) ps \<Longrightarrow>
     list_all (\<lambda>p. snd p = cut_at_zero (digest (fst p)) \<and> descends (k0 # ks) (fst p)) ps"
  by (auto simp: descends_Cons elim: list.pred_mono_strong)

lemma settled_Cons: "settled digest ks g \<Longrightarrow> settled digest (k0 # ks) g"
  by (auto simp: settled_def descends_Cons)

lemma guest_holds_Cons: "guest_holds digest ks g early pc \<Longrightarrow> guest_holds digest (k0 # ks) g early pc"
  by (cases pc) (simp_all add: settled_Cons descends_Cons)

lemma descends_self: "k \<in> set ks \<Longrightarrow> length k = 20 \<Longrightarrow> descends ks k"
  using rolled_0 [of k] unfolding descends_def by metis

lemma descends_rolled:
  assumes "descends ks k" "\<forall>k0 \<in> set ks. length k0 = 20" shows "descends ks (rolled k m)"
  using assms unfolding descends_def by (metis rolled_rolled)

text \<open>While the owner is inside, or past its writes, no guest has seen the keys enabled.\<close>

lemma owner_steps_inv:
  assumes inv: "key_inv digest s" and len: "\<And>bs. length (digest bs) = 16" and step: "owner_next (owner s) s = Some s'"
  shows "key_inv digest s'"
proof -
  have out: "\<not> guest_inside (guests s i)" if "holder s = None \<or> holder s = Some Owner_Thread" for i
    using inv that by (auto simp: key_inv_def exclusive_def)
  have free: "guest_holds digest ks g early (guests s i)" if "holder s = None \<or> holder s = Some Owner_Thread" for ks g early i
    using out [OF that] by (rule guest_holds_outside)
  have held: "owner_inside (owner s) \<Longrightarrow> holder s = Some Owner_Thread" using inv by (simp add: key_inv_def exclusive_def)
  show ?thesis
  proof (cases "owner s")
    case Owner_Idle
    with step show ?thesis by simp
  next
    case (Conf_Disable k c)
    with step inv show ?thesis by (clarsimp simp: key_inv_def exclusive_def step_defs)
  next
    case (Conf_Lock k c)
    with step inv free show ?thesis by (clarsimp simp: key_inv_def exclusive_def step_defs split: if_splits)
  next
    case (Conf_Session k c)
    with step inv free held show ?thesis
      by (clarsimp simp: key_inv_def exclusive_def step_defs copies_Cons descends_self)
  next
    case (Conf_Cipher c)
    with step inv free held len show ?thesis
      by (clarsimp simp: key_inv_def exclusive_def step_defs settled_def keys_match_def)
  next
    case Conf_Unlock
    with step inv free held show ?thesis by (clarsimp simp: key_inv_def exclusive_def step_defs)
  next
    case Conf_Reported
    with step inv show ?thesis by (clarsimp simp: key_inv_def exclusive_def step_defs)
  next
    case Conf_Pending
    with step inv show ?thesis by (clarsimp simp: key_inv_def exclusive_def step_defs)
  next
    case Conf_Enable
    with step inv show ?thesis by (clarsimp simp: key_inv_def exclusive_def step_defs guest_holds_early)
  next
    case Clear_Disable
    with step inv show ?thesis by (clarsimp simp: key_inv_def exclusive_def step_defs)
  next
    case Clear_Lock
    with step inv free show ?thesis by (clarsimp simp: key_inv_def exclusive_def step_defs split: if_splits)
  next
    case Clear_Session
    with step inv free held show ?thesis by (clarsimp simp: key_inv_def exclusive_def step_defs)
  next
    case Clear_Cipher
    with step inv free held show ?thesis by (clarsimp simp: key_inv_def exclusive_def step_defs)
  next
    case Clear_Reported
    with step inv free held show ?thesis by (clarsimp simp: key_inv_def exclusive_def step_defs)
  next
    case Clear_Pending
    with step inv free held show ?thesis by (clarsimp simp: key_inv_def exclusive_def step_defs)
  next
    case Clear_Unlock
    with step inv free held show ?thesis by (clarsimp simp: key_inv_def exclusive_def step_defs)
  qed
qed

text \<open>The four ways a guest moves: inside the critical section, out of it, into it, and outside of it.\<close>

lemma guest_move_inside:
  assumes inv: "key_inv digest s" and i: "guest_inside (guests s i)" and pc: "guest_inside pc"
    and g: "length (direct_session_key g) = 20" "length (direct_cipher_key g) = 16"
      "cipher_key_enabled g = cipher_key_enabled (globals s)"
      "owner_holds digest (configured s) g (owner s)" "guest_holds digest (configured s) g (owner_early (owner s)) pc"
    and e: "cipher_key_enabled g \<Longrightarrow> \<forall>c. pc \<noteq> Adv_Cipher c \<Longrightarrow> settled digest (configured s) g"
  shows "key_inv digest (guest_at i pc (s\<lparr>globals := g\<rparr>))"
proof -
  have h: "holder s = Some (Guest_Thread i)" and ex: "exclusive s" using inv i by (simp_all add: key_inv_def exclusive_def)
  then have others: "\<not> guest_inside (guests s j)" if "j \<noteq> i" for j using that by (simp add: exclusive_def)
  have "exclusive (guest_at i pc (s\<lparr>globals := g\<rparr>))" using ex h pc by (auto simp: exclusive_def guest_at_def)
  moreover have "guest_holds digest (configured s) g (owner_early (owner s)) (((guests s)(i := pc)) j)" for j
    using g(5) guest_holds_outside [OF others] by (cases "j = i") auto
  moreover have "settled digest (configured s) g" if "cipher_key_enabled g" "\<forall>j c. ((guests s)(i := pc)) j \<noteq> Adv_Cipher c"
    using e [OF that(1)] that(2) by (metis fun_upd_same)
  ultimately show ?thesis using inv g(1-4) by (simp add: key_inv_def guest_at_def)
qed

lemma guest_move_out:
  assumes inv: "key_inv digest s" and i: "guest_inside (guests s i)" "\<forall>c. guests s i \<noteq> Adv_Cipher c" and pc: "\<not> guest_inside pc"
  shows "key_inv digest (guest_at i pc (s\<lparr>holder := None\<rparr>))"
proof -
  have h: "holder s = Some (Guest_Thread i)" and ex: "exclusive s" using inv i by (simp_all add: key_inv_def exclusive_def)
  then have none: "\<not> guest_inside (((guests s)(i := pc)) j)" for j using pc by (cases "j = i") (simp_all add: exclusive_def)
  then have "exclusive (guest_at i pc (s\<lparr>holder := None\<rparr>))" using ex h by (simp add: exclusive_def guest_at_def)
  moreover have "guests s j \<noteq> Adv_Cipher c" for j c using i(2) none [of j] by (cases "j = i") auto
  ultimately show ?thesis using inv guest_holds_outside [OF none] by (simp add: key_inv_def guest_at_def)
qed

lemma guest_move_in:
  assumes inv: "key_inv digest s" and h: "holder s = None" and pc: "pc = Adv_Enabled \<or> pc = Apply_Recheck"
  shows "key_inv digest (guest_at i pc (s\<lparr>holder := Some (Guest_Thread i)\<rparr>))"
proof -
  have ex: "exclusive s" and none: "\<not> guest_inside (guests s j)" for j
    using inv h by (simp_all add: key_inv_def exclusive_def)
  have "exclusive (guest_at i pc (s\<lparr>holder := Some (Guest_Thread i)\<rparr>))" using ex h pc by (auto simp: exclusive_def guest_at_def)
  moreover have "guest_holds digest ks g early (((guests s)(i := pc)) j)" for ks g early j
    using guest_holds_outside [OF none [of j]] pc by (cases "j = i") auto
  moreover have "guests s j \<noteq> Adv_Cipher c" for j c using none [of j] by auto
  ultimately show ?thesis using inv by (simp add: key_inv_def guest_at_def)
qed

lemma guest_move_outside:
  assumes inv: "key_inv digest s" and i: "\<not> guest_inside (guests s i)" and pc: "\<not> guest_inside pc"
    and g: "g = globals s \<or> (\<exists>b. g = globals s\<lparr>cipher_key_reported := b\<rparr>) \<or> (\<exists>b. g = globals s\<lparr>rollover_pending := b\<rparr>)"
  shows "key_inv digest (guest_at i pc (s\<lparr>globals := g\<rparr>))"
proof -
  have "exclusive (guest_at i pc (s\<lparr>globals := g\<rparr>))" using inv i pc by (auto simp: key_inv_def exclusive_def guest_at_def)
  moreover have "guest_holds digest (configured s) (globals s) (owner_early (owner s)) (((guests s)(i := pc)) j)" for j
    using inv guest_holds_outside [OF pc] by (cases "j = i") (simp_all add: key_inv_def)
  moreover have "(\<forall>j c. ((guests s)(i := pc)) j \<noteq> Adv_Cipher c) = (\<forall>j c. guests s j \<noteq> Adv_Cipher c)"
  proof -
    have "guests s i \<noteq> Adv_Cipher c" "pc \<noteq> Adv_Cipher c" for c using i pc by auto
    then show ?thesis by (intro iff_allI) (simp add: fun_upd_apply)
  qed
  ultimately show ?thesis using inv g by (elim disjE exE) (simp_all add: key_inv_def guest_at_def)
qed

lemma guest_move_same:
  assumes "key_inv digest s" "guest_inside (guests s i)" "\<forall>c. guests s i \<noteq> Adv_Cipher c" "guest_inside pc"
    and "guest_holds digest (configured s) (globals s) (owner_early (owner s)) pc"
  shows "key_inv digest (guest_at i pc s)"
proof -
  have "guests s j \<noteq> Adv_Cipher c" for j c
    using assms(1-3) by (cases "j = i") (auto simp: key_inv_def exclusive_def)
  then have "cipher_key_enabled (globals s) \<Longrightarrow> settled digest (configured s) (globals s)"
    using assms(1) by (simp add: key_inv_def)
  with guest_move_inside [OF assms(1,2,4), of "globals s"] assms(1,5) show ?thesis by (simp add: key_inv_def)
qed

lemma guest_steps_inv:
  assumes inv: "key_inv digest s" and md5: "md5_service bc digest" and step: "guest_next bc i (guests s i) s = Some s'"
  shows "key_inv digest s'"
proof -
  let ?g = "globals s" and ?ks = "configured s" and ?e = "owner_early (owner s)"
  have holds: "guest_holds digest ?ks ?g ?e (guests s i)"
    and len: "length (direct_session_key ?g) = 20" "length (direct_cipher_key ?g) = 16"
    and ks: "\<forall>k \<in> set ?ks. length k = 20"
    and own: "owner_holds digest ?ks ?g (owner s)"
    using inv by (auto simp: key_inv_def)
  have settled: "settled digest ?ks ?g \<and> ?e" if "cipher_key_enabled ?g" "guest_inside (guests s i)" "\<forall>c. guests s i \<noteq> Adv_Cipher c"
  proof -
    have "guests s j \<noteq> Adv_Cipher c" for j c
      using inv that(2,3) by (cases "j = i") (auto simp: key_inv_def exclusive_def)
    with inv that(1) owner_enabled_early show ?thesis by (auto simp: key_inv_def)
  qed
  note same = guest_move_same [OF inv, of i]
  show ?thesis
  proof (cases "guests s i")
    case Guest_Idle
    with step show ?thesis by simp
  next
    case Adv_Lock
    with step have "holder s = None" "s' = guest_at i Adv_Enabled (s\<lparr>holder := Some (Guest_Thread i)\<rparr>)"
      by (auto simp: acquire_def split: if_splits)
    with guest_move_in [OF inv] show ?thesis by simp
  next
    case Adv_Enabled
    with step settled same show ?thesis by (auto split: if_splits)
  next
    case Adv_Pending
    with step holds same show ?thesis by (auto split: if_splits)
  next
    case Adv_Derive
    define k where "k = rolled (direct_session_key ?g) 1"
    obtain ok c where d: "DeriveMapCipherKey bc k (replicate 16 0) = (ok, c)"
      by (cases "DeriveMapCipherKey bc k (replicate 16 0)")
    have "c = cut_at_zero (digest k)" if ok
      using d that by (intro md5_service.DeriveMapCipherKey_success [OF md5, of "replicate 16 0"]) simp_all
    moreover have "descends ?ks k" "length k = 20"
      using holds ks len Adv_Derive by (auto simp: k_def settled_def intro: descends_rolled)
    moreover have "AdvanceMapSessionKey (direct_session_key ?g) = Some k"
      unfolding k_def by (rule AdvanceMapSessionKey_eq [OF len(1)])
    with step Adv_Derive d have "s' = guest_at i (if ok then Adv_Session k c else Adv_Unlock) s" by simp
    ultimately show ?thesis using same holds Adv_Derive by (cases ok) auto
  next
    case (Adv_Session k c)
    have "owner_holds digest ?ks (?g\<lparr>direct_session_key := k\<rparr>) (owner s)"
      using owner_early_outside [of "owner s" digest ?ks ?g "?g\<lparr>direct_session_key := k\<rparr>"] holds own Adv_Session by simp
    then have "key_inv digest (guest_at i (Adv_Cipher c) (s\<lparr>globals := ?g\<lparr>direct_session_key := k\<rparr>\<rparr>))"
      by (rule guest_move_inside [OF inv, rotated 5]) (use holds len Adv_Session in auto)
    with step Adv_Session show ?thesis by (simp add: store_globals_def)
  next
    case (Adv_Cipher c)
    have "owner_holds digest ?ks (?g\<lparr>direct_cipher_key := c\<rparr>) (owner s)"
      using owner_early_outside [of "owner s" digest ?ks ?g "?g\<lparr>direct_cipher_key := c\<rparr>"] holds own Adv_Cipher by simp
    moreover have "settled digest ?ks (?g\<lparr>direct_cipher_key := c\<rparr>)"
      using holds Adv_Cipher by (simp add: settled_def keys_match_def)
    moreover have "length c = 16" using holds Adv_Cipher md5_service.digest_length [OF md5] by simp
    ultimately have "key_inv digest (guest_at i Adv_Reported (s\<lparr>globals := ?g\<lparr>direct_cipher_key := c\<rparr>\<rparr>))"
      by (intro guest_move_inside [OF inv]) (use holds len Adv_Cipher in auto)
    with step Adv_Cipher show ?thesis by (simp add: store_globals_def)
  next
    case Adv_Reported
    have "key_inv digest (guest_at i Adv_Mark (s\<lparr>globals := ?g\<lparr>cipher_key_reported := False\<rparr>\<rparr>))"
      by (intro guest_move_inside [OF inv]) (use holds len own Adv_Reported in auto)
    with step Adv_Reported show ?thesis by (simp add: store_globals_def)
  next
    case Adv_Mark
    have "key_inv digest (guest_at i Adv_Unlock (s\<lparr>globals := ?g\<lparr>rollover_pending := True\<rparr>\<rparr>))"
      by (intro guest_move_inside [OF inv]) (use holds len own Adv_Mark in auto)
    with step Adv_Mark show ?thesis by (simp add: store_globals_def)
  next
    case Adv_Unlock
    with step guest_move_out [OF inv, of i Guest_Idle] show ?thesis by simp
  next
    case Apply_Enabled
    with step guest_move_outside [OF inv, of i _ ?g] show ?thesis by (auto split: if_splits)
  next
    case Apply_Lock
    with step have "holder s = None" "s' = guest_at i Apply_Recheck (s\<lparr>holder := Some (Guest_Thread i)\<rparr>)"
      by (auto simp: acquire_def split: if_splits)
    with guest_move_in [OF inv] show ?thesis by simp
  next
    case Apply_Recheck
    with step settled same show ?thesis by (auto split: if_splits)
  next
    case Apply_Copy
    let ?s = "guest_at i (Apply_Unlock True) s"
    have "key_inv digest ?s" using same Apply_Copy by simp
    moreover have "settled digest ?ks ?g" using holds Apply_Copy by simp
    moreover have "s' = ?s\<lparr>copied := (direct_session_key ?g, direct_cipher_key ?g) # copied ?s\<rparr>"
      using step Apply_Copy by (auto simp: guest_at_def)
    ultimately show ?thesis by (simp add: key_inv_def exclusive_def guest_at_def settled_def keys_match_def)
  next
    case (Apply_Unlock installed)
    with step guest_move_out [OF inv, of i Guest_Idle] guest_move_out [OF inv, of i Apply_Report] show ?thesis
      by (auto split: if_splits)
  next
    case Apply_Report
    with step guest_move_outside [OF inv, of i Guest_Idle "?g\<lparr>cipher_key_reported := True\<rparr>"] show ?thesis
      by (auto simp: store_globals_def)
  next
    case Login_Ack
    with step guest_move_outside [OF inv, of i Guest_Idle "?g\<lparr>rollover_pending := False\<rparr>"] show ?thesis
      by (auto simp: store_globals_def AcknowledgeWorldLogin_def)
  qed
qed


section \<open>The runs\<close>

lemma owner_starts_inv:
  assumes "key_inv digest s" "owner s = Owner_Idle"
    and "pc = Clear_Disable \<or> (\<exists>k c. pc = Conf_Disable k c \<and> length k = 20 \<and> c = cut_at_zero (digest k))"
  shows "key_inv digest (owner_at pc s)"
  using assms by (auto simp: key_inv_def exclusive_def owner_at_def)

lemma guest_starts_inv:
  assumes inv: "key_inv digest s" and i: "guests s i = Guest_Idle" and pc: "pc \<in> {Adv_Lock, Apply_Enabled, Login_Ack}"
  shows "key_inv digest (guest_at i pc s)"
  using guest_move_outside [OF inv, of i pc "globals s"] i pc by auto

lemma key_step_inv:
  assumes inv: "key_inv digest s" and len: "\<And>bs. length (digest bs) = 16" and step: "key_step digest s s'"
  shows "key_inv digest s'"
  using step
proof (cases rule: key_step.cases)
  case (Configure_Starts bc k c)
  then have "c = cut_at_zero (digest k)"
    by (intro md5_service.DeriveMapCipherKey_success [of bc digest "replicate 16 0"]) simp_all
  with Configure_Starts inv show ?thesis by (auto intro!: owner_starts_inv)
next
  case Clear_Starts
  with inv show ?thesis by (auto intro!: owner_starts_inv)
next
  case Owner_Steps
  with inv len show ?thesis by (blast intro: owner_steps_inv)
next
  case (Guest_Starts i pc)
  with inv show ?thesis by (auto intro!: guest_starts_inv)
next
  case (Guest_Steps bc i)
  with inv show ?thesis by (blast intro: guest_steps_inv)
qed

lemma initially_inv:
  assumes "map_globals_ok digest g" "\<not> cipher_key_enabled g"
  shows "key_inv digest \<lparr>globals = g, holder = None, owner = Owner_Idle, guests = (\<lambda>_. Guest_Idle), copied = [], configured = []\<rparr>"
  using assms by (simp add: key_inv_def exclusive_def map_globals_ok_def)

lemma key_run_inv:
  assumes "key_run digest s" "\<And>bs. length (digest bs) = 16" shows "key_inv digest s"
  using assms(1)
proof (induction rule: key_run.induct)
  case (Initially g)
  then show ?case by (rule initially_inv)
next
  case (Stepping s s')
  with assms(2) show ?case by (blast intro: key_step_inv)
qed

text \<open>Whoever holds the mutex moves on: no thread waits inside the critical section, so none waits forever.\<close>

lemma holder_never_waits:
  assumes inv: "key_inv digest s"
  shows "holder s = Some Owner_Thread \<Longrightarrow> \<exists>s'. owner_next (owner s) s = Some s'"
    and "holder s = Some (Guest_Thread i) \<Longrightarrow> \<exists>s'. guest_next bc i (guests s i) s = Some s'"
proof -
  assume "holder s = Some Owner_Thread"
  with inv have "owner_inside (owner s)" by (simp add: key_inv_def exclusive_def)
  then show "\<exists>s'. owner_next (owner s) s = Some s'" by (cases "owner s") simp_all
next
  assume "holder s = Some (Guest_Thread i)"
  with inv have "guest_inside (guests s i)" and "length (direct_session_key (globals s)) = 20"
    by (simp_all add: key_inv_def exclusive_def)
  then show "\<exists>s'. guest_next bc i (guests s i) s = Some s'"
    by (cases "guests s i") (simp_all add: AdvanceMapSessionKey_eq split: prod.splits)
qed


section \<open>Schedules\<close>

text \<open>A schedule names the thread that moves next and what it begins when it is idle.\<close>

datatype key_move = Configure bytes | Clear_Keys | Owner_Move | Begin nat guest_pc | Guest_Move nat

fun replay_move :: "bcrypt \<Rightarrow> key_move \<Rightarrow> key_system \<Rightarrow> key_system option" where
  "replay_move bc (Configure k) s =
     (if owner s = Owner_Idle \<and> length k = 20
      then case DeriveMapCipherKey bc k (replicate 16 0) of
             (ok, c) \<Rightarrow> if ok then Some (owner_at (Conf_Disable k c) s) else Some s
      else None)"
| "replay_move bc Clear_Keys s = (if owner s = Owner_Idle then Some (owner_at Clear_Disable s) else None)"
| "replay_move bc Owner_Move s = owner_next (owner s) s"
| "replay_move bc (Begin i pc) s =
     (if guests s i = Guest_Idle \<and> pc \<in> {Adv_Lock, Apply_Enabled, Login_Ack} then Some (guest_at i pc s) else None)"
| "replay_move bc (Guest_Move i) s = guest_next bc i (guests s i) s"

fun replay :: "bcrypt \<Rightarrow> key_move list \<Rightarrow> key_system \<Rightarrow> key_system option" where
  "replay bc [] s = Some s"
| "replay bc (m # ms) s = do { s' \<leftarrow> replay_move bc m s; replay bc ms s' }"

lemma replay_append: "replay bc (ms @ ns) s = do { s' \<leftarrow> replay bc ms s; replay bc ns s' }"
  by (induction ms arbitrary: s) (auto split: bind_split)

lemma replay_move_run:
  assumes "md5_service bc digest" "key_run digest s" "replay_move bc m s = Some s'" shows "key_run digest s'"
proof -
  have "key_step digest s s' \<or> s' = s"
  proof (cases m)
    case (Configure k)
    with assms(1,3) show ?thesis by (auto split: if_splits prod.splits intro: key_step.Configure_Starts)
  next
    case Clear_Keys
    with assms(3) show ?thesis by (auto split: if_splits intro: key_step.Clear_Starts)
  next
    case Owner_Move
    with assms(3) show ?thesis by (auto intro: key_step.Owner_Steps)
  next
    case (Begin i pc)
    with assms(3) show ?thesis by (auto split: if_splits intro: key_step.Guest_Starts)
  next
    case (Guest_Move i)
    with assms(1,3) show ?thesis by (auto intro: key_step.Guest_Steps)
  qed
  with assms(2) show ?thesis by (auto intro: key_run.Stepping)
qed

lemma replay_run:
  "md5_service bc digest \<Longrightarrow> key_run digest s \<Longrightarrow> replay bc ms s = Some s' \<Longrightarrow> key_run digest s'"
  by (induction ms arbitrary: s) (auto split: bind_splits intro: replay_move_run)

text \<open>A thread that nothing interleaves with does what the operations of the map handoff store do.\<close>

definition alone :: "map_globals \<Rightarrow> key_system" where
  "alone g = \<lparr>globals = g, holder = None, owner = Owner_Idle, guests = (\<lambda>_. Guest_Idle), copied = [], configured = []\<rparr>"

lemma alone_start: "map_globals_ok digest g \<Longrightarrow> \<not> cipher_key_enabled g \<Longrightarrow> key_run digest (alone g)"
  unfolding alone_def by (rule key_run.Initially)

lemma configure_alone:
  assumes "length k = 20" "length (direct_session_key g) = 20" "RevanaConfigureDirectMapSessionKey bc (Some k) g = (True, g')"
  shows "map_option globals (replay bc (Configure k # replicate 8 Owner_Move) (alone g)) = Some g'"
  using assms by (auto simp: RevanaConfigureDirectMapSessionKey_def Let_def alone_def step_defs numeral_eq_Suc
      split: prod.splits if_splits)

lemma clear_alone:
  "map_option globals (replay bc (Clear_Keys # replicate 7 Owner_Move) (alone g)) = Some (RevanaClearDirectMapCipherKey g)"
  by (simp add: RevanaClearDirectMapCipherKey_def ClearDirectMapKeyMaterial_def Let_def alone_def step_defs numeral_eq_Suc)

lemma advance_alone:
  assumes "AdvanceDirectMapSessionKey bc g = Some (r, advanced, g')" "length (direct_session_key g) = 20"
  shows "\<exists>n \<le> 9. map_option globals (replay bc (Begin i Adv_Lock # replicate n (Guest_Move i)) (alone g)) = Some g'"
proof -
  let ?n = "if \<not> cipher_key_enabled g then 3 else if rollover_pending g then 4
    else if advanced then 9 else 5"
  have "map_option globals (replay bc (Begin i Adv_Lock # replicate ?n (Guest_Move i)) (alone g)) = Some g'"
    using assms by (auto simp: AdvanceDirectMapSessionKey_def alone_def step_defs numeral_eq_Suc
        AdvanceMapSessionKey_eq split: prod.splits if_splits)
  then show ?thesis by (intro exI [of _ ?n]) simp
qed


section \<open>The keys are never torn\<close>

text \<open>
  C3: in every interleaving of the bridge's configuring and clearing of the map keys with any number of
  guest threads that advance, apply and acknowledge them, at most one thread is inside the critical section,
  and every cipher key copied to a guest is the one derived from the session key of that moment, which is
  a configured key advanced some number of times: never a half-written pair and never the cleared one.
\<close>

theorem concurrent_keys_never_torn:
  assumes "\<And>bs. length (digest bs) = 16" and "key_run digest s"
  shows "(\<forall>i. \<not> (owner_inside (owner s) \<and> guest_inside (guests s i))) \<and>
    (\<forall>i j. guest_inside (guests s i) \<and> guest_inside (guests s j) \<longrightarrow> i = j) \<and>
    (\<forall>k c. (k, c) \<in> set (copied s) \<longrightarrow>
       c = cut_at_zero (digest k) \<and> (\<exists>k0 n. k0 \<in> set (configured s) \<and> k = rolled k0 n))"
proof -
  have inv: "key_inv digest s" by (rule key_run_inv [OF assms(2,1)])
  then have "exclusive s" by (simp add: key_inv_def)
  moreover have "c = cut_at_zero (digest k) \<and> descends (configured s) k" if "(k, c) \<in> set (copied s)" for k c
    using inv that by (auto simp: key_inv_def list_all_iff)
  ultimately show ?thesis unfolding exclusive_def descends_def by fastforce
qed

theorem concurrent_keys_never_torn_witness:
  "\<exists>s k c. replay bcrypt_md5
      (Configure (replicate 20 7) # replicate 8 Owner_Move
        @ [Begin 1 Apply_Enabled, Guest_Move 1, Guest_Move 1, Guest_Move 1, Clear_Keys, Owner_Move, Guest_Move 1])
      (alone initial_map_globals) = Some s \<and>
     owner s = Clear_Lock \<and> guest_inside (guests s 1) \<and> \<not> guest_inside (guests s 0) \<and>
     copied s = [(k, c)] \<and> c = cut_at_zero (md5 k)"
proof -
  let ?c = "cut_at_zero (md5 (replicate 20 7))"
  let ?s = "replay bcrypt_md5
      (Configure (replicate 20 7) # replicate 8 Owner_Move
        @ [Begin 1 Apply_Enabled, Guest_Move 1, Guest_Move 1, Guest_Move 1, Clear_Keys, Owner_Move, Guest_Move 1])
      (alone initial_map_globals)"
  have "DeriveMapCipherKey bcrypt_md5 (replicate 20 7) (replicate 16 0) = (True, ?c)"
    by (rule rfc1321.DeriveMapCipherKey_available) simp
  then obtain s where s: "?s = Some s" and at: "owner s = Clear_Lock" "guests s 1 = Apply_Unlock True"
      "copied s = [(replicate 20 7, ?c)]"
    by (simp add: alone_def step_defs numeral_eq_Suc initial_map_globals_def)
  have "key_run md5 s"
    by (rule replay_run [OF rfc1321.md5_service_axioms alone_start [OF initial_map_globals_ok] s])
      (simp add: initial_map_globals_def)
  note safe = concurrent_keys_never_torn [OF rfc1321.digest_length this]
  have inside: "guest_inside (guests s 1)" using at by simp
  then have "\<not> guest_inside (guests s 0)" using safe by (metis zero_neq_one)
  moreover have "?c = cut_at_zero (md5 (replicate 20 7))" using safe at by simp
  ultimately show ?thesis using s at inside by (intro exI conjI) assumption+
qed

end
