(* ===== verification/Rounds.thy ===== *)
theory Rounds
  imports Revana_Prelude
begin

text \<open>
  A \<^verbatim>\<open>while (true)\<close> loop whose body may \<^verbatim>\<open>continue\<close> or \<^verbatim>\<open>return\<close>: the body maps a state to
  \<open>Inl\<close> of the next state or \<open>Inr\<close> of the result, and \<open>None\<close> is a body that accesses memory out of
  bounds.  A loop that never returns is \<open>None\<close>.  The three rules are those every such loop of the
  program is verified with: an invariant, a measure, and a set of states it never leaves.
\<close>

partial_function (option) rounds :: "('s \<Rightarrow> ('s + 'r) option) \<Rightarrow> 's \<Rightarrow> 'r option" where
  "rounds body s =
     do { x \<leftarrow> body s; (case x of Inl s' \<Rightarrow> rounds body s' | Inr r \<Rightarrow> Some r) }"

lemma rounds_return: "body s = Some (Inr r) \<Longrightarrow> rounds body s = Some r"
  by (simp add: rounds.simps)

lemma rounds_continue: "body s = Some (Inl s') \<Longrightarrow> rounds body s = rounds body s'"
  by (subst rounds.simps) simp

lemma rounds_invariant:
  fixes body :: "'s \<Rightarrow> ('s + 'r) option"
  assumes result: "rounds body s = Some r" and start: "I s"
    and continue: "\<And>s s'. I s \<Longrightarrow> body s = Some (Inl s') \<Longrightarrow> I s'"
    and return: "\<And>s r. I s \<Longrightarrow> body s = Some (Inr r) \<Longrightarrow> Q r"
  shows "Q r"
proof -
  have "(\<forall>s s'. I s \<longrightarrow> body s = Some (Inl s') \<longrightarrow> I s') \<longrightarrow>
        (\<forall>s r. I s \<longrightarrow> body s = Some (Inr r) \<longrightarrow> Q r) \<longrightarrow> I s \<longrightarrow> Q r"
  proof (rule rounds.raw_induct [OF _ result])
    fix loop :: "('s \<Rightarrow> ('s + 'r) option) \<Rightarrow> 's \<Rightarrow> 'r option" and body :: "'s \<Rightarrow> ('s + 'r) option" and s :: 's and y :: 'r
    assume IH: "\<And>body s y. loop body s = Some y \<Longrightarrow>
          (\<forall>s s'. I s \<longrightarrow> body s = Some (Inl s') \<longrightarrow> I s') \<longrightarrow>
          (\<forall>s r. I s \<longrightarrow> body s = Some (Inr r) \<longrightarrow> Q r) \<longrightarrow> I s \<longrightarrow> Q y"
      and step: "do { x \<leftarrow> body s; (case x of Inl s' \<Rightarrow> loop body s' | Inr r \<Rightarrow> Some r) } = Some y"
    from step consider s' where "body s = Some (Inl s')" "loop body s' = Some y" | "body s = Some (Inr y)"
      by (cases "body s"; cases "the (body s)") auto
    then show "(\<forall>s s'. I s \<longrightarrow> body s = Some (Inl s') \<longrightarrow> I s') \<longrightarrow>
          (\<forall>s r. I s \<longrightarrow> body s = Some (Inr r) \<longrightarrow> Q r) \<longrightarrow> I s \<longrightarrow> Q y"
      by cases (use IH in \<open>blast+\<close>)
  qed
  with start continue return show ?thesis by blast
qed

text \<open>The rule for a loop whose body relates states: what it does is reflexive and transitive.\<close>

lemma rounds_relation:
  assumes "rounds body s = Some r" "R s s"
    and "\<And>s1 s2. R s s1 \<Longrightarrow> body s1 = Some (Inl s2) \<Longrightarrow> R s s2"
    and "\<And>s1 r. R s s1 \<Longrightarrow> body s1 = Some (Inr r) \<Longrightarrow> Q r"
  shows "Q r"
  using assms by (rule rounds_invariant [where I = "R s"])

lemma rounds_returns:
  fixes m :: "'s \<Rightarrow> nat \<times> nat"
  assumes "I s"
    and continue: "\<And>s s'. I s \<Longrightarrow> body s = Some (Inl s') \<Longrightarrow>
          I s' \<and> (m s', m s) \<in> less_than <*lex*> less_than"
    and bounds: "\<And>s. I s \<Longrightarrow> body s \<noteq> None"
  shows "rounds body s \<noteq> None"
  using assms(1)
proof (induction "m s" arbitrary: s rule: wf_induct_rule [OF wf_lex_prod [OF wf_less_than wf_less_than]])
  case (1 s)
  from bounds [OF 1(2)] obtain x where x: "body s = Some x" by blast
  show ?case
  proof (cases x)
    case (Inl s')
    with x continue [OF 1(2)] 1(1) show ?thesis by (subst rounds.simps) auto
  next
    case (Inr r)
    with x show ?thesis by (subst rounds.simps) simp
  qed
qed

lemma rounds_never:
  assumes "I s" and "\<And>s. I s \<Longrightarrow> \<exists>s'. body s = Some (Inl s') \<and> I s'"
  shows "rounds body s = None"
proof (rule ccontr)
  assume "rounds body s \<noteq> None"
  then obtain r where "rounds body s = Some r" by blast
  from rounds_invariant [OF this, of I "\<lambda>_. False"] assms show False by force
qed

end
