(* ===== verification/Guest_Memory.thy ===== *)
theory Guest_Memory
  imports Revana_Prelude
begin

text \<open>
  The guest's memory and registers as the hooks of \<^verbatim>\<open>src/runtime/\<close> see them.  \<^verbatim>\<open>rex::memory::Memory\<close> is
  part of the ReXGlue SDK, which is not in the repository: address translation and the
  byte-swapping accesses are the parameter \<open>rex_memory\<close>; what the hooks rely on is the locale
  \<open>guest_memory\<close>.  Host memory itself is a function from host addresses to bytes, so the raw byte
  pointers of the source (\<^verbatim>\<open>packet[offset]\<close>) are plain accesses.
\<close>

type_synonym host_memory = "nat \<Rightarrow> u8"

record rex_memory =
  TranslateVirtual :: "u32 \<Rightarrow> nat"
  load_and_swap16 :: "host_memory \<Rightarrow> nat \<Rightarrow> u16"
  load_and_swap32 :: "host_memory \<Rightarrow> nat \<Rightarrow> u32"
  load_and_swap64 :: "host_memory \<Rightarrow> nat \<Rightarrow> u64"
  store_and_swap16 :: "host_memory \<Rightarrow> nat \<Rightarrow> u16 \<Rightarrow> host_memory"
  store_and_swap32 :: "host_memory \<Rightarrow> nat \<Rightarrow> u32 \<Rightarrow> host_memory"
  store_and_swap64 :: "host_memory \<Rightarrow> nat \<Rightarrow> u64 \<Rightarrow> host_memory"

definition host_range :: "host_memory \<Rightarrow> nat \<Rightarrow> nat \<Rightarrow> bytes" where
  "host_range h p n = map (\<lambda>i. h (p + i)) [0..<n]"

definition host_copy :: "host_memory \<Rightarrow> nat \<Rightarrow> bytes \<Rightarrow> host_memory" where
  "host_copy h p bs = (\<lambda>q. if p \<le> q \<and> q < p + length bs then bs ! (q - p) else h q)"

lemma length_host_range [simp]: "length (host_range h p n) = n"
  by (simp add: host_range_def)

lemma nth_host_range [simp]: "i < n \<Longrightarrow> host_range h p n ! i = h (p + i)"
  by (simp add: host_range_def)

lemma host_range_copy [simp]: "host_range (host_copy h p bs) p (length bs) = bs"
  by (rule nth_equalityI) (auto simp: host_copy_def)

lemma host_copy_frame: "q < p \<or> p + length bs \<le> q \<Longrightarrow> host_copy h p bs q = h q"
  by (auto simp: host_copy_def)

lemma host_range_copy_disjoint:
  "q + n \<le> p \<or> p + length bs \<le> q \<Longrightarrow> host_range (host_copy h p bs) q n = host_range h q n"
  by (auto simp: host_range_def host_copy_def)

section \<open>The contract of the SDK accesses\<close>

locale swapped_field =
  fixes load :: "host_memory \<Rightarrow> nat \<Rightarrow> 'v"
    and store :: "host_memory \<Rightarrow> nat \<Rightarrow> 'v \<Rightarrow> host_memory"
    and width :: nat
  assumes load_store: "load (store h p v) p = v"
    and store_frame: "q < p \<or> p + width \<le> q \<Longrightarrow> store h p v q = h q"
    and load_local: "(\<And>i. i < width \<Longrightarrow> h (p + i) = h' (p + i)) \<Longrightarrow> load h p = load h' p"
begin

lemma load_store_disjoint:
  "q + width \<le> p \<or> p + width \<le> q \<Longrightarrow> load (store h p v) q = load h q"
  by (intro load_local store_frame) auto

lemma load_frame:
  "(\<And>i. i < width \<Longrightarrow> q + i < p \<or> p + length bs \<le> q + i) \<Longrightarrow> load (host_copy h p bs) q = load h q"
  by (intro load_local host_copy_frame) auto

end

locale guest_memory =
  w16: swapped_field "load_and_swap16 rm" "store_and_swap16 rm" 2 +
  w32: swapped_field "load_and_swap32 rm" "store_and_swap32 rm" 4 +
  w64: swapped_field "load_and_swap64 rm" "store_and_swap64 rm" 8
  for rm :: rex_memory +
  assumes translate_offset:
    "unat a + n < 2 ^ 32 \<Longrightarrow> TranslateVirtual rm (a + of_nat n) = TranslateVirtual rm a + n"
begin

lemma translate_disjoint:
  "unat a + m < 2 ^ 32 \<Longrightarrow> n \<le> m \<Longrightarrow>
     TranslateVirtual rm (a + of_nat n) + (m - n) = TranslateVirtual rm (a + of_nat m)"
  by (simp add: translate_offset)

end

section \<open>A flat big-endian memory\<close>

text \<open>
  The Xbox 360 is big-endian: on a little-endian host a swapped access reads the most significant
  byte first.  This memory, mapped one to one, is the instance of the witnesses.
\<close>

definition be_value :: "bytes \<Rightarrow> nat" where
  "be_value bs = foldl (\<lambda>v b. 256 * v + unat b) 0 bs"

definition be_load :: "nat \<Rightarrow> host_memory \<Rightarrow> nat \<Rightarrow> 'w::len word" where
  "be_load w h p = of_nat (be_value (host_range h p w))"

definition be_bytes :: "nat \<Rightarrow> 'w::len word \<Rightarrow> bytes" where
  "be_bytes w v = map (\<lambda>i. ucast (drop_bit (8 * (w - 1 - i)) v)) [0..<w]"

definition be_store :: "nat \<Rightarrow> host_memory \<Rightarrow> nat \<Rightarrow> 'w::len word \<Rightarrow> host_memory" where
  "be_store w h p v = host_copy h p (be_bytes w v)"

definition flat_memory :: rex_memory where
  "flat_memory =
     \<lparr>TranslateVirtual = unat,
      load_and_swap16 = be_load 2, load_and_swap32 = be_load 4, load_and_swap64 = be_load 8,
      store_and_swap16 = be_store 2, store_and_swap32 = be_store 4, store_and_swap64 = be_store 8\<rparr>"

lemma length_be_bytes [simp]: "length (be_bytes w v) = w"
  by (simp add: be_bytes_def)

lemma foldl_be_value:
  "foldl (\<lambda>v b. 256 * v + unat b) v bs = v * 256 ^ length bs + be_value bs"
proof (induction bs arbitrary: v)
  case Nil
  then show ?case by (simp add: be_value_def)
next
  case (Cons b bs)
  have "be_value (b # bs) = foldl (\<lambda>v b. 256 * v + unat b) (unat b) bs" by (simp add: be_value_def)
  then show ?case
    using Cons.IH [of "256 * v + unat b"] Cons.IH [of "unat b"] by (simp add: algebra_simps)
qed

lemma be_value_Cons: "be_value (b # bs) = unat b * 256 ^ length bs + be_value bs"
  using foldl_be_value [of "unat b" bs] by (simp add: be_value_def)

lemma be_value_digits:
  "be_value (map (\<lambda>i. of_nat (x div 256 ^ (w - 1 - i))) [0..<w]) = x mod 256 ^ w"
proof (induction w)
  case (Suc w)
  have "map (\<lambda>i. of_nat (x div 256 ^ (Suc w - 1 - i)) :: u8) [0..<Suc w]
      = of_nat (x div 256 ^ w) # map (\<lambda>i. of_nat (x div 256 ^ (w - 1 - i))) [0..<w]"
    by (simp only: upt_conv_Cons map_Suc_upt [symmetric] list.map map_map) simp
  then have "be_value (map (\<lambda>i. of_nat (x div 256 ^ (Suc w - 1 - i))) [0..<Suc w])
      = (x div 256 ^ w mod 256) * 256 ^ w + x mod 256 ^ w"
    using Suc.IH by (simp add: be_value_Cons unat_of_nat)
  also have "\<dots> = x mod 256 ^ Suc w"
    using mod_mult2_eq [of x "256 ^ w" 256] by (simp add: mult.commute)
  finally show ?case .
qed (simp add: be_value_def)

lemma be_load_store:
  fixes v :: "'w::len word"
  assumes "LENGTH('w) = 8 * w"
  shows "be_load w (be_store w h p v) p = v"
proof -
  have "ucast (drop_bit (8 * k) v) = (of_nat (unat v div 256 ^ k) :: u8)" for k
  proof -
    have "ucast (drop_bit (8 * k) v) = (of_nat (unat (drop_bit (8 * k) v)) :: u8)" by (rule of_nat_unat [symmetric])
    also have "unat (drop_bit (8 * k) v) = unat v div 256 ^ k"
      unfolding unat_drop_bit_eq by (simp add: drop_bit_eq_div power_mult)
    finally show ?thesis .
  qed
  then have "be_bytes w v = map (\<lambda>i. of_nat (unat v div 256 ^ (w - 1 - i))) [0..<w]"
    by (simp add: be_bytes_def)
  then have "be_value (be_bytes w v) = unat v mod 256 ^ w" by (simp only: be_value_digits)
  also have "\<dots> = unat v"
    using unsigned_less [of v, where 'a = nat] assms by (simp add: power_mult)
  finally have "be_value (be_bytes w v) = unat v" .
  moreover have "host_range (be_store w h p v) p w = be_bytes w v"
    using host_range_copy [of h p "be_bytes w v"] by (simp add: be_store_def)
  ultimately show ?thesis by (simp add: be_load_def)
qed

lemma be_store_frame: "q < p \<or> p + w \<le> q \<Longrightarrow> be_store w h p v q = h q"
  by (simp add: be_store_def host_copy_frame)

lemma be_load_local: "(\<And>i. i < w \<Longrightarrow> h (p + i) = h' (p + i)) \<Longrightarrow> be_load w h p = be_load w h' p"
proof -
  assume "\<And>i. i < w \<Longrightarrow> h (p + i) = h' (p + i)"
  then have "host_range h p w = host_range h' p w" by (intro nth_equalityI) auto
  then show ?thesis by (simp add: be_load_def)
qed

interpretation flat: guest_memory flat_memory
proof unfold_locales
  fix a :: u32 and n :: nat
  assume "unat a + n < 2 ^ 32"
  then show "TranslateVirtual flat_memory (a + of_nat n) = TranslateVirtual flat_memory a + n"
    by (simp add: flat_memory_def unat_word_ariths unat_of_nat)
qed (simp_all add: flat_memory_def be_load_store be_store_frame, (rule be_load_local, assumption)+)

end
