(* ===== verification/Runtime_State.thy ===== *)
theory Runtime_State
  imports Guest_Memory Map_Store
begin

text \<open>
  The state the runtime hooks share: the file-level globals of \<^verbatim>\<open>src/runtime/revana_hooks.cpp\<close>, the
  PowerPC context of the guest thread a hook interrupts, host memory, and the lines written to
  the log.  The trace gate \<^verbatim>\<open>GuestTraceHooksEnabled\<close> and its switch are here too.
\<close>

section \<open>The guest thread\<close>

text \<open>
  A register of \<^verbatim>\<open>PPCContext\<close> is a 64-bit union: \<^verbatim>\<open>.u32\<close> and \<^verbatim>\<open>.s32\<close> are its low word, a write to \<^verbatim>\<open>.s64\<close>
  sign-extends, a write to \<^verbatim>\<open>.u32\<close> keeps the high word.
\<close>

record ppc_context =
  gpr :: "nat \<Rightarrow> u64"
  lr :: u64
  ctr :: u64

definition r_u32 :: "ppc_context \<Rightarrow> nat \<Rightarrow> u32" where
  "r_u32 ctx n = ucast (gpr ctx n)"

definition r_s32 :: "ppc_context \<Rightarrow> nat \<Rightarrow> int" where
  "r_s32 ctx n = sint (ucast (gpr ctx n) :: u32)"

definition set_r_s64 :: "ppc_context \<Rightarrow> nat \<Rightarrow> int \<Rightarrow> ppc_context" where
  "set_r_s64 ctx n v = ctx\<lparr>gpr := (gpr ctx)(n := word_of_int v)\<rparr>"

definition set_r_u64 :: "ppc_context \<Rightarrow> nat \<Rightarrow> u64 \<Rightarrow> ppc_context" where
  "set_r_u64 ctx n v = ctx\<lparr>gpr := (gpr ctx)(n := v)\<rparr>"

definition set_r_u32 :: "ppc_context \<Rightarrow> nat \<Rightarrow> u32 \<Rightarrow> ppc_context" where
  "set_r_u32 ctx n v =
     ctx\<lparr>gpr := (gpr ctx)(n := push_bit 32 (drop_bit 32 (gpr ctx n)) OR ucast v)\<rparr>"

lemma r_u32_set_r_u64 [simp]: "r_u32 (set_r_u64 ctx n v) n = ucast v"
  by (simp add: r_u32_def set_r_u64_def)

lemma r_s32_set_r_s64: "- (2 ^ 31) \<le> v \<Longrightarrow> v < 2 ^ 31 \<Longrightarrow> r_s32 (set_r_s64 ctx n v) n = v"
proof -
  assume "- (2 ^ 31) \<le> v" "v < 2 ^ 31"
  have "(ucast (word_of_int v :: u64) :: u32) = word_of_int v"
    by (rule bit_word_eqI) (simp add: bit_simps)
  then have "r_s32 (set_r_s64 ctx n v) n = sint (word_of_int v :: u32)"
    by (simp add: r_s32_def set_r_s64_def)
  also have "\<dots> = signed_take_bit 31 v" by (simp add: signed_of_int)
  also have "\<dots> = v" using \<open>- (2 ^ 31) \<le> v\<close> \<open>v < 2 ^ 31\<close> by (simp add: signed_take_bit_int_eq_self)
  finally show ?thesis .
qed

lemma r_u32_set_r_u32 [simp]: "r_u32 (set_r_u32 ctx n v) n = v"
  by (rule bit_word_eqI) (auto simp: r_u32_def set_r_u32_def bit_simps dest: bit_imp_le_length)

section \<open>The log\<close>

datatype log_level = Info | Warn | Error
datatype log_arg = U u64 | S int | T string
datatype log_line = Log log_level string "log_arg list"

abbreviation W :: "u32 \<Rightarrow> log_arg" where "W v \<equiv> U (ucast v)"

section \<open>The globals\<close>

record trace_globals =
  hooks_enabled :: bool
  hook_count :: u32

record counter_globals =
  world_status_set_count :: u32
  world_error_trace_count :: u32
  world_dispatch_trace_count :: u32
  world_fatal_trace_count :: u32
  object_build_trace_count :: u32
  world_entity_update_trace_count :: u32

record observed_globals =
  config_handshake_state :: u64
  config_service_state :: u64
  config_parser_state :: u64
  config_transfer_state :: u64
  post_selection_service_open_result :: u64
  post_selection_service_poll_result :: u64
  post_selection_association_open_result :: u64
  post_selection_association_poll_result :: u64
  phase6_readiness_flags :: u32
  zone_load_sequence_state :: u64
  gameplay_frame_return :: u64
  world_network_state :: u64
  world_receive_decode_result :: u32
  world_packet_dequeue_result :: u32
  world_send_target :: u64
  resource_load_id :: u32
  resource_load_caller :: u32

record lobby_globals =
  lobby_controller_ready :: bool
  lobby_controller_object :: u32
  next_login_character_id :: u32
  login_character_id_restored :: bool
  character_list_ready :: bool

record resolver_globals =
  registration_stub_enabled :: bool
  registration_thunk :: u32
  resolver_enabled :: bool
  resolver_ipv4 :: u32
  resolver_begin_thunk :: u32
  resolver_poll_thunk :: u32
  resolver_cancel_thunk :: u32
  resolver_begin_original :: u32
  resolver_poll_original :: u32
  resolver_cancel_original :: u32

record bootstrap_globals =
  bootstrap_enabled :: bool
  request_sent :: bool
  response_ready :: bool
  bootstrap_failed :: bool
  bootstrap_port :: u16
  bootstrap_packet :: bytes

record runtime =
  host :: host_memory
  logged :: "log_line list"
  trace :: trace_globals
  counters :: counter_globals
  observed :: observed_globals
  lobby :: lobby_globals
  map_handoff :: map_globals
  resolver :: resolver_globals
  bootstrap :: bootstrap_globals

text \<open>The three environment switches, read once when the module is loaded.\<close>

record hook_flags =
  kSynthesizePostSelectionDescriptors :: bool
  kSkipPostSelectionServiceFailure :: bool
  kRestoreWorldLoginCharacterId :: bool

definition write_log :: "log_level \<Rightarrow> string \<Rightarrow> log_arg list \<Rightarrow> runtime \<Rightarrow> runtime" where
  "write_log level fmt args st = st\<lparr>logged := logged st @ [Log level fmt args]\<rparr>"

text \<open>The format of a line is never rewritten; its arguments and the state are.\<close>

lemma write_log_cong [cong]:
  "as = as' \<Longrightarrow> st = st' \<Longrightarrow> write_log level fmt as st = write_log level fmt as' st'"
  by simp

lemma Log_cong [cong]: "as = as' \<Longrightarrow> Log level fmt as = Log level fmt as'"
  by simp

abbreviation REXLOG_INFO :: "string \<Rightarrow> log_arg list \<Rightarrow> runtime \<Rightarrow> runtime" where
  "REXLOG_INFO \<equiv> write_log Info"

abbreviation REXLOG_WARN :: "string \<Rightarrow> log_arg list \<Rightarrow> runtime \<Rightarrow> runtime" where
  "REXLOG_WARN \<equiv> write_log Warn"

abbreviation REXLOG_ERROR :: "string \<Rightarrow> log_arg list \<Rightarrow> runtime \<Rightarrow> runtime" where
  "REXLOG_ERROR \<equiv> write_log Error"

section \<open>The trace gate\<close>

abbreviation (input) kMaximumGuestTraceHooks :: u32 where "kMaximumGuestTraceHooks \<equiv> 256"

definition GuestTraceHooksEnabled :: "runtime \<Rightarrow> bool \<times> runtime" where
  "GuestTraceHooksEnabled st =
     (if \<not> hooks_enabled (trace st) then (False, st)
      else
        let index = hook_count (trace st);
            st = st\<lparr>trace := (trace st)\<lparr>hook_count := index + 1\<rparr>\<rparr>
        in if index < kMaximumGuestTraceHooks then (True, st)
           else if index = kMaximumGuestTraceHooks
           then (False, REXLOG_INFO ''Xbox guest mid-asm trace reached its event limit'' [] st)
           else (False, st))"

lemma GuestTraceHooksEnabled_frame:
  assumes "GuestTraceHooksEnabled st = (t, st')"
  shows "host st' = host st" "bootstrap st' = bootstrap st" "lobby st' = lobby st"
    "map_handoff st' = map_handoff st" "resolver st' = resolver st"
  using assms by (auto simp: GuestTraceHooksEnabled_def Let_def write_log_def split: if_splits)

definition RevanaSetGuestTraceHooksEnabled :: "bool \<Rightarrow> runtime \<Rightarrow> runtime" where
  "RevanaSetGuestTraceHooksEnabled enabled st =
     (let st =
        (if enabled
         then st\<lparr>trace := (trace st)\<lparr>hook_count := 0\<rparr>,
                 lobby := (lobby st)\<lparr>lobby_controller_ready := False, lobby_controller_object := 0\<rparr>,
                 counters := (counters st)\<lparr>world_status_set_count := 0, world_error_trace_count := 0,
                   world_dispatch_trace_count := 0, world_fatal_trace_count := 0,
                   object_build_trace_count := 0, world_entity_update_trace_count := 0\<rparr>,
                 observed := (observed st)\<lparr>world_send_target := 0xFFFFFFFFFFFFFFFF\<rparr>\<rparr>
         else st);
          st = st\<lparr>trace := (trace st)\<lparr>hooks_enabled := enabled\<rparr>\<rparr>
      in if enabled then REXLOG_INFO ''Xbox guest mid-asm trace enabled'' [] st else st)"

definition RevanaGuestLobbyControllerReady :: "runtime \<Rightarrow> bool" where
  "RevanaGuestLobbyControllerReady st = lobby_controller_ready (lobby st)"

definition RevanaGuestLobbyControllerObject :: "runtime \<Rightarrow> u32" where
  "RevanaGuestLobbyControllerObject st = lobby_controller_object (lobby st)"

end
