(* ===== verification/World_Receive.thy ===== *)
theory World_Receive
  imports Runtime_State
begin

text \<open>
  The world connection hooks of \<^verbatim>\<open>src/runtime/revana_hooks.cpp\<close> that drive the map key:
  \<^verbatim>\<open>RevanaTraceWorldReceiveDecodeResult\<close>, which walks the packets of a decoded datagram, and
  \<^verbatim>\<open>RevanaApplyDirectMapCipherKey\<close>, which hands the cipher key to the guest.

  The walk reads guest bytes under the control of the server; its theorems say that it ends,
  that it stays inside the datagram, and that its effect on the key is the lifecycle of the
  packets it splits the datagram into.
\<close>

section \<open>The packet walk\<close>

definition packet_header16 :: "u8 \<Rightarrow> u8 \<Rightarrow> u16" where
  "packet_header16 b0 b1 = ucast b0 OR ucast (push_bit 8 (ucast b1 :: u32))"

definition packet_id :: "u8 \<Rightarrow> u8 \<Rightarrow> u16" where
  "packet_id b0 b1 = packet_header16 b0 b1 AND 0x1FF"

definition packet_size :: "u8 \<Rightarrow> u32" where
  "packet_size b1 = 2 * (ucast b1 AND 0xFE)"

text \<open>Local \<^verbatim>\<open>ReadLe16\<close> and \<^verbatim>\<open>ReadLe32\<close> of the hooks, on a raw pointer.\<close>

definition ReadLe16_ptr :: "host_memory \<Rightarrow> nat \<Rightarrow> u16" where
  "ReadLe16_ptr h p = ucast (h p) OR push_bit 8 (ucast (h (p + 1)))"

definition ReadLe32_ptr :: "host_memory \<Rightarrow> nat \<Rightarrow> u32" where
  "ReadLe32_ptr h p =
     ucast (h p) OR push_bit 8 (ucast (h (p + 1))) OR push_bit 16 (ucast (h (p + 2)))
       OR push_bit 24 (ucast (h (p + 3)))"

text \<open>\<^verbatim>\<open>g_world_entity_update_trace_count.fetch_add(1) < 2048\<close>.\<close>

definition entity_update_budget :: "runtime \<Rightarrow> bool \<times> runtime" where
  "entity_update_budget st =
     (let n = world_entity_update_trace_count (counters st)
      in (n < 2048, st\<lparr>counters := (counters st)\<lparr>world_entity_update_trace_count := n + 1\<rparr>\<rparr>))"

definition trace_player_update :: "nat \<Rightarrow> u32 \<Rightarrow> runtime \<Rightarrow> runtime" where
  "trace_player_update packet pkt_size st =
     (case entity_update_budget st of
        (False, st) \<Rightarrow> st
      | (True, st) \<Rightarrow>
          let h = host st in
          REXLOG_INFO
            ''Xbox world player update: sequence={} entity=0x{:08X} targid=0x{:04X} mask=0x{:02X} size={}''
            [U (ucast (ReadLe16_ptr h (packet + 2))), W (ReadLe32_ptr h (packet + 4)),
             U (ucast (ReadLe16_ptr h (packet + 8))), U (ucast (h (packet + 10))), W pkt_size] st)"

definition trace_entity_update :: "nat \<Rightarrow> u32 \<Rightarrow> runtime \<Rightarrow> runtime" where
  "trace_entity_update packet pkt_size st =
     (case entity_update_budget st of
        (False, st) \<Rightarrow> st
      | (True, st) \<Rightarrow>
          let h = host st in
          REXLOG_INFO
            ''Xbox world entity update: sequence={} entity=0x{:08X} targid=0x{:04X} mask=0x{:02X} size={} model16={} model32=0x{:08X} look={:02X} {:02X} {:02X} {:02X} {:02X} {:02X} {:02X} {:02X} {:02X} {:02X} {:02X} {:02X} {:02X} {:02X} {:02X} {:02X}''
            ([U (ucast (ReadLe16_ptr h (packet + 2))), W (ReadLe32_ptr h (packet + 4)),
              U (ucast (ReadLe16_ptr h (packet + 8))), U (ucast (h (packet + 10))), W pkt_size,
              U (ucast (ReadLe16_ptr h (packet + 48))), W (ReadLe32_ptr h (packet + 48)),
              U (ucast (h (packet + 48))), U (ucast (h (packet + 49))),
              U (ucast (h (packet + 50))), U (ucast (h (packet + 51)))]
             @ map (\<lambda>i. U (if of_nat i < pkt_size then ucast (h (packet + i)) else 0)) [52..<64]) st)"

text \<open>The body of the loop for one packet, after its header was accepted.\<close>

definition handle_world_packet ::
  "bcrypt \<Rightarrow> bool \<Rightarrow> bool \<Rightarrow> nat \<Rightarrow> u32 \<Rightarrow> u16 \<Rightarrow> u32 \<Rightarrow> runtime \<Rightarrow> runtime option" where
  "handle_world_packet bc trace_enabled direct_key_enabled plaintext offset ident pkt_size st =
     do {
       let st = (if trace_enabled
                 then REXLOG_INFO ''Xbox world receive packet: offset={} id=0x{:03X} size={}''
                        [W offset, U (ucast ident), W pkt_size] st
                 else st);
       st \<leftarrow>
         (if ident = 0x00B \<and> direct_key_enabled
          then do {
            (ok, advanced, g) \<leftarrow> AdvanceDirectMapSessionKey bc (map_handoff st);
            let st = st\<lparr>map_handoff := g\<rparr>;
            Some (if \<not> ok then REXLOG_ERROR ''Xbox direct map session key rollover failed'' [] st
                  else if advanced
                  then REXLOG_INFO ''Xbox direct map session key advanced for zone handoff'' [] st
                  else st)
          }
          else Some st);
       let st =
         (if ident = 0x00A \<and> 32 \<le> pkt_size
          then let st = st\<lparr>map_handoff := AcknowledgeWorldLogin (map_handoff st)\<rparr>
               in if trace_enabled
                  then REXLOG_INFO ''Xbox world login response: hpp={} status={}''
                         [U (ucast (host st (plaintext + unat (offset + 30)))),
                          U (ucast (host st (plaintext + unat (offset + 31))))] st
                  else st
          else st);
       let st = (if trace_enabled \<and> ident = 0x00D \<and> 12 \<le> pkt_size
                 then trace_player_update (plaintext + unat offset) pkt_size st else st);
       let st = (if trace_enabled \<and> ident = 0x00E \<and> 52 \<le> pkt_size
                 then trace_entity_update (plaintext + unat offset) pkt_size st else st);
       Some st
     }"

text \<open>
  The loop; \<open>left\<close> is \<open>64\<close> minus \<^verbatim>\<open>packet_count\<close>, and the provider of the call made for a packet is
  indexed by it.
\<close>

fun decode_loop ::
  "(nat \<Rightarrow> bcrypt) \<Rightarrow> bool \<Rightarrow> bool \<Rightarrow> nat \<Rightarrow> u32 \<Rightarrow> nat \<Rightarrow> u32 \<Rightarrow> runtime \<Rightarrow> runtime option" where
  "decode_loop bcs trace_enabled direct_key_enabled plaintext decoded 0 offset st = Some st"
| "decode_loop bcs trace_enabled direct_key_enabled plaintext decoded (Suc left) offset st =
     (if \<not> offset + 4 \<le> decoded then Some st
      else
        let b0 = host st (plaintext + unat offset);
            b1 = host st (plaintext + unat (offset + 1));
            ident = packet_id b0 b1;
            pkt_size = packet_size b1
        in if pkt_size < 4 \<or> decoded < offset + pkt_size
           then Some (if trace_enabled
                      then REXLOG_INFO
                             ''Xbox world receive packet parse stopped: offset={} id=0x{:03X} size={} total={}''
                             [W offset, U (ucast ident), W pkt_size, W decoded] st
                      else st)
           else do {
             st \<leftarrow> handle_world_packet (bcs left) trace_enabled direct_key_enabled plaintext
                     offset ident pkt_size st;
             decode_loop bcs trace_enabled direct_key_enabled plaintext decoded left
               (offset + pkt_size) st
           })"

definition RevanaTraceWorldReceiveDecodeResult ::
  "rex_memory \<Rightarrow> (nat \<Rightarrow> bcrypt) \<Rightarrow> ppc_context \<Rightarrow> runtime \<Rightarrow> runtime option" where
  "RevanaTraceWorldReceiveDecodeResult rm bcs ctx st =
     (let trace_enabled = hooks_enabled (trace st);
          direct_key_enabled = cipher_key_enabled (map_handoff st)
      in if \<not> trace_enabled \<and> \<not> direct_key_enabled then Some st
         else
           let repeated_result = (world_receive_decode_result (observed st) = r_u32 ctx 3);
               st = st\<lparr>observed := (observed st)\<lparr>world_receive_decode_result := r_u32 ctx 3\<rparr>\<rparr>;
               datagram_size =
                 (if r_u32 ctx 30 = 0 then 0
                  else load_and_swap32 rm (host st) (TranslateVirtual rm (r_u32 ctx 30)));
               st = (if trace_enabled \<and> \<not> repeated_result
                     then REXLOG_INFO ''Xbox world receive decode result={} datagram_size={}''
                            [S (r_s32 ctx 3), W datagram_size] st
                     else st)
           in if r_s32 ctx 3 \<le> 0 \<or> 10000 < r_u32 ctx 3 then Some st
              else decode_loop bcs trace_enabled direct_key_enabled
                     (TranslateVirtual rm (r_u32 ctx 1 + 864)) (r_u32 ctx 3) 64 28 st)"

section \<open>Handing the cipher key to the guest\<close>

definition RevanaApplyDirectMapCipherKey ::
  "rex_memory \<Rightarrow> ppc_context \<Rightarrow> runtime \<Rightarrow> runtime" where
  "RevanaApplyDirectMapCipherKey rm ctx st =
     (if \<not> cipher_key_enabled (map_handoff st) then st
      else if r_u32 ctx 7 = 0 then st
      else
        let destination = TranslateVirtual rm (r_u32 ctx 7);
            st = st\<lparr>host := host_copy (host st) destination (direct_cipher_key (map_handoff st))\<rparr>;
            reported = cipher_key_reported (map_handoff st);
            st = st\<lparr>map_handoff := (map_handoff st)\<lparr>cipher_key_reported := True\<rparr>\<rparr>
        in if \<not> reported
           then REXLOG_INFO ''Xbox direct map cipher key installed at guest handoff'' [] st
           else st)"

section \<open>The specification: splitting a datagram\<close>

text \<open>
  The packets of a decoded datagram \<open>d\<close> from a given offset, as (offset, id, size).
\<close>

fun split_packets :: "bytes \<Rightarrow> nat \<Rightarrow> nat \<Rightarrow> (nat \<times> u16 \<times> nat) list" where
  "split_packets d 0 offset = []"
| "split_packets d (Suc left) offset =
     (if length d < offset + 4 then []
      else
        let n = 4 * (unat (d ! (offset + 1)) div 2)
        in if n < 4 \<or> length d < offset + n then []
           else (offset, packet_id (d ! offset) (d ! (offset + 1)), n)
                  # split_packets d left (offset + n))"

definition packet_events :: "bcrypt \<Rightarrow> bool \<Rightarrow> u16 \<Rightarrow> nat \<Rightarrow> map_event list" where
  "packet_events bc direct ident n =
     (if ident = 0x00B \<and> direct then [ZoneHandoff bc] else []) @
     (if ident = 0x00A \<and> 32 \<le> n then [WorldLogin] else [])"

fun datagram_events ::
  "(nat \<Rightarrow> bcrypt) \<Rightarrow> bool \<Rightarrow> nat \<Rightarrow> (nat \<times> u16 \<times> nat) list \<Rightarrow> map_event list" where
  "datagram_events bcs direct left [] = []"
| "datagram_events bcs direct left ((offset, ident, n) # ps) =
     packet_events (bcs (left - 1)) direct ident n @ datagram_events bcs direct (left - 1) ps"

lemma and_254_nat: "n < 256 \<Longrightarrow> n AND 254 = 2 * (n div 2)" for n :: nat
proof -
  assume "n < 256"
  have m: "(127 :: nat) = mask 7" by (simp add: mask_eq_exp_minus_1)
  have "n AND 254 = 2 * (n div 2 AND 127)" by (subst and_nat_rec) simp
  also have "n div 2 AND 127 = (n div 2) mod 128"
    unfolding m by (simp only: take_bit_eq_mask [symmetric] take_bit_eq_mod) simp
  also have "\<dots> = n div 2" using \<open>n < 256\<close> by simp
  finally show ?thesis .
qed

lemma unat_u8_less: "unat (b :: u8) < 256"
  using unsigned_less [of b, where 'a = nat] by simp

lemma unat_packet_size: "unat (packet_size b) = 4 * (unat b div 2)"
proof -
  have "unat (ucast b :: u32) = unat b" using unat_u8_less [of b] by (simp add: unsigned_ucast_eq take_bit_eq_mod)
  then have "unat (ucast b AND 0xFE :: u32) = unat b AND 254" by (simp add: unsigned_and_eq)
  then have "unat (ucast b AND 0xFE :: u32) = 2 * (unat b div 2)" using and_254_nat [OF unat_u8_less] by simp
  then show ?thesis using unat_u8_less [of b] by (simp add: packet_size_def unat_word_ariths)
qed

text \<open>Every packet found lies inside the datagram, after the previous one, and is 4 to 508 bytes.\<close>

lemma split_packets_bounds:
  "(off, ident, n) \<in> set (split_packets d left offset) \<Longrightarrow>
     offset \<le> off \<and> 4 \<le> n \<and> n \<le> 508 \<and> 4 dvd n \<and> off + n \<le> length d"
proof (induction d left offset rule: split_packets.induct)
  case (2 d left offset)
  have "unat (d ! (offset + 1)) div 2 \<le> 127" using unat_u8_less [of "d ! (offset + 1)"] by simp
  then show ?case using 2 by (fastforce simp: Let_def split: if_splits)
qed simp

lemma length_split_packets: "length (split_packets d left offset) \<le> left"
  by (induction d left offset rule: split_packets.induct) (auto simp: Let_def)

section \<open>The walk refines the specification\<close>

lemma write_log_frame [simp]:
  "host (write_log l f as st) = host st" "map_handoff (write_log l f as st) = map_handoff st"
  "trace (write_log l f as st) = trace st" "lobby (write_log l f as st) = lobby st"
  "counters (write_log l f as st) = counters st" "observed (write_log l f as st) = observed st"
  "bootstrap (write_log l f as st) = bootstrap st" "resolver (write_log l f as st) = resolver st"
  by (simp_all add: write_log_def)

lemma trace_update_frame [simp]:
  "host (trace_player_update p n st) = host st" "map_handoff (trace_player_update p n st) = map_handoff st"
  "host (trace_entity_update p n st) = host st" "map_handoff (trace_entity_update p n st) = map_handoff st"
  by (simp_all add: trace_player_update_def trace_entity_update_def entity_update_budget_def Let_def
      split: prod.split bool.split)

lemma handle_world_packet_effect:
  "map_option (\<lambda>s. (host s, map_handoff s)) (handle_world_packet bc tr direct p off ident n st) =
     map_option (Pair (host st)) (map_run (packet_events bc direct ident (unat n)) (map_handoff st))"
proof (cases "ident = 0x00B \<and> direct")
  case True
  then show ?thesis
    by (cases "AdvanceDirectMapSessionKey bc (map_handoff st)")
       (auto simp: handle_world_packet_def packet_events_def Let_def split: prod.split)
next
  case False
  then show ?thesis
    by (auto simp: handle_world_packet_def packet_events_def Let_def word_le_nat_alt)
qed

lemma map_run_append: "map_run (es @ fs) g = do { g \<leftarrow> map_run es g; map_run fs g }"
  by (induction es arbitrary: g) (auto split: bind_splits)

lemma unat_add_small: "unat a + unat b < 2 ^ 32 \<Longrightarrow> unat (a + b) = unat a + unat b" for a b :: u32
  by (simp add: unat_word_ariths)

lemma decode_loop_step:
  fixes offset decoded :: u32 and p :: nat and st :: runtime
  assumes "unat decoded \<le> 10000" "unat offset \<le> 10028"
  defines "d \<equiv> host_range (host st) p (unat decoded)"
  shows "decode_loop bcs tr direct p decoded (Suc left) offset st =
    (if unat decoded < unat offset + 4 then Some st
     else
       let ident = packet_id (d ! unat offset) (d ! (unat offset + 1));
           sz = packet_size (d ! (unat offset + 1)) in
       if unat sz < 4 \<or> unat decoded < unat offset + unat sz
       then Some (if tr
                  then REXLOG_INFO
                         ''Xbox world receive packet parse stopped: offset={} id=0x{:03X} size={} total={}''
                         [W offset, U (ucast ident), W sz, W decoded] st
                  else st)
       else do {
         st \<leftarrow> handle_world_packet (bcs left) tr direct p offset ident sz st;
         decode_loop bcs tr direct p decoded left (offset + sz) st
       })"
proof -
  have o4: "unat (offset + 4) = unat offset + 4" using assms by (simp add: unat_add_small)
  have o1: "unat (offset + 1) = unat offset + 1" using assms by (simp add: unat_add_small)
  have sz: "unat (packet_size b) \<le> 508" for b
    using unat_u8_less [of b] by (simp add: unat_packet_size)
  have osz: "unat (offset + packet_size b) = unat offset + unat (packet_size b)" for b
    using assms sz [of b] by (simp add: unat_add_small)
  show ?thesis
  proof (cases "unat decoded < unat offset + 4")
    case True
    then show ?thesis by (simp add: word_le_nat_alt o4)
  next
    case False
    then have "host st (p + unat offset) = d ! unat offset"
      "host st (p + unat (offset + 1)) = d ! (unat offset + 1)"
      by (simp_all add: d_def o1)
    with False show ?thesis
      by (simp add: word_le_nat_alt word_less_nat_alt o4 osz Let_def)
  qed
qed

lemma decode_loop_refines:
  assumes "unat decoded \<le> 10000" "unat offset \<le> 10028"
  shows "map_option (\<lambda>s. (host s, map_handoff s)) (decode_loop bcs tr direct p decoded left offset st) =
    map_option (Pair (host st))
      (map_run (datagram_events bcs direct left
         (split_packets (host_range (host st) p (unat decoded)) left (unat offset))) (map_handoff st))"
  using assms
proof (induction left arbitrary: offset st)
  case (Suc left)
  define d where "d = host_range (host st) p (unat decoded)"
  define ident where "ident = packet_id (d ! unat offset) (d ! (unat offset + 1))"
  define sz where "sz = packet_size (d ! (unat offset + 1))"
  have len: "length d = unat decoded" by (simp add: d_def)
  have n: "unat sz = 4 * (unat (d ! (unat offset + 1)) div 2)" by (simp add: sz_def unat_packet_size)
  have step: "decode_loop bcs tr direct p decoded (Suc left) offset st =
    (if unat decoded < unat offset + 4 then Some st
     else if unat sz < 4 \<or> unat decoded < unat offset + unat sz
       then Some (if tr
                  then REXLOG_INFO
                         ''Xbox world receive packet parse stopped: offset={} id=0x{:03X} size={} total={}''
                         [W offset, U (ucast ident), W sz, W decoded] st
                  else st)
       else do {
         st \<leftarrow> handle_world_packet (bcs left) tr direct p offset ident sz st;
         decode_loop bcs tr direct p decoded left (offset + sz) st
       })"
    unfolding ident_def sz_def d_def decode_loop_step [OF Suc.prems] by (simp only: Let_def)
  show ?case
  proof (cases "unat decoded < unat offset + 4 \<or> unat sz < 4 \<or> unat decoded < unat offset + unat sz")
    case True
    then have none: "split_packets d (Suc left) (unat offset) = []"
      using n len by (auto simp: Let_def)
    show ?thesis using True
      unfolding step d_def [symmetric] none by auto
  next
    case False
    then have off: "unat (offset + sz) = unat offset + unat sz" "unat (offset + sz) \<le> 10028"
      using Suc.prems by (simp_all add: unat_add_small)
    have split: "split_packets d (Suc left) (unat offset) =
        (unat offset, ident, unat sz) # split_packets d left (unat offset + unat sz)"
      using False n len by (simp add: ident_def Let_def)
    have eff: "map_option (\<lambda>s. (host s, map_handoff s)) (handle_world_packet (bcs left) tr direct p offset ident sz st) =
        map_option (Pair (host st)) (map_run (packet_events (bcs left) direct ident (unat sz)) (map_handoff st))"
      by (rule handle_world_packet_effect)
    show ?thesis
    proof (cases "handle_world_packet (bcs left) tr direct p offset ident sz st")
      case None
      then have "map_run (packet_events (bcs left) direct ident (unat sz)) (map_handoff st) = None"
        using eff by simp
      then show ?thesis using False None split
        unfolding step d_def [symmetric] by (simp add: map_run_append)
    next
      case (Some st')
      then have h: "host st' = host st"
        and m: "map_run (packet_events (bcs left) direct ident (unat sz)) (map_handoff st) = Some (map_handoff st')"
        using eff [symmetric] by auto
      have "map_option (\<lambda>s. (host s, map_handoff s)) (decode_loop bcs tr direct p decoded left (offset + sz) st') =
        map_option (Pair (host st))
          (map_run (datagram_events bcs direct left (split_packets d left (unat offset + unat sz))) (map_handoff st'))"
        using Suc.IH [of "offset + sz" st'] Suc.prems off h by (simp add: d_def)
      then show ?thesis using False Some split m
        unfolding step d_def [symmetric] by (simp add: map_run_append)
    qed
  qed
qed simp

section \<open>The walk stays inside the datagram\<close>

text \<open>
  Replacing every host byte outside the packet (outside the datagram) by anything else changes
  neither the key nor the log: no byte outside is read.
\<close>

abbreviation with_host :: "host_memory \<Rightarrow> runtime \<Rightarrow> runtime" where
  "with_host h st \<equiv> st\<lparr>host := h\<rparr>"

lemma write_log_with_host: "write_log l f as (with_host h st) = with_host h (write_log l f as st)"
  by (simp add: write_log_def)

lemma ReadLe_ptr_local:
  assumes "\<And>i. i < n \<Longrightarrow> h (p + i) = h' (p + i)"
  shows "k + 2 \<le> n \<Longrightarrow> ReadLe16_ptr h (p + k) = ReadLe16_ptr h' (p + k)"
    and "k + 4 \<le> n \<Longrightarrow> ReadLe32_ptr h (p + k) = ReadLe32_ptr h' (p + k)"
  using assms [of k] assms [of "k + 1"] assms [of "k + 2"] assms [of "k + 3"]
  by (simp_all only: ReadLe16_ptr_def ReadLe32_ptr_def add.assoc)

lemma trace_player_update_local:
  assumes "\<And>i. i < 12 \<Longrightarrow> h (p + i) = host st (p + i)"
  shows "trace_player_update p n (with_host h st) = with_host h (trace_player_update p n st)"
proof -
  have "ReadLe16_ptr h (p + 2) = ReadLe16_ptr (host st) (p + 2)"
    "ReadLe16_ptr h (p + 8) = ReadLe16_ptr (host st) (p + 8)"
    "ReadLe32_ptr h (p + 4) = ReadLe32_ptr (host st) (p + 4)"
    by (rule ReadLe_ptr_local [of 12], rule assms, assumption, simp)+
  moreover have "h (p + 10) = host st (p + 10)" by (rule assms) simp
  ultimately show ?thesis
    by (simp add: trace_player_update_def entity_update_budget_def Let_def write_log_def split: bool.split)
qed

lemma trace_entity_update_local:
  assumes "\<And>i. i < 52 \<or> i < unat n \<Longrightarrow> h (p + i) = host st (p + i)"
  shows "trace_entity_update p n (with_host h st) = with_host h (trace_entity_update p n st)"
proof -
  have in52: "h (p + i) = host st (p + i)" if "i < 52" for i using assms that by blast
  have look: "map (\<lambda>i. U (if of_nat i < n then ucast (h (p + i)) else 0)) [52..<64] =
      map (\<lambda>i. U (if of_nat i < n then ucast (host st (p + i)) else 0)) [52..<64]"
    using assms by (auto simp: word_less_nat_alt unat_of_nat)
  have "ReadLe16_ptr h (p + 2) = ReadLe16_ptr (host st) (p + 2)"
    "ReadLe16_ptr h (p + 8) = ReadLe16_ptr (host st) (p + 8)"
    "ReadLe16_ptr h (p + 48) = ReadLe16_ptr (host st) (p + 48)"
    "ReadLe32_ptr h (p + 4) = ReadLe32_ptr (host st) (p + 4)"
    "ReadLe32_ptr h (p + 48) = ReadLe32_ptr (host st) (p + 48)"
    by (rule ReadLe_ptr_local [of 52], rule in52, assumption, simp)+
  moreover have "h (p + 10) = host st (p + 10)" "h (p + 48) = host st (p + 48)"
    "h (p + 49) = host st (p + 49)" "h (p + 50) = host st (p + 50)" "h (p + 51) = host st (p + 51)"
    by (rule in52, simp)+
  ultimately show ?thesis using look
    by (simp add: trace_entity_update_def entity_update_budget_def Let_def write_log_def
        split: bool.split del: upt_rec_numeral)
qed

lemma handle_world_packet_local:
  assumes agree: "\<And>i. i < unat n \<Longrightarrow> h (p + unat off + i) = host st (p + unat off + i)"
    and small: "unat off \<le> 10028"
  shows "handle_world_packet bc tr direct p off ident n (with_host h st) =
           map_option (with_host h) (handle_world_packet bc tr direct p off ident n st)"
proof -
  have o: "unat (off + 30) = unat off + 30" "unat (off + 31) = unat off + 31"
    using small by (simp_all add: unat_add_small)
  have login: "h (p + unat (off + 30)) = host st (p + unat (off + 30))"
    "h (p + unat (off + 31)) = host st (p + unat (off + 31))" if "32 \<le> n"
  proof -
    have "32 \<le> unat n" using that by (simp add: word_le_nat_alt)
    then show "h (p + unat (off + 30)) = host st (p + unat (off + 30))"
      "h (p + unat (off + 31)) = host st (p + unat (off + 31))"
      using agree [of 30] agree [of 31] by (simp_all add: o add.assoc)
  qed
  have player: "trace_player_update (p + unat off) n (with_host h s) =
      with_host h (trace_player_update (p + unat off) n s)" if "12 \<le> n" "host s = host st" for s
    using that agree by (intro trace_player_update_local) (simp add: word_le_nat_alt)
  have entity: "trace_entity_update (p + unat off) n (with_host h s) =
      with_host h (trace_entity_update (p + unat off) n s)" if "52 \<le> n" "host s = host st" for s
    using that agree by (intro trace_entity_update_local) (auto simp: word_le_nat_alt)
  consider "ident = 0x00B" | "ident = 0x00A" | "ident = 0x00D" | "ident = 0x00E"
    | "ident \<noteq> 0x00B" "ident \<noteq> 0x00A" "ident \<noteq> 0x00D" "ident \<noteq> 0x00E" by blast
  then show ?thesis
  proof cases
    case 1
    then show ?thesis
      by (cases "AdvanceDirectMapSessionKey bc (map_handoff st)")
         (auto simp: handle_world_packet_def Let_def write_log_def split: prod.split)
  next
    case 2
    then show ?thesis
      by (cases "32 \<le> n"; cases tr)
         (simp_all add: handle_world_packet_def Let_def login write_log_def)
  next
    case 3
    then show ?thesis
      using player by (auto simp: handle_world_packet_def Let_def write_log_with_host)
  next
    case 4
    then show ?thesis
      using entity by (auto simp: handle_world_packet_def Let_def write_log_with_host)
  next
    case 5
    then show ?thesis by (auto simp: handle_world_packet_def Let_def write_log_with_host)
  qed
qed

lemma handle_world_packet_host:
  "handle_world_packet bc tr direct p off ident n st = Some st' \<Longrightarrow> host st' = host st"
  using handle_world_packet_effect [of bc tr direct p off ident n st, symmetric] by auto

lemma decode_loop_step_of:
  assumes "d = host_range (host st) p (unat decoded)" "unat decoded \<le> 10000" "unat offset \<le> 10028"
    and "ident = packet_id (d ! unat offset) (d ! (unat offset + 1))"
    and "sz = packet_size (d ! (unat offset + 1))"
  shows "decode_loop bcs tr direct p decoded (Suc left) offset st =
    (if unat decoded < unat offset + 4 then Some st
     else if unat sz < 4 \<or> unat decoded < unat offset + unat sz
       then Some (if tr
                  then REXLOG_INFO
                         ''Xbox world receive packet parse stopped: offset={} id=0x{:03X} size={} total={}''
                         [W offset, U (ucast ident), W sz, W decoded] st
                  else st)
       else do {
         st \<leftarrow> handle_world_packet (bcs left) tr direct p offset ident sz st;
         decode_loop bcs tr direct p decoded left (offset + sz) st
       })"
  unfolding assms(1,4,5) decode_loop_step [OF assms(2,3)] by (simp only: Let_def)

lemma decode_loop_local:
  assumes "\<And>i. i < unat decoded \<Longrightarrow> h (p + i) = host st (p + i)"
    and "unat decoded \<le> 10000" "unat offset \<le> 10028"
  shows "decode_loop bcs tr direct p decoded left offset (with_host h st) =
           map_option (with_host h) (decode_loop bcs tr direct p decoded left offset st)"
  using assms
proof (induction left arbitrary: offset st)
  case (Suc left)
  obtain d where d: "d = host_range (host st) p (unat decoded)" by blast
  have d': "d = host_range (host (with_host h st)) p (unat decoded)"
    unfolding d using Suc.prems(1) by (intro nth_equalityI) auto
  obtain ident sz where hd: "ident = packet_id (d ! unat offset) (d ! (unat offset + 1))"
    "sz = packet_size (d ! (unat offset + 1))" by blast
  note steps = decode_loop_step_of [OF d Suc.prems(2,3) hd, of bcs tr direct left]
    decode_loop_step_of [OF d' Suc.prems(2,3) hd, of bcs tr direct left]
  show ?case
  proof (cases "unat decoded < unat offset + 4 \<or> unat sz < 4 \<or> unat decoded < unat offset + unat sz")
    case True
    then show ?thesis unfolding steps by (auto simp: write_log_with_host)
  next
    case False
    have hw: "handle_world_packet (bcs left) tr direct p offset ident sz (with_host h st) =
        map_option (with_host h) (handle_world_packet (bcs left) tr direct p offset ident sz st)"
      using False Suc.prems by (intro handle_world_packet_local) (auto simp: add.assoc)
    have off: "unat (offset + sz) \<le> 10028" using False Suc.prems by (simp add: unat_add_small)
    show ?thesis
    proof (cases "handle_world_packet (bcs left) tr direct p offset ident sz st")
      case None
      then show ?thesis using False hw unfolding steps by simp
    next
      case (Some st')
      then have "decode_loop bcs tr direct p decoded left (offset + sz) (with_host h st') =
          map_option (with_host h) (decode_loop bcs tr direct p decoded left (offset + sz) st')"
        using handle_world_packet_host [OF Some] Suc.prems off by (intro Suc.IH) auto
      then show ?thesis using False hw Some unfolding steps by simp
    qed
  qed
qed simp

section \<open>Properties of the receive hook\<close>

abbreviation (input) decoded_datagram :: "rex_memory \<Rightarrow> ppc_context \<Rightarrow> runtime \<Rightarrow> bytes" where
  "decoded_datagram rm ctx st \<equiv>
     host_range (host st) (TranslateVirtual rm (r_u32 ctx 1 + 864)) (unat (r_u32 ctx 3))"

definition datagram_decoded :: "ppc_context \<Rightarrow> bool" where
  "datagram_decoded ctx \<longleftrightarrow> 0 < r_s32 ctx 3 \<and> unat (r_u32 ctx 3) \<le> 10000"

lemma receive_hook_loop:
  assumes "hooks_enabled (trace st) \<or> cipher_key_enabled (map_handoff st)" "datagram_decoded ctx"
  shows "\<exists>st'. RevanaTraceWorldReceiveDecodeResult rm bcs ctx st =
      decode_loop bcs (hooks_enabled (trace st)) (cipher_key_enabled (map_handoff st))
        (TranslateVirtual rm (r_u32 ctx 1 + 864)) (r_u32 ctx 3) 64 28 st' \<and>
      host st' = host st \<and> map_handoff st' = map_handoff st"
  using assms
  by (auto simp: RevanaTraceWorldReceiveDecodeResult_def datagram_decoded_def Let_def word_less_nat_alt)

lemma receive_hook_effect:
  assumes "hooks_enabled (trace st) \<or> cipher_key_enabled (map_handoff st)" "datagram_decoded ctx"
  shows "map_option (\<lambda>s. (host s, map_handoff s)) (RevanaTraceWorldReceiveDecodeResult rm bcs ctx st) =
    map_option (Pair (host st))
      (map_run (datagram_events bcs (cipher_key_enabled (map_handoff st)) 64
         (split_packets (decoded_datagram rm ctx st) 64 28)) (map_handoff st))"
proof -
  obtain st' where "RevanaTraceWorldReceiveDecodeResult rm bcs ctx st =
      decode_loop bcs (hooks_enabled (trace st)) (cipher_key_enabled (map_handoff st))
        (TranslateVirtual rm (r_u32 ctx 1 + 864)) (r_u32 ctx 3) 64 28 st'"
    "host st' = host st" "map_handoff st' = map_handoff st"
    using receive_hook_loop [OF assms] by blast
  then show ?thesis
    using decode_loop_refines [of "r_u32 ctx 3" 28] assms(2) by (simp add: datagram_decoded_def)
qed

lemma map_run_length:
  "length (direct_session_key g) = 20 \<Longrightarrow> \<exists>g'. map_run es g = Some g'"
proof (induction es arbitrary: g)
  case (Cons e es)
  have "\<exists>g1. map_step e g = Some g1 \<and> length (direct_session_key g1) = 20"
    using Cons.prems
    by (cases e) (auto simp: AcknowledgeWorldLogin_def AdvanceDirectMapSessionKey_def
        AdvanceMapSessionKey_eq split: prod.splits)
  with Cons.IH show ?case by auto
qed simp

lemma receive_hook_idle:
  assumes "\<not> (hooks_enabled (trace st) \<or> cipher_key_enabled (map_handoff st)) \<or> \<not> datagram_decoded ctx"
  shows "\<exists>st'. RevanaTraceWorldReceiveDecodeResult rm bcs ctx st = Some st' \<and>
    host st' = host st \<and> map_handoff st' = map_handoff st"
  using assms
  by (auto simp: RevanaTraceWorldReceiveDecodeResult_def datagram_decoded_def Let_def word_less_nat_alt)

text \<open>
  C2: for every register contents and every decoded datagram the receive hook returns (with the
  20-byte session key the store always has), leaves guest memory alone, and moves the map key
  exactly through the zone handoffs and world logins of the packets the datagram splits into: at
  most 64 packets, in order, each of 4 to 508 bytes inside the datagram.
\<close>

theorem receive_hook_refines_lifecycle:
  assumes "length (direct_session_key (map_handoff st)) = 20"
  shows "\<exists>st' ps. RevanaTraceWorldReceiveDecodeResult rm bcs ctx st = Some st' \<and> host st' = host st \<and>
    ps = (if (hooks_enabled (trace st) \<or> cipher_key_enabled (map_handoff st)) \<and> datagram_decoded ctx
          then split_packets (decoded_datagram rm ctx st) 64 28 else []) \<and>
    map_run (datagram_events bcs (cipher_key_enabled (map_handoff st)) 64 ps) (map_handoff st)
      = Some (map_handoff st') \<and>
    length ps \<le> 64 \<and>
    (\<forall>(off, ident, n) \<in> set ps. 28 \<le> off \<and> 4 \<le> n \<and> n \<le> 508 \<and> off + n \<le> unat (r_u32 ctx 3))"
proof (cases "(hooks_enabled (trace st) \<or> cipher_key_enabled (map_handoff st)) \<and> datagram_decoded ctx")
  case True
  define ps where "ps = split_packets (decoded_datagram rm ctx st) 64 28"
  obtain g' where g': "map_run (datagram_events bcs (cipher_key_enabled (map_handoff st)) 64 ps)
      (map_handoff st) = Some g'"
    using map_run_length [OF assms] by blast
  obtain st' where "RevanaTraceWorldReceiveDecodeResult rm bcs ctx st = Some st'"
    "host st' = host st" "map_handoff st' = g'"
    using receive_hook_effect [of st ctx rm bcs] True g' by (auto simp: ps_def)
  moreover have "length ps \<le> 64" unfolding ps_def by (rule length_split_packets)
  moreover have "\<forall>(off, ident, n) \<in> set ps. 28 \<le> off \<and> 4 \<le> n \<and> n \<le> 508 \<and> off + n \<le> unat (r_u32 ctx 3)"
    unfolding ps_def using split_packets_bounds by fastforce
  ultimately show ?thesis using True g' by (auto simp: ps_def)
next
  case False
  then show ?thesis using receive_hook_idle [of st ctx rm bcs] by auto
qed

text \<open>A datagram that holds one zone handoff packet (id 0x00B, 4 bytes) behind its 28-byte header.\<close>

definition sample_host :: host_memory where
  "sample_host = (\<lambda>a. 0)(892 := 0x0B, 893 := 0x02)"

definition sample_context :: ppc_context where
  "sample_context = \<lparr>gpr = (\<lambda>_. 0)(3 := 32), lr = 0, ctr = 0\<rparr>"

definition sample_runtime :: "host_memory \<Rightarrow> map_globals \<Rightarrow> runtime" where
  "sample_runtime h g =
     \<lparr>host = h, logged = [],
      trace = \<lparr>hooks_enabled = False, hook_count = 0\<rparr>,
      counters = \<lparr>world_status_set_count = 0, world_error_trace_count = 0, world_dispatch_trace_count = 0,
        world_fatal_trace_count = 0, object_build_trace_count = 0, world_entity_update_trace_count = 0\<rparr>,
      observed = \<lparr>config_handshake_state = 0, config_service_state = 0, config_parser_state = 0,
        config_transfer_state = 0, post_selection_service_open_result = 0,
        post_selection_service_poll_result = 0, post_selection_association_open_result = 0,
        post_selection_association_poll_result = 0, phase6_readiness_flags = 0,
        zone_load_sequence_state = 0, gameplay_frame_return = 0, world_network_state = 0,
        world_receive_decode_result = 0, world_packet_dequeue_result = 0, world_send_target = 0,
        resource_load_id = 0, resource_load_caller = 0\<rparr>,
      lobby = \<lparr>lobby_controller_ready = False, lobby_controller_object = 0, next_login_character_id = 0,
        login_character_id_restored = False, character_list_ready = False\<rparr>,
      map_handoff = g,
      resolver = \<lparr>registration_stub_enabled = False, registration_thunk = 0, resolver_enabled = False,
        resolver_ipv4 = 0, resolver_begin_thunk = 0, resolver_poll_thunk = 0, resolver_cancel_thunk = 0,
        resolver_begin_original = 0, resolver_poll_original = 0, resolver_cancel_original = 0\<rparr>,
      bootstrap = \<lparr>bootstrap_enabled = False, request_sent = False, response_ready = False,
        bootstrap_failed = False, bootstrap_port = 0, bootstrap_packet = []\<rparr>\<rparr>"

definition sample_keys :: map_globals where
  "sample_keys = initial_map_globals\<lparr>cipher_key_enabled := True\<rparr>"

lemma split_packets_unfold:
  "split_packets d left offset =
     (if left = 0 \<or> length d < offset + 4 then []
      else
        let n = 4 * (unat (d ! (offset + 1)) div 2)
        in if n < 4 \<or> length d < offset + n then []
           else (offset, packet_id (d ! offset) (d ! (offset + 1)), n)
                  # split_packets d (left - 1) (offset + n))"
  by (cases left) (simp_all add: Let_def)

lemma sample_datagram:
  "split_packets (decoded_datagram flat_memory sample_context (sample_runtime sample_host sample_keys)) 64 28
     = [(28, 0x00B, 4)]"
proof -
  define d where "d = decoded_datagram flat_memory sample_context (sample_runtime sample_host sample_keys)"
  have n: "unat (r_u32 sample_context 3) = 32" "unat (r_u32 sample_context 1 + 864) = 864"
    by (simp_all add: sample_context_def r_u32_def)
  have d: "length d = 32" "d ! 28 = 0x0B" "d ! 29 = 0x02"
    by (simp_all add: d_def n [simplified] flat_memory_def sample_runtime_def sample_host_def)
  have "split_packets d 63 32 = []" using d by (subst split_packets_unfold) simp
  then have "split_packets d 64 28 = [(28, 0x00B, 4)]"
    using d by (subst split_packets_unfold) (simp add: packet_id_def packet_header16_def)
  then show ?thesis by (simp only: d_def)
qed

theorem receive_hook_refines_lifecycle_witness:
  "\<exists>st'. RevanaTraceWorldReceiveDecodeResult flat_memory (\<lambda>_. bcrypt_md5) sample_context
      (sample_runtime sample_host sample_keys) = Some st' \<and>
     direct_session_key (map_handoff st') = replicate 16 0 @ [2, 0, 0, 0]"
proof -
  have l: "length (direct_session_key (map_handoff (sample_runtime sample_host sample_keys))) = 20"
    by (simp add: sample_runtime_def sample_keys_def initial_map_globals_def)
  have on: "cipher_key_enabled (map_handoff (sample_runtime sample_host sample_keys))"
    "datagram_decoded sample_context" "\<not> rollover_pending sample_keys"
    "map_handoff (sample_runtime sample_host sample_keys) = sample_keys"
    by (simp_all add: sample_runtime_def sample_keys_def initial_map_globals_def datagram_decoded_def
        sample_context_def r_s32_def r_u32_def)
  have roll: "rolled (replicate 20 0) 1 = replicate 16 0 @ [2, 0, 0, 0]"
    by (simp add: rolled_def rollover_word_def le32_def le32_bytes_def)
  obtain st' where "RevanaTraceWorldReceiveDecodeResult flat_memory (\<lambda>_. bcrypt_md5) sample_context
      (sample_runtime sample_host sample_keys) = Some st'"
    "map_run (datagram_events (\<lambda>_. bcrypt_md5) True 64 [(28, 0x00B, 4)]) sample_keys = Some (map_handoff st')"
    using receive_hook_refines_lifecycle [OF l, of flat_memory "\<lambda>_. bcrypt_md5" sample_context]
    unfolding sample_datagram using on by auto
  then show ?thesis using on(3) roll [unfolded One_nat_def]
    by (intro exI [of _ st']) (auto dest!: sym [of _ "map_handoff st'"] simp: packet_events_def AdvanceDirectMapSessionKey_def sample_keys_def initial_map_globals_def
        AdvanceMapSessionKey_eq rfc1321.DeriveMapCipherKey_available)
qed

text \<open>
  C19: the receive hook never looks past the datagram: changing any byte outside the decoded bytes
  (the stored datagram size it logs aside) changes neither its log nor its state.
\<close>

theorem receive_hook_no_overread:
  assumes "\<forall>i < unat (r_u32 ctx 3). h (TranslateVirtual rm (r_u32 ctx 1 + 864) + i)
      = host st (TranslateVirtual rm (r_u32 ctx 1 + 864) + i)"
    and "load_and_swap32 rm h (TranslateVirtual rm (r_u32 ctx 30))
      = load_and_swap32 rm (host st) (TranslateVirtual rm (r_u32 ctx 30))"
  shows "RevanaTraceWorldReceiveDecodeResult rm bcs ctx (with_host h st) =
    map_option (with_host h) (RevanaTraceWorldReceiveDecodeResult rm bcs ctx st)"
proof -
  define p where "p = TranslateVirtual rm (r_u32 ctx 1 + 864)"
  have loop: "decode_loop bcs tr direct p (r_u32 ctx 3) 64 28 (with_host h s) =
      map_option (with_host h) (decode_loop bcs tr direct p (r_u32 ctx 3) 64 28 s)"
    if "host s = host st" "unat (r_u32 ctx 3) \<le> 10000" for tr direct s
    using assms(1) that by (intro decode_loop_local) (auto simp: p_def)
  define n where "n = (if r_u32 ctx 30 = 0 then 0
                  else load_and_swap32 rm (host st) (TranslateVirtual rm (r_u32 ctx 30)))"
  define noted where "noted s = (let s' = s\<lparr>observed := (observed s)\<lparr>world_receive_decode_result := r_u32 ctx 3\<rparr>\<rparr>
      in if hooks_enabled (trace s) \<and> world_receive_decode_result (observed s) \<noteq> r_u32 ctx 3
         then REXLOG_INFO ''Xbox world receive decode result={} datagram_size={}'' [S (r_s32 ctx 3), W n] s'
         else s')" for s
  have unfolded: "RevanaTraceWorldReceiveDecodeResult rm bcs ctx s =
     (if \<not> hooks_enabled (trace s) \<and> \<not> cipher_key_enabled (map_handoff s) then Some s
      else if r_s32 ctx 3 \<le> 0 \<or> 10000 < r_u32 ctx 3 then Some (noted s)
      else decode_loop bcs (hooks_enabled (trace s)) (cipher_key_enabled (map_handoff s)) p (r_u32 ctx 3) 64 28
             (noted s))"
    if "load_and_swap32 rm (host s) (TranslateVirtual rm (r_u32 ctx 30))
      = load_and_swap32 rm (host st) (TranslateVirtual rm (r_u32 ctx 30))" for s
    unfolding RevanaTraceWorldReceiveDecodeResult_def noted_def n_def p_def Let_def that [symmetric]
    by (simp split del: if_split cong: if_cong)
  have "noted (with_host h st) = with_host h (noted st)" "host (noted st) = host st"
    by (simp_all add: noted_def Let_def write_log_def)
  then show ?thesis
    using unfolded [of st] unfolded [of "with_host h st"] assms(2) loop [of "noted st"]
    by (simp add: word_less_nat_alt)
qed

theorem receive_hook_no_overread_witness:
  "RevanaTraceWorldReceiveDecodeResult flat_memory (\<lambda>_. bcrypt_md5) sample_context
      (with_host (sample_host(100 := 0xFF)) (sample_runtime sample_host sample_keys)) =
   map_option (with_host (sample_host(100 := 0xFF)))
     (RevanaTraceWorldReceiveDecodeResult flat_memory (\<lambda>_. bcrypt_md5) sample_context
        (sample_runtime sample_host sample_keys))"
proof (rule receive_hook_no_overread)
  have "host_range (sample_host(100 := 0xFF)) 0 4 = host_range sample_host 0 4"
    by (rule nth_equalityI) auto
  then show "load_and_swap32 flat_memory (sample_host(100 := 0xFF)) (TranslateVirtual flat_memory (r_u32 sample_context 30))
      = load_and_swap32 flat_memory (host (sample_runtime sample_host sample_keys))
          (TranslateVirtual flat_memory (r_u32 sample_context 30))"
    by (simp add: flat_memory_def sample_context_def sample_runtime_def r_u32_def be_load_def)
qed (simp add: flat_memory_def sample_context_def sample_runtime_def r_u32_def)

text \<open>
  C39: when a cipher key is configured and the guest passes a buffer, the apply hook writes exactly
  the sixteen stored key bytes there and no other byte of memory, and reports the installation once.
\<close>

theorem apply_cipher_key_exact:
  assumes "cipher_key_enabled (map_handoff st)" "r_u32 ctx 7 \<noteq> 0"
    and "length (direct_cipher_key (map_handoff st)) = 16"
    and "st' = RevanaApplyDirectMapCipherKey rm ctx st" "p = TranslateVirtual rm (r_u32 ctx 7)"
  shows "host_range (host st') p 16 = direct_cipher_key (map_handoff st) \<and>
    (\<forall>q. q < p \<or> p + 16 \<le> q \<longrightarrow> host st' q = host st q) \<and>
    map_handoff st' = (map_handoff st)\<lparr>cipher_key_reported := True\<rparr> \<and>
    length (logged st') = length (logged st) + (if cipher_key_reported (map_handoff st) then 0 else 1)"
  using assms host_range_copy [of "host st" p "direct_cipher_key (map_handoff st)"]
  by (auto simp: RevanaApplyDirectMapCipherKey_def Let_def write_log_def host_copy_frame)

definition apply_context :: ppc_context where
  "apply_context = \<lparr>gpr = (\<lambda>_. 0)(7 := 0x1000), lr = 0, ctr = 0\<rparr>"

theorem apply_cipher_key_exact_witness:
  "host_range (host (RevanaApplyDirectMapCipherKey flat_memory apply_context
      (sample_runtime sample_host (sample_keys\<lparr>direct_cipher_key := replicate 16 9\<rparr>)))) 0x1000 16 = replicate 16 9"
  using apply_cipher_key_exact [OF _ _ _ refl refl, of
      "sample_runtime sample_host (sample_keys\<lparr>direct_cipher_key := replicate 16 9\<rparr>)" apply_context flat_memory]
  by (simp add: sample_runtime_def sample_keys_def initial_map_globals_def apply_context_def r_u32_def
      flat_memory_def)

end
