(* ===== verification/Pol_Resolver.thy ===== *)
theory Pol_Resolver
  imports World_Receive
begin

text \<open>
  The direct resolver of \<^verbatim>\<open>src/runtime/revana_hooks.cpp\<close>: three host functions installed over the guest's
  resolver service (begin, poll, cancel), the start of the PolCore services they need, the registration
  stub, and the hook on the service dispatch that installs both.  The function dispatcher of the SDK and
  the guest functions it finds are parameters: a guest function maps the context and the runtime.
\<close>

section \<open>The function dispatcher\<close>

type_synonym guest_state = "ppc_context \<times> runtime"
type_synonym guest_function = "guest_state \<Rightarrow> guest_state"

datatype host_function = ResolverBegin | ResolverPoll | ResolverCancel | UiRegistrationStub

text \<open>\<open>AllocateThunk\<close> yields the guest address of a host function, zero when it fails.\<close>

record function_dispatcher =
  GetFunction :: "u32 \<Rightarrow> guest_function option"
  AllocateThunk :: "host_function \<Rightarrow> u32 \<Rightarrow> runtime \<Rightarrow> u32"

text \<open>\<open>None\<close>: there is no kernel, or no guest thread, yet; using the memory of a missing thread is \<open>None\<close> below.\<close>

record rex_system =
  kernel_state :: "function_dispatcher option"
  thread_memory :: "rex_memory option"

abbreviation (input) kDirectPolResolverHandle :: u32 where "kDirectPolResolverHandle \<equiv> 0x50584901"
abbreviation (input) kPolResolverBeginOffset :: u32 where "kPolResolverBeginOffset \<equiv> 884"
abbreviation (input) kPolResolverPollOffset :: u32 where "kPolResolverPollOffset \<equiv> 888"
abbreviation (input) kPolResolverCancelOffset :: u32 where "kPolResolverCancelOffset \<equiv> 892"
abbreviation (input) kPolResolverServiceInitializer :: u32 where "kPolResolverServiceInitializer \<equiv> 0x82465908"
abbreviation (input) kPolResolverServiceReady :: u32 where "kPolResolverServiceReady \<equiv> 0x824B9CBC"
abbreviation (input) kPolSessionInitializer :: u32 where "kPolSessionInitializer \<equiv> 0x82475BE8"
abbreviation (input) kPolSessionPointer :: u32 where "kPolSessionPointer \<equiv> 0x824DCC58"
abbreviation (input) kPolConfigCipherEnabled :: u32 where "kPolConfigCipherEnabled \<equiv> 0x824DC93B"
abbreviation (input) kPolNetworkAvailableSetter :: u32 where "kPolNetworkAvailableSetter \<equiv> 0x82471F00"
abbreviation (input) kPolNetworkAvailable :: u32 where "kPolNetworkAvailable \<equiv> 0x824D9078"

definition kRetailLobbyHostname :: bytes where
  "kRetailLobbyHostname = map of_char ''ffxi00.pol.com''"

definition load_word :: "rex_memory \<Rightarrow> runtime \<Rightarrow> u32 \<Rightarrow> u32" where
  "load_word rm st address = load_and_swap32 rm (host st) (TranslateVirtual rm address)"

definition store_word :: "rex_memory \<Rightarrow> u32 \<Rightarrow> u32 \<Rightarrow> runtime \<Rightarrow> runtime" where
  "store_word rm address v st = st\<lparr>host := store_and_swap32 rm (host st) (TranslateVirtual rm address) v\<rparr>"

section \<open>The host functions\<close>

definition RevanaDirectPolUiRegistrationStub :: "guest_state \<Rightarrow> guest_state" where
  "RevanaDirectPolUiRegistrationStub = (\<lambda>(ctx, st).
     (ctx, REXLOG_INFO ''Xbox direct-mode POL UI registration stub invoked with r3=0x{:08X}'' [W (r_u32 ctx 3)] st))"

text \<open>The comparison of a guest string with a null-terminated one.\<close>

fun string_equals :: "host_memory \<Rightarrow> nat \<Rightarrow> bytes \<Rightarrow> bool" where
  "string_equals h p [] = (h p = 0)"
| "string_equals h p (c # cs) = (h p = c \<and> string_equals h (p + 1) cs)"

definition GuestStringEquals :: "rex_system \<Rightarrow> runtime \<Rightarrow> u32 \<Rightarrow> bytes \<Rightarrow> bool option" where
  "GuestStringEquals sys st address expected =
     (if address = 0 then Some False
      else do {
        rm \<leftarrow> thread_memory sys;
        Some (string_equals (host st) (TranslateVirtual rm address) expected)
      })"

definition CallOriginalPolResolver :: "rex_system \<Rightarrow> u32 \<Rightarrow> guest_state \<Rightarrow> guest_state" where
  "CallOriginalPolResolver sys original = (\<lambda>(ctx, st).
     (case (case kernel_state sys of Some k \<Rightarrow> GetFunction k original | None \<Rightarrow> None) of
        None \<Rightarrow>
          (set_r_s64 ctx 3 (-2071),
           REXLOG_ERROR ''Xbox direct resolver original target is unavailable: 0x{:08X}'' [W original] st)
      | Some f \<Rightarrow> f (ctx, st)))"

text \<open>The four steps of \<^verbatim>\<open>EnsureDirectPolNetworkState\<close>: may it go on, and the state.\<close>

definition EnsureResolverService ::
  "function_dispatcher \<Rightarrow> rex_memory \<Rightarrow> guest_state \<Rightarrow> bool \<times> guest_state" where
  "EnsureResolverService k rm = (\<lambda>(ctx, st).
     if load_word rm st kPolResolverServiceReady = 0
     then (case GetFunction k kPolResolverServiceInitializer of
             None \<Rightarrow>
               (False, ctx, REXLOG_ERROR
                 ''Xbox direct resolver cannot resolve the normal PolCore resolver-service initializer'' [] st)
           | Some initializer \<Rightarrow>
               let (ctx, st) = initializer (set_r_u64 ctx 3 2, st);
                   service_ready = load_word rm st kPolResolverServiceReady;
                   st = REXLOG_INFO
                     ''Xbox direct resolver invoked normal PolCore resolver-service initializer: result={} ready={}''
                     [S (r_s32 ctx 3), W service_ready] st
               in if r_s32 ctx 3 < 0 \<or> service_ready = 0
                  then (False, ctx, REXLOG_ERROR
                    ''Xbox direct resolver PolCore resolver-service initialization failed'' [] st)
                  else (True, ctx, st))
     else (True, ctx, st))"

definition EnsureSession ::
  "function_dispatcher \<Rightarrow> rex_memory \<Rightarrow> guest_state \<Rightarrow> bool \<times> guest_state" where
  "EnsureSession k rm = (\<lambda>(ctx, st).
     if load_word rm st kPolSessionPointer = 0
     then (case GetFunction k kPolSessionInitializer of
             None \<Rightarrow>
               (False, ctx, REXLOG_ERROR
                 ''Xbox direct resolver cannot resolve the normal PolCore session initializer'' [] st)
           | Some initializer \<Rightarrow>
               let (ctx, st) = initializer (set_r_u64 (set_r_u64 (set_r_u64 ctx 3 0) 4 0) 5 0, st);
                   session_pointer = load_word rm st kPolSessionPointer;
                   st = REXLOG_INFO
                     ''Xbox direct resolver invoked normal PolCore session initializer: pointer=0x{:08X}''
                     [W session_pointer] st
               in if session_pointer = 0
                  then (False, ctx, REXLOG_ERROR
                    ''Xbox direct resolver PolCore session initialization failed'' [] st)
                  else (True, ctx, st))
     else (True, ctx, st))"

definition SelectPlaintextTransport :: "rex_memory \<Rightarrow> runtime \<Rightarrow> runtime" where
  "SelectPlaintextTransport rm st =
     (let config_cipher_enabled = TranslateVirtual rm kPolConfigCipherEnabled in
      if host st config_cipher_enabled \<noteq> 0
      then REXLOG_INFO ''Xbox direct resolver selected plaintext configuration transport'' []
             (st\<lparr>host := (host st)(config_cipher_enabled := 0)\<rparr>)
      else st)"

definition EnsureNetworkAvailable ::
  "function_dispatcher \<Rightarrow> rex_memory \<Rightarrow> guest_state \<Rightarrow> bool \<times> guest_state" where
  "EnsureNetworkAvailable k rm = (\<lambda>(ctx, st).
     if load_word rm st kPolNetworkAvailable = 0
     then (case GetFunction k kPolNetworkAvailableSetter of
             None \<Rightarrow>
               (False, ctx, REXLOG_ERROR
                 ''Xbox direct resolver cannot resolve the normal PolCore network-available setter'' [] st)
           | Some setter \<Rightarrow>
               let (ctx, st) = setter (ctx, st);
                   network_available = load_word rm st kPolNetworkAvailable;
                   st = REXLOG_INFO
                     ''Xbox direct resolver invoked normal PolCore network-available setter: value={}''
                     [W network_available] st
               in if network_available = 0
                  then (False, ctx, REXLOG_ERROR
                    ''Xbox direct resolver PolCore network initialization failed'' [] st)
                  else (True, ctx, st))
     else (True, ctx, st))"

definition EnsureDirectPolNetworkState :: "rex_system \<Rightarrow> guest_state \<Rightarrow> bool \<times> guest_state" where
  "EnsureDirectPolNetworkState sys = (\<lambda>(ctx, st).
     (case (kernel_state sys, thread_memory sys) of
        (Some k, Some rm) \<Rightarrow>
          (case EnsureResolverService k rm (ctx, st) of
             (False, s) \<Rightarrow> (False, s)
           | (True, s) \<Rightarrow>
               (case EnsureSession k rm s of
                  (False, s) \<Rightarrow> (False, s)
                | (True, ctx, st) \<Rightarrow> EnsureNetworkAvailable k rm (ctx, SelectPlaintextTransport rm st)))
      | _ \<Rightarrow> (False, ctx, REXLOG_ERROR ''Xbox direct resolver has no guest runtime state'' [] st)))"

definition RevanaDirectPolResolverBegin :: "rex_system \<Rightarrow> guest_state \<Rightarrow> guest_state option" where
  "RevanaDirectPolResolverBegin sys = (\<lambda>(ctx, st). do {
     retail \<leftarrow> GuestStringEquals sys st (r_u32 ctx 3) kRetailLobbyHostname;
     Some (if \<not> retail
           then CallOriginalPolResolver sys (resolver_begin_original (resolver st)) (ctx, st)
           else (case EnsureDirectPolNetworkState sys (ctx, st) of
                   (False, ctx, st) \<Rightarrow> (set_r_s64 ctx 3 (-2071), st)
                 | (True, ctx, st) \<Rightarrow>
                     (set_r_u64 ctx 3 (ucast kDirectPolResolverHandle),
                      REXLOG_INFO ''Xbox direct resolver accepted retail lobby hostname'' [] st)))
   })"

definition RevanaDirectPolResolverPoll :: "rex_system \<Rightarrow> guest_state \<Rightarrow> guest_state option" where
  "RevanaDirectPolResolverPoll sys = (\<lambda>(ctx, st).
     if r_u32 ctx 3 \<noteq> kDirectPolResolverHandle
     then Some (CallOriginalPolResolver sys (resolver_poll_original (resolver st)) (ctx, st))
     else if r_u32 ctx 4 = 0 then Some (set_r_s64 ctx 3 (-22), st)
     else do {
       rm \<leftarrow> thread_memory sys;
       let st = st\<lparr>host := host_copy (host st) (TranslateVirtual rm (r_u32 ctx 4)) (replicate 20 0)\<rparr>;
       let st = store_word rm (r_u32 ctx 4 + 4) (resolver_ipv4 (resolver st)) st;
       Some (set_r_s64 ctx 3 1,
             REXLOG_INFO ''Xbox direct resolver returned configured lobby IPv4 address'' [] st)
     })"

definition RevanaDirectPolResolverCancel :: "rex_system \<Rightarrow> guest_state \<Rightarrow> guest_state" where
  "RevanaDirectPolResolverCancel sys = (\<lambda>(ctx, st).
     if r_u32 ctx 3 \<noteq> kDirectPolResolverHandle
     then CallOriginalPolResolver sys (resolver_cancel_original (resolver st)) (ctx, st)
     else (set_r_s64 ctx 3 0, REXLOG_INFO ''Xbox direct resolver released synthetic request'' [] st))"

section \<open>Installing them\<close>

definition InstallDirectPolResolver :: "rex_system \<Rightarrow> u32 \<Rightarrow> runtime \<Rightarrow> (bool \<times> runtime) option" where
  "InstallDirectPolResolver sys table st =
     (if \<not> resolver_enabled (resolver st) then Some (False, st)
      else case kernel_state sys of
        None \<Rightarrow> Some (False, REXLOG_ERROR ''Xbox direct resolver has no kernel'' [] st)
      | Some k \<Rightarrow> do {
          rm \<leftarrow> thread_memory sys;
          let installed_begin = resolver_begin_thunk (resolver st);
          if installed_begin \<noteq> 0 \<and> load_word rm st (table + kPolResolverBeginOffset) = installed_begin
          then Some (True, st)
          else
            let begin_original = load_word rm st (table + kPolResolverBeginOffset);
                poll_original = load_word rm st (table + kPolResolverPollOffset);
                cancel_original = load_word rm st (table + kPolResolverCancelOffset)
            in if begin_original = 0 \<or> poll_original = 0 \<or> cancel_original = 0
               then Some (False, REXLOG_ERROR
                      ''Xbox direct resolver found incomplete service slots: +884=0x{:08X} +888=0x{:08X} +892=0x{:08X}''
                      [W begin_original, W poll_original, W cancel_original] st)
               else
                 let begin_thunk = AllocateThunk k ResolverBegin 0x8418880C st;
                     poll_thunk = AllocateThunk k ResolverPoll 0x84188858 st;
                     cancel_thunk = AllocateThunk k ResolverCancel 0x84188858 st
                 in if begin_thunk = 0 \<or> poll_thunk = 0 \<or> cancel_thunk = 0
                    then Some (False, REXLOG_ERROR ''Xbox direct resolver thunk allocation failed'' [] st)
                    else
                      let st = st\<lparr>resolver := (resolver st)
                            \<lparr>resolver_begin_original := begin_original, resolver_poll_original := poll_original,
                             resolver_cancel_original := cancel_original, resolver_begin_thunk := begin_thunk,
                             resolver_poll_thunk := poll_thunk, resolver_cancel_thunk := cancel_thunk\<rparr>\<rparr>;
                          st = store_word rm (table + kPolResolverBeginOffset) begin_thunk st;
                          st = store_word rm (table + kPolResolverPollOffset) poll_thunk st;
                          st = store_word rm (table + kPolResolverCancelOffset) cancel_thunk st
                      in Some (True, REXLOG_INFO
                           ''Xbox direct resolver installed over service slots +884/+888/+892 originals=0x{:08X},0x{:08X},0x{:08X}''
                           [W begin_original, W poll_original, W cancel_original] st)
        })"

definition InstallDirectPolUiRegistrationStub :: "rex_system \<Rightarrow> u32 \<Rightarrow> runtime \<Rightarrow> (u32 \<times> runtime) option" where
  "InstallDirectPolUiRegistrationStub sys table st =
     (if \<not> registration_stub_enabled (resolver st) then Some (0, st)
      else
        let thunk = registration_thunk (resolver st);
            (thunk, st) =
              (if thunk = 0
               then (case kernel_state sys of
                       None \<Rightarrow> (0, REXLOG_ERROR ''Xbox direct-mode POL UI registration stub has no kernel'' [] st)
                     | Some k \<Rightarrow>
                         let thunk = AllocateThunk k UiRegistrationStub 0x8421CBD8 st in
                         if thunk = 0
                         then (0, REXLOG_ERROR ''Xbox direct-mode POL UI registration stub allocation failed'' [] st)
                         else (thunk, st\<lparr>resolver := (resolver st)\<lparr>registration_thunk := thunk\<rparr>\<rparr>))
               else (thunk, st))
        in if thunk = 0 then Some (0, st)
           else do {
             rm \<leftarrow> thread_memory sys;
             let st = store_word rm (table + 1852) thunk st;
             Some (thunk, REXLOG_INFO ''Xbox direct-mode POL UI registration stub installed at 0x{:08X}'' [W thunk] st)
           })"

definition RevanaConfigureDirectPolUiRegistrationStub :: "runtime \<Rightarrow> runtime" where
  "RevanaConfigureDirectPolUiRegistrationStub st =
     REXLOG_INFO ''Xbox direct-mode POL UI registration fallback enabled'' []
       (st\<lparr>resolver := (resolver st)\<lparr>registration_thunk := 0, registration_stub_enabled := True\<rparr>\<rparr>)"

definition RevanaConfigureDirectPolResolver :: "u32 \<Rightarrow> runtime \<Rightarrow> runtime" where
  "RevanaConfigureDirectPolResolver ipv4_address st =
     REXLOG_INFO ''Xbox direct resolver fallback enabled'' []
       (st\<lparr>resolver := (resolver st)\<lparr>resolver_ipv4 := ipv4_address, resolver_enabled := True\<rparr>\<rparr>)"

section \<open>The hook on the service dispatch\<close>

record dispatch_scan =
  populated_entries :: u32
  previous_offset :: u32
  previous_target :: u32
  next_offset :: u32
  next_target :: u32
  outside_polcore_entries :: u32

text \<open>The offsets of the loop, \<open>0\<close> to \<open>4284\<close> in steps of four.\<close>

definition dispatch_offsets :: "u32 list" where
  "dispatch_offsets = map (\<lambda>i. of_nat (4 * i)) [0..<1072]"

fun scan_dispatch_table ::
  "rex_memory \<Rightarrow> u32 \<Rightarrow> u32 list \<Rightarrow> dispatch_scan \<Rightarrow> runtime \<Rightarrow> dispatch_scan \<times> runtime" where
  "scan_dispatch_table rm table [] sc st = (sc, st)"
| "scan_dispatch_table rm table (offset # offsets) sc st =
     (let target = load_word rm st (table + offset) in
      if target = 0 then scan_dispatch_table rm table offsets sc st
      else
        let sc = sc\<lparr>populated_entries := populated_entries sc + 1\<rparr>;
            (sc, st) =
              (if target < 0x82400000 \<or> target \<ge> 0x82540000
               then (sc\<lparr>outside_polcore_entries := outside_polcore_entries sc + 1\<rparr>,
                     REXLOG_INFO ''Xbox service dispatch outside PolCore +{}=0x{:08X}'' [W offset, W target] st)
               else (sc, st));
            sc = (if offset < 1852 then sc\<lparr>previous_offset := offset, previous_target := target\<rparr>
                  else if offset > 1852 \<and> next_target sc = 0
                  then sc\<lparr>next_offset := offset, next_target := target\<rparr>
                  else sc)
        in scan_dispatch_table rm table offsets sc st)"

definition trace_service_dispatch :: "rex_memory \<Rightarrow> ppc_context \<Rightarrow> runtime \<Rightarrow> runtime" where
  "trace_service_dispatch rm ctx st =
     (let table = r_u32 ctx 11;
          (sc, st) = scan_dispatch_table rm table dispatch_offsets
            \<lparr>populated_entries = 0, previous_offset = 0, previous_target = 0, next_offset = 0,
             next_target = 0, outside_polcore_entries = 0\<rparr> st;
          st = REXLOG_INFO
            ''Xbox service dispatch table=0x{:08X} entries +1840..+1864={:08X},{:08X},{:08X},{:08X},{:08X},{:08X},{:08X}''
            (W table # map (\<lambda>offset. W (load_word rm st (table + offset))) [1840, 1844, 1848, 1852, 1856, 1860, 1864]) st;
          st = REXLOG_INFO
            ''Xbox service dispatch populated={} nearest to +1852: +{}=0x{:08X}, +{}=0x{:08X}''
            [W (populated_entries sc), W (previous_offset sc), W (previous_target sc), W (next_offset sc),
             W (next_target sc)] st;
          st = REXLOG_INFO ''Xbox service dispatch outside PolCore entries={}'' [W (outside_polcore_entries sc)] st
      in REXLOG_INFO ''Xbox service dispatch +1852 constructor call argument=0x{:08X} target=0x{:08X}''
           [W (r_u32 ctx 3), W (r_u32 ctx 10)] st)"

definition RevanaTraceServiceDispatchSlot1852 :: "rex_system \<Rightarrow> guest_state \<Rightarrow> guest_state option" where
  "RevanaTraceServiceDispatchSlot1852 sys = (\<lambda>(ctx, st).
     let trace_enabled = hooks_enabled (trace st);
         stub_enabled = registration_stub_enabled (resolver st);
         was_resolver_enabled = resolver_enabled (resolver st)
     in if \<not> trace_enabled \<and> \<not> stub_enabled \<and> \<not> was_resolver_enabled then Some (ctx, st)
        else do {
          st \<leftarrow> (if trace_enabled
                then do { rm \<leftarrow> thread_memory sys; Some (trace_service_dispatch rm ctx st) }
                else Some st);
          st \<leftarrow> (if was_resolver_enabled
                then do { (installed, st) \<leftarrow> InstallDirectPolResolver sys (r_u32 ctx 11) st; Some st }
                else Some st);
          if r_u32 ctx 10 = 0 \<and> stub_enabled
          then do {
            (thunk, st) \<leftarrow> InstallDirectPolUiRegistrationStub sys (r_u32 ctx 11) st;
            Some (if thunk \<noteq> 0 then set_r_u64 ctx 10 (ucast thunk) else ctx, st)
          }
          else Some (ctx, st)
        })"

section \<open>The slots\<close>

lemma store_word_frame [simp]:
  "resolver (store_word rm a v st) = resolver st" "trace (store_word rm a v st) = trace st"
  "logged (store_word rm a v st) = logged st" "map_handoff (store_word rm a v st) = map_handoff st"
  "lobby (store_word rm a v st) = lobby st" "bootstrap (store_word rm a v st) = bootstrap st"
  by (simp_all add: store_word_def)

lemma load_word_log [simp]: "load_word rm (write_log l f as st) a = load_word rm st a"
  and load_word_resolver [simp]: "load_word rm (st\<lparr>resolver := g\<rparr>) a = load_word rm st a"
  by (simp_all add: load_word_def)

context guest_memory
begin

lemma load_store_word [simp]: "load_word rm (store_word rm a v st) a = v"
  by (simp add: load_word_def store_word_def w32.load_store)

lemma load_store_word_apart:
  assumes "unat table + k + 4 < 2 ^ 32" "unat table + j + 4 < 2 ^ 32" "j + 4 \<le> k \<or> k + 4 \<le> j"
  shows "load_word rm (store_word rm (table + of_nat k) v st) (table + of_nat j) = load_word rm st (table + of_nat j)"
  using assms by (simp add: load_word_def store_word_def translate_offset w32.load_store_disjoint)

lemmas load_store_slots =
  load_store_word_apart [of table 884 888 for table, simplified] load_store_word_apart [of table 888 884 for table, simplified]
  load_store_word_apart [of table 884 892 for table, simplified] load_store_word_apart [of table 892 884 for table, simplified]
  load_store_word_apart [of table 888 892 for table, simplified] load_store_word_apart [of table 892 888 for table, simplified]

text \<open>
  A successful installation either found its begin thunk in place, or replaced three populated slots
  by three thunks and kept what they held.
\<close>

lemma install_cases:
  assumes "InstallDirectPolResolver sys table st = Some (True, st')" "thread_memory sys = Some rm"
    and "unat table + 896 < 2 ^ 32"
  obtains (present) "st' = st" "resolver_begin_thunk (resolver st) \<noteq> 0"
      "load_word rm st (table + 884) = resolver_begin_thunk (resolver st)" "resolver_enabled (resolver st)"
    | (installed) k where "kernel_state sys = Some k" "resolver_enabled (resolver st)"
      "resolver st' = (resolver st)
         \<lparr>resolver_begin_original := load_word rm st (table + 884), resolver_poll_original := load_word rm st (table + 888),
          resolver_cancel_original := load_word rm st (table + 892),
          resolver_begin_thunk := AllocateThunk k ResolverBegin 0x8418880C st,
          resolver_poll_thunk := AllocateThunk k ResolverPoll 0x84188858 st,
          resolver_cancel_thunk := AllocateThunk k ResolverCancel 0x84188858 st\<rparr>"
      "0 \<notin> load_word rm st ` {table + 884, table + 888, table + 892}"
      "resolver_begin_thunk (resolver st') \<noteq> 0" "resolver_poll_thunk (resolver st') \<noteq> 0"
      "resolver_cancel_thunk (resolver st') \<noteq> 0"
      "load_word rm st' (table + 884) = resolver_begin_thunk (resolver st')"
      "load_word rm st' (table + 888) = resolver_poll_thunk (resolver st')"
      "load_word rm st' (table + 892) = resolver_cancel_thunk (resolver st')"
      "map_handoff st' = map_handoff st" "lobby st' = lobby st" "bootstrap st' = bootstrap st"
proof (cases "resolver_begin_thunk (resolver st) \<noteq> 0 \<and> load_word rm st (table + 884) = resolver_begin_thunk (resolver st)")
  case True
  with assms show thesis
    by (intro present) (auto simp: InstallDirectPolResolver_def Let_def split: if_splits option.splits)
next
  case False
  from assms obtain k where k: "kernel_state sys = Some k" "resolver_enabled (resolver st)"
    by (auto simp: InstallDirectPolResolver_def split: if_splits option.splits)
  have neq: "resolver_begin_thunk (resolver st) = 0 \<or> load_word rm st (table + 884) \<noteq> resolver_begin_thunk (resolver st)"
    using False by blast
  show thesis
    using assms k neq
    unfolding InstallDirectPolResolver_def Let_def
    by (intro installed [OF k])
       (auto simp: load_store_slots split: if_splits)
qed

lemma install_transparent:
  assumes "thread_memory sys = Some rm" "unat table + 896 < 2 ^ 32"
    and "InstallDirectPolResolver sys table st = Some (True, st')"
    and "resolver_begin_thunk (resolver st) = 0 \<or> load_word rm st (table + 884) \<noteq> resolver_begin_thunk (resolver st)"
  shows "InstallDirectPolResolver sys table st' = Some (True, st') \<and>
    (\<forall>ctx later. resolver later = resolver st' \<longrightarrow> r_u32 ctx 3 \<noteq> kDirectPolResolverHandle \<longrightarrow>
       RevanaDirectPolResolverPoll sys (ctx, later) =
         Some (CallOriginalPolResolver sys (load_word rm st (table + 888)) (ctx, later)) \<and>
       RevanaDirectPolResolverCancel sys (ctx, later) =
         CallOriginalPolResolver sys (load_word rm st (table + 892)) (ctx, later)) \<and>
    (\<forall>ctx later. resolver later = resolver st' \<longrightarrow>
       \<not> string_equals (host later) (TranslateVirtual rm (r_u32 ctx 3)) kRetailLobbyHostname \<longrightarrow>
       RevanaDirectPolResolverBegin sys (ctx, later) =
         Some (CallOriginalPolResolver sys (load_word rm st (table + 884)) (ctx, later)))"
  using assms(3,1,2)
proof (cases rule: install_cases)
  case present
  with assms(4) show ?thesis by simp
next
  case (installed k)
  have "InstallDirectPolResolver sys table st' = Some (True, st')"
    using installed(1,2,3,5,8) assms(1) by (simp add: InstallDirectPolResolver_def)
  with installed(3) assms(1) show ?thesis
    by (auto simp: RevanaDirectPolResolverPoll_def RevanaDirectPolResolverCancel_def RevanaDirectPolResolverBegin_def
        GuestStringEquals_def)
qed

lemma poll_answer:
  assumes "thread_memory sys = Some rm"
    and "r_u32 ctx 3 = kDirectPolResolverHandle" "r_u32 ctx 4 \<noteq> 0" "unat (r_u32 ctx 4) + 20 < 2 ^ 32"
  defines "p \<equiv> TranslateVirtual rm (r_u32 ctx 4)"
  shows "\<exists>ctx' st'. RevanaDirectPolResolverPoll sys (ctx, st) = Some (ctx', st') \<and> r_s32 ctx' 3 = 1 \<and>
    load_and_swap32 rm (host st') (p + 4) = resolver_ipv4 (resolver st) \<and>
    (\<forall>q. q < p + 4 \<or> p + 8 \<le> q \<longrightarrow> host st' q = (if p \<le> q \<and> q < p + 20 then 0 else host st q)) \<and>
    resolver st' = resolver st \<and> map_handoff st' = map_handoff st \<and> bootstrap st' = bootstrap st \<and>
    lobby st' = lobby st"
proof -
  have "TranslateVirtual rm (r_u32 ctx 4 + 4) = p + 4"
    using translate_offset [of "r_u32 ctx 4" 4] assms(4) by (simp add: p_def)
  then have "RevanaDirectPolResolverPoll sys (ctx, st) =
    Some (set_r_s64 ctx 3 1, REXLOG_INFO ''Xbox direct resolver returned configured lobby IPv4 address'' []
      (st\<lparr>host := store_and_swap32 rm (host_copy (host st) p (replicate 20 0)) (p + 4) (resolver_ipv4 (resolver st))\<rparr>))"
    using assms(1-3) by (simp add: RevanaDirectPolResolverPoll_def store_word_def p_def)
  moreover have "r_s32 (set_r_s64 ctx 3 1) 3 = 1" by (rule r_s32_set_r_s64) simp_all
  ultimately show ?thesis by (auto simp: w32.load_store w32.store_frame host_copy_def)
qed

end

section \<open>Properties of the resolver\<close>

text \<open>
  C14: installing the resolver over a table whose three slots are populated, and not yet installed, is
  done once and loses nothing: installing again is the identity, and afterwards, in every state that
  kept the resolver's globals, a request that is not for the lobby host or not the client's handle
  reaches the guest function the slot held, with the registers and the state unchanged.
\<close>

theorem resolver_installation_transparent:
  assumes "guest_memory rm" "thread_memory sys = Some rm" "unat table + 896 < 2 ^ 32"
    and "InstallDirectPolResolver sys table st = Some (True, st')"
    and "resolver_begin_thunk (resolver st) = 0 \<or> load_word rm st (table + 884) \<noteq> resolver_begin_thunk (resolver st)"
  shows "InstallDirectPolResolver sys table st' = Some (True, st') \<and>
    (\<forall>ctx later. resolver later = resolver st' \<longrightarrow> r_u32 ctx 3 \<noteq> kDirectPolResolverHandle \<longrightarrow>
       RevanaDirectPolResolverPoll sys (ctx, later) =
         Some (CallOriginalPolResolver sys (load_word rm st (table + 888)) (ctx, later)) \<and>
       RevanaDirectPolResolverCancel sys (ctx, later) =
         CallOriginalPolResolver sys (load_word rm st (table + 892)) (ctx, later)) \<and>
    (\<forall>ctx later. resolver later = resolver st' \<longrightarrow>
       \<not> string_equals (host later) (TranslateVirtual rm (r_u32 ctx 3)) kRetailLobbyHostname \<longrightarrow>
       RevanaDirectPolResolverBegin sys (ctx, later) =
         Some (CallOriginalPolResolver sys (load_word rm st (table + 884)) (ctx, later)))"
  by (rule guest_memory.install_transparent [OF assms])

text \<open>Three populated slots at the bottom of a flat memory, and a dispatcher with one function.\<close>

definition sample_dispatcher :: function_dispatcher where
  "sample_dispatcher =
     \<lparr>GetFunction = (\<lambda>a. if a = 2 then Some (\<lambda>(ctx, st). (set_r_u64 ctx 3 5, st)) else None),
      AllocateThunk = (\<lambda>f a st. case f of ResolverBegin \<Rightarrow> 0xF0 | ResolverPoll \<Rightarrow> 0xF1 | ResolverCancel \<Rightarrow> 0xF2
        | UiRegistrationStub \<Rightarrow> 0xF3)\<rparr>"

definition sample_system :: rex_system where
  "sample_system = \<lparr>kernel_state = Some sample_dispatcher, thread_memory = Some flat_memory\<rparr>"

definition sample_table :: runtime where
  "sample_table = store_word flat_memory 892 3 (store_word flat_memory 888 2 (store_word flat_memory 884 1
     (RevanaConfigureDirectPolResolver 0x7F000001 (sample_runtime (\<lambda>_. 0) sample_keys))))"

lemma sample_table_simps [simp]:
  "load_word flat_memory sample_table 884 = 1" "load_word flat_memory sample_table 888 = 2"
  "load_word flat_memory sample_table 892 = 3"
  "resolver_enabled (resolver sample_table)" "resolver_begin_thunk (resolver sample_table) = 0"
  using flat.load_store_slots [of 0]
  by (simp_all add: sample_table_def RevanaConfigureDirectPolResolver_def sample_runtime_def)

theorem resolver_installation_transparent_witness:
  "\<exists>st'. InstallDirectPolResolver sample_system 0 sample_table = Some (True, st') \<and>
     RevanaDirectPolResolverPoll sample_system (sample_context, st') = Some (set_r_u64 sample_context 3 5, st')"
proof -
  obtain st' where st': "InstallDirectPolResolver sample_system 0 sample_table = Some (True, st')"
    by (simp add: InstallDirectPolResolver_def sample_system_def sample_dispatcher_def Let_def)
  have "r_u32 sample_context 3 \<noteq> kDirectPolResolverHandle" by (simp add: sample_context_def r_u32_def)
  with resolver_installation_transparent [OF flat.guest_memory_axioms _ _ st'] st'
  show ?thesis
    by (simp add: sample_system_def CallOriginalPolResolver_def sample_dispatcher_def)
qed

text \<open>
  Polling the client's handle answers with the configured address: the call succeeds with 1, the
  word at offset 4 of the 20-byte record holds the address, the other sixteen bytes are zero, and no
  other byte of guest memory and no global changes.
\<close>

theorem resolver_poll_exact:
  assumes "guest_memory rm" "thread_memory sys = Some rm"
    and "r_u32 ctx 3 = kDirectPolResolverHandle" "r_u32 ctx 4 \<noteq> 0" "unat (r_u32 ctx 4) + 20 < 2 ^ 32"
    and "p = TranslateVirtual rm (r_u32 ctx 4)"
  shows "\<exists>ctx' st'. RevanaDirectPolResolverPoll sys (ctx, st) = Some (ctx', st') \<and> r_s32 ctx' 3 = 1 \<and>
    load_and_swap32 rm (host st') (p + 4) = resolver_ipv4 (resolver st) \<and>
    (\<forall>q. q < p + 4 \<or> p + 8 \<le> q \<longrightarrow> host st' q = (if p \<le> q \<and> q < p + 20 then 0 else host st q)) \<and>
    resolver st' = resolver st \<and> map_handoff st' = map_handoff st \<and> bootstrap st' = bootstrap st \<and>
    lobby st' = lobby st"
  using guest_memory.poll_answer [OF assms(1,2,3,4,5)] assms(6) by blast

theorem resolver_poll_exact_witness:
  "\<exists>ctx' st'. RevanaDirectPolResolverPoll sample_system
      (set_r_u64 (set_r_u64 sample_context 3 0x50584901) 4 0x100, sample_table) = Some (ctx', st') \<and>
    r_s32 ctx' 3 = 1 \<and> load_and_swap32 flat_memory (host st') 0x104 = 0x7F000001 \<and> host st' 0x100 = 0"
proof -
  let ?ctx = "set_r_u64 (set_r_u64 sample_context 3 0x50584901) 4 0x100"
  have r: "r_u32 ?ctx 3 = kDirectPolResolverHandle" "r_u32 ?ctx 4 = 0x100"
    by (simp_all add: r_u32_def set_r_u64_def)
  have ip: "resolver_ipv4 (resolver sample_table) = 0x7F000001"
    by (simp add: sample_table_def RevanaConfigureDirectPolResolver_def)
  have p: "0x100 = TranslateVirtual flat_memory (r_u32 ?ctx 4)" by (simp add: r(2) flat_memory_def)
  have "thread_memory sample_system = Some flat_memory" "r_u32 ?ctx 4 \<noteq> 0" "unat (r_u32 ?ctx 4) + 20 < 2 ^ 32"
    by (simp_all add: sample_system_def r(2))
  from resolver_poll_exact [where st = sample_table, OF flat.guest_memory_axioms this(1) r(1) this(2,3) p]
  obtain ctx' st' where "RevanaDirectPolResolverPoll sample_system (?ctx, sample_table) = Some (ctx', st')"
    "r_s32 ctx' 3 = 1" "load_and_swap32 flat_memory (host st') (0x100 + 4) = resolver_ipv4 (resolver sample_table)"
    and q: "\<forall>q. q < 0x100 + 4 \<or> 0x100 + 8 \<le> q \<longrightarrow>
      host st' q = (if 0x100 \<le> q \<and> q < 0x100 + 20 then 0 else host sample_table q)" by blast
  moreover from q have "host st' 0x100 = 0" by (elim allE [of _ "0x100"]) simp
  ultimately show ?thesis using ip by (intro exI [of _ ctx'] exI [of _ st']) simp
qed

section \<open>The dispatch table\<close>

definition outside_polcore :: "u32 \<Rightarrow> bool" where
  "outside_polcore target \<longleftrightarrow> target \<noteq> 0 \<and> (target < 0x82400000 \<or> target \<ge> 0x82540000)"

definition outside_line :: "u32 \<Rightarrow> u32 \<Rightarrow> log_line" where
  "outside_line offset target = Log Info ''Xbox service dispatch outside PolCore +{}=0x{:08X}'' [W offset, W target]"

lemma scan_dispatch_table_eq:
  fixes st :: runtime and rm :: rex_memory and table :: u32
  defines "entry \<equiv> \<lambda>offset. load_word rm st (table + offset)"
  defines "below \<equiv> \<lambda>offsets. filter (\<lambda>offset. entry offset \<noteq> 0 \<and> offset < 1852) offsets"
    and "beyond \<equiv> \<lambda>offsets. filter (\<lambda>offset. entry offset \<noteq> 0 \<and> 1852 < offset) offsets"
  shows "scan_dispatch_table rm table offsets sc (st\<lparr>logged := l\<rparr>) =
    (\<lparr>populated_entries = populated_entries sc + of_nat (length (filter (\<lambda>offset. entry offset \<noteq> 0) offsets)),
      previous_offset = (if below offsets = [] then previous_offset sc else last (below offsets)),
      previous_target = (if below offsets = [] then previous_target sc else entry (last (below offsets))),
      next_offset = (if next_target sc \<noteq> 0 \<or> beyond offsets = [] then next_offset sc else hd (beyond offsets)),
      next_target = (if next_target sc \<noteq> 0 \<or> beyond offsets = [] then next_target sc else entry (hd (beyond offsets))),
      outside_polcore_entries = outside_polcore_entries sc +
        of_nat (length (filter (\<lambda>offset. outside_polcore (entry offset)) offsets))\<rparr>,
     st\<lparr>logged := l @ map (\<lambda>offset. outside_line offset (entry offset))
       (filter (\<lambda>offset. outside_polcore (entry offset)) offsets)\<rparr>)"
proof (induction offsets arbitrary: sc l)
  case Nil
  then show ?case by (simp add: below_def beyond_def)
next
  case (Cons offset offsets)
  have load: "load_word rm (st\<lparr>logged := l'\<rparr>) a = load_word rm st a" for l' a by (simp add: load_word_def)
  have entry: "load_word rm st (table + a) = entry a" for a by (simp add: entry_def)
  note defs = below_def beyond_def entry load Let_def Cons.IH
  show ?case
  proof (cases "entry offset = 0")
    case True
    then show ?thesis by (simp add: defs outside_polcore_def)
  next
    case False
    consider "offset < 1852" | "offset = 1852" | "1852 < offset" by fastforce
    then show ?thesis
    proof cases
      case 1
      then have "\<not> 1852 < offset" by (simp add: not_less less_imp_le)
      with 1 False show ?thesis
        by (cases "outside_polcore (entry offset)")
           (simp_all add: defs outside_polcore_def outside_line_def write_log_def)
    next
      case 2
      with False show ?thesis
        by (cases "outside_polcore (entry offset)")
           (simp_all add: defs outside_polcore_def outside_line_def write_log_def)
    next
      case 3
      then have "\<not> offset < 1852" by (simp add: not_less less_imp_le)
      with 3 False show ?thesis
        by (cases "outside_polcore (entry offset)"; cases "next_target sc = 0")
           (simp_all add: defs outside_polcore_def outside_line_def write_log_def)
    qed
  qed
qed

text \<open>
  The trace of the service dispatch reports the table as it is: one line per entry that points
  outside PolCore, in the order of the table, the seven entries around slot 1852, the number of
  populated entries of 1072, the nearest populated ones below and above slot 1852 with their offsets
  (zeros when there is none), and the number of entries outside PolCore; it changes nothing else.
\<close>

theorem dispatch_trace_exact:
  fixes rm :: rex_memory and ctx :: ppc_context and st :: runtime
  shows "let entry = (\<lambda>offset. load_word rm st (r_u32 ctx 11 + offset));
         populated = filter (\<lambda>offset. entry offset \<noteq> 0) dispatch_offsets;
         outside = filter (\<lambda>offset. outside_polcore (entry offset)) dispatch_offsets;
         before = filter (\<lambda>offset. offset < 1852) populated;
         after = filter (\<lambda>offset. 1852 < offset) populated;
         nearest = (\<lambda>pick os. if os = [] then [W 0, W 0] else [W (pick os), W (entry (pick os))])
     in trace_service_dispatch rm ctx st = st\<lparr>logged := logged st
          @ map (\<lambda>offset. outside_line offset (entry offset)) outside
          @ [Log Info ''Xbox service dispatch table=0x{:08X} entries +1840..+1864={:08X},{:08X},{:08X},{:08X},{:08X},{:08X},{:08X}''
               (W (r_u32 ctx 11) # map (\<lambda>offset. W (entry offset)) [1840, 1844, 1848, 1852, 1856, 1860, 1864]),
             Log Info ''Xbox service dispatch populated={} nearest to +1852: +{}=0x{:08X}, +{}=0x{:08X}''
               (W (of_nat (length populated)) # nearest last before @ nearest hd after),
             Log Info ''Xbox service dispatch outside PolCore entries={}'' [W (of_nat (length outside))],
             Log Info ''Xbox service dispatch +1852 constructor call argument=0x{:08X} target=0x{:08X}''
               [W (r_u32 ctx 3), W (r_u32 ctx 10)]]\<rparr>"
proof -
  have st: "st\<lparr>logged := logged st\<rparr> = st" by simp
  have load: "load_word rm (st\<lparr>logged := l\<rparr>) a = load_word rm st a" for l a by (simp add: load_word_def)
  show ?thesis
    unfolding Let_def trace_service_dispatch_def
      scan_dispatch_table_eq [where l = "logged st" and st = st, unfolded st]
    by (simp add: write_log_def load conj_commute)
qed

end
