(* ===== verification/State_Trace.thy ===== *)
theory State_Trace
  imports Rounds Pol_Resolver
begin

text \<open>
  The state trace of \<^verbatim>\<open>src/runtime/lobby_bridge.cpp\<close>: a thread that waits for the lobby module and its
  controller, then logs the controller's state each time it changes, at most 128 times, until it is
  asked to stop.  The thread sees a world that moves on while it yields or sleeps; what it can
  observe of it is the parameter \<open>trace_view\<close>.
\<close>

section \<open>The control state\<close>

record LobbyControlState =
  initialization_started :: u8
  initialization_count :: u8
  update_stage :: u32
  flow_state :: u32
  flow_condition :: u32
  current_state :: u32
  prior_state :: u32
  readiness_state :: u32
  active :: u32

text \<open>\<^verbatim>\<open>operator==\<close> compares the tuples of all nine members.\<close>

definition Tie :: "LobbyControlState \<Rightarrow> u8 \<times> u8 \<times> u32 \<times> u32 \<times> u32 \<times> u32 \<times> u32 \<times> u32 \<times> u32" where
  "Tie s = (initialization_started s, initialization_count s, update_stage s, flow_state s, flow_condition s,
     current_state s, prior_state s, readiness_state s, active s)"

definition ReadGuest32 :: "rex_memory \<Rightarrow> host_memory \<Rightarrow> u32 \<Rightarrow> u32" where
  "ReadGuest32 rm h address = load_and_swap32 rm h (TranslateVirtual rm address)"

definition ReadGuest8 :: "rex_memory \<Rightarrow> host_memory \<Rightarrow> u32 \<Rightarrow> u8" where
  "ReadGuest8 rm h address = h (TranslateVirtual rm address)"

definition ReadLobbyControlState :: "rex_memory \<Rightarrow> host_memory \<Rightarrow> u32 \<Rightarrow> LobbyControlState option" where
  "ReadLobbyControlState rm h object =
     (if object = 0 \<or> object > 0xFFFFFFFF - 156 then None
      else Some
        \<lparr>initialization_started = ReadGuest8 rm h object,
         initialization_count = ReadGuest8 rm h (object + 2),
         update_stage = ReadGuest32 rm h (object + 8),
         flow_state = ReadGuest32 rm h (object + 12),
         flow_condition = ReadGuest32 rm h (object + 20),
         current_state = ReadGuest32 rm h (object + 136),
         prior_state = ReadGuest32 rm h (object + 140),
         readiness_state = ReadGuest32 rm h (object + 144),
         active = ReadGuest32 rm h (object + 152)\<rparr>)"

section \<open>The thread\<close>

text \<open>
  \<open>stop_asked\<close> and \<open>module_loaded\<close> answer in a world; \<open>controller\<close> is the pair of globals the hooks set,
  \<open>guest_memory_at\<close> the guest's memory; \<open>yielded\<close> and \<open>slept_ms\<close> are the world after a yield or a sleep.
\<close>

record 'w trace_view =
  stop_asked :: "'w \<Rightarrow> bool"
  module_loaded :: "u32 \<Rightarrow> 'w \<Rightarrow> bool"
  controller :: "'w \<Rightarrow> bool \<times> u32"
  guest_memory_at :: "'w \<Rightarrow> host_memory"
  yielded :: "'w \<Rightarrow> 'w"
  slept_ms :: "nat \<Rightarrow> 'w \<Rightarrow> 'w"

abbreviation (input) kLobbyModuleSentinel :: u32 where "kLobbyModuleSentinel \<equiv> 0x841ACC88"
abbreviation (input) kMaximumChanges :: nat where "kMaximumChanges \<equiv> 128"

definition await_module :: "'w trace_view \<Rightarrow> 'w \<Rightarrow> ('w + 'w) option" where
  "await_module tv w =
     Some (if \<not> stop_asked tv w \<and> \<not> module_loaded tv kLobbyModuleSentinel w then Inl (yielded tv w) else Inr w)"

definition await_controller :: "'w trace_view \<Rightarrow> 'w \<Rightarrow> ('w + 'w) option" where
  "await_controller tv w =
     Some (if \<not> stop_asked tv w \<and> \<not> fst (controller tv w) then Inl (slept_ms tv 1 w) else Inr w)"

definition control_state_line :: "LobbyControlState \<Rightarrow> log_line" where
  "control_state_line s = Log Info
     ''Xbox lobby control state: init_started={} init_count={} offset8={} offset12={} offset20={} offset136={} offset140={} offset144={} offset152={}''
     [U (ucast (initialization_started s)), U (ucast (initialization_count s)), W (update_stage s), W (flow_state s),
      W (flow_condition s), W (current_state s), W (prior_state s), W (readiness_state s), W (active s)]"

text \<open>The state of the last loop: \<^verbatim>\<open>previous\<close>, \<^verbatim>\<open>changes\<close>, the lines logged and the world.\<close>

type_synonym 'w watch = "LobbyControlState option \<times> nat \<times> log_line list \<times> 'w"

definition watch_round :: "'w trace_view \<Rightarrow> rex_memory \<Rightarrow> u32 \<Rightarrow> 'w watch \<Rightarrow> ('w watch + 'w watch) option" where
  "watch_round tv rm object = (\<lambda>(previous, changes, lines, w).
     if \<not> (\<not> stop_asked tv w \<and> changes < kMaximumChanges) then Some (Inr (previous, changes, lines, w))
     else
       let current = ReadLobbyControlState rm (guest_memory_at tv w) object;
           (previous, changes, lines) =
             (case current of
                Some s \<Rightarrow>
                  if previous = None \<or> Tie s \<noteq> Tie (the previous)
                  then (current, changes + 1, lines @ [control_state_line s])
                  else (previous, changes, lines)
              | None \<Rightarrow> (previous, changes, lines))
       in Some (Inl (previous, changes, lines, slept_ms tv 1 w)))"

definition state_trace_thread :: "'w trace_view \<Rightarrow> rex_memory \<Rightarrow> 'w \<Rightarrow> (log_line list \<times> 'w) option" where
  "state_trace_thread tv rm w = do {
     w \<leftarrow> rounds (await_module tv) w;
     if stop_asked tv w then Some ([], w)
     else do {
       w \<leftarrow> rounds (await_controller tv) w;
       if stop_asked tv w then Some ([], w)
       else do {
         let lines = [Log Info ''Xbox lobby control trace armed'' []];
         let object = snd (controller tv w);
         (previous, changes, lines, w) \<leftarrow> rounds (watch_round tv rm object) (None, 0, lines, w);
         Some (if changes = kMaximumChanges
               then lines @ [Log Info ''Xbox lobby control trace reached its change limit'' []] else lines, w)
       }
     }
   }"

text \<open>\<^verbatim>\<open>StartStateTrace\<close>: whether the thread is started; \<^verbatim>\<open>StopStateTrace\<close>: the hooks off, and the thread joined.\<close>

definition StartStateTrace :: "bool \<Rightarrow> bool \<Rightarrow> bool \<Rightarrow> bool" where
  "StartStateTrace trace_enabled has_runtime joinable \<longleftrightarrow> \<not> (\<not> trace_enabled \<or> \<not> has_runtime \<or> joinable)"

definition StopStateTrace :: "bool \<Rightarrow> runtime \<Rightarrow> bool \<times> runtime" where
  "StopStateTrace joinable st = (joinable, RevanaSetGuestTraceHooksEnabled False st)"

section \<open>The thread ends and what it has logged\<close>

text \<open>The stop request arrives: while there is none, a yield or a sleep brings it nearer.\<close>

definition stop_arrives :: "'w trace_view \<Rightarrow> ('w \<Rightarrow> nat) \<Rightarrow> bool" where
  "stop_arrives tv budget \<longleftrightarrow> (\<forall>w. \<not> stop_asked tv w \<longrightarrow>
     budget (yielded tv w) < budget w \<and> budget (slept_ms tv 1 w) < budget w)"

lemma await_module_returns:
  assumes "stop_arrives tv budget" shows "rounds (await_module tv) w \<noteq> None"
  by (rule rounds_returns [where I = "\<lambda>_. True" and m = "\<lambda>w. (budget w, 0)"])
     (use assms in \<open>auto simp: await_module_def stop_arrives_def split: if_splits\<close>)

lemma await_controller_returns:
  assumes "stop_arrives tv budget" shows "rounds (await_controller tv) w \<noteq> None"
  by (rule rounds_returns [where I = "\<lambda>_. True" and m = "\<lambda>w. (budget w, 0)"])
     (use assms in \<open>auto simp: await_controller_def stop_arrives_def split: if_splits\<close>)

lemma watch_returns:
  assumes "stop_arrives tv budget"
  shows "rounds (watch_round tv rm object) s \<noteq> None"
  by (rule rounds_returns [where I = "\<lambda>_. True" and m = "\<lambda>(previous, changes, lines, w). (budget w, 0)"])
     (use assms in \<open>auto simp: watch_round_def stop_arrives_def Let_def split: if_splits option.splits\<close>)

lemma Tie_eq: "Tie s = Tie t \<longleftrightarrow> s = t"
  by (cases s; cases t) (auto simp: Tie_def)

text \<open>The states the watch has logged.\<close>

definition watched :: "'w trace_view \<Rightarrow> rex_memory \<Rightarrow> u32 \<Rightarrow> LobbyControlState list \<Rightarrow> 'w watch \<Rightarrow> bool" where
  "watched tv rm object ss = (\<lambda>(previous, changes, lines, w).
     lines = Log Info ''Xbox lobby control trace armed'' [] # map control_state_line ss \<and> changes = length ss \<and>
     length ss \<le> 128 \<and> previous = (if ss = [] then None else Some (last ss)) \<and> distinct_adj ss \<and>
     (\<forall>s \<in> set ss. \<exists>w. ReadLobbyControlState rm (guest_memory_at tv w) object = Some s))"

lemma watch_round_watched:
  assumes "watched tv rm object ss s" "watch_round tv rm object s = Some (Inl s')"
  shows "\<exists>ss. watched tv rm object ss s'"
proof -
  obtain previous changes lines w where s: "s = (previous, changes, lines, w)" by (cases s) auto
  show ?thesis
  proof (cases "ReadLobbyControlState rm (guest_memory_at tv w) object")
    case None
    with assms s show ?thesis by (auto simp: watch_round_def watched_def Let_def split: if_splits)
  next
    case (Some c)
    show ?thesis
    proof (cases "previous = None \<or> c \<noteq> the previous")
      case True
      with Some assms s have "watched tv rm object (ss @ [c]) s'"
        by (auto simp: watch_round_def watched_def Let_def Tie_eq distinct_adj_append_iff split: if_splits)
      then show ?thesis by blast
    next
      case False
      with Some assms s show ?thesis
        by (auto simp: watch_round_def watched_def Let_def Tie_eq split: if_splits)
    qed
  qed
qed

lemma watch_result:
  assumes "rounds (watch_round tv rm object) (None, 0, [Log Info ''Xbox lobby control trace armed'' []], w) =
      Some (previous, changes, lines, w')"
  shows "\<exists>ss. watched tv rm object ss (previous, changes, lines, w') \<and> (stop_asked tv w' \<or> length ss = 128)"
proof (rule rounds_invariant [OF assms, where I = "\<lambda>s. \<exists>ss. watched tv rm object ss s" and
      Q = "\<lambda>(previous, changes, lines, w'). \<exists>ss. watched tv rm object ss (previous, changes, lines, w') \<and>
        (stop_asked tv w' \<or> length ss = 128)", unfolded prod.case])
  show "\<exists>ss. watched tv rm object ss (None, 0, [Log Info ''Xbox lobby control trace armed'' []], w)"
    by (intro exI [of _ "[]"]) (simp add: watched_def)
next
  fix s s'
  assume "\<exists>ss. watched tv rm object ss s" "watch_round tv rm object s = Some (Inl s')"
  then show "\<exists>ss. watched tv rm object ss s'" using watch_round_watched by blast
next
  fix s r :: "'a watch"
  assume seen: "\<exists>ss. watched tv rm object ss s" and stop: "watch_round tv rm object s = Some (Inr r)"
  obtain previous changes lines w where s: "s = (previous, changes, lines, w)" by (cases s) auto
  from stop s have "r = s" "stop_asked tv w \<or> \<not> changes < 128"
    by (auto simp: watch_round_def Let_def split: if_splits option.splits prod.splits)
  moreover from seen s obtain ss where ss: "watched tv rm object ss (previous, changes, lines, w)" by blast
  moreover from ss have "changes = length ss" "length ss \<le> 128" by (simp_all add: watched_def)
  ultimately show "case r of (previous, changes, lines, w') \<Rightarrow> \<exists>ss. watched tv rm object ss (previous, changes, lines, w') \<and>
      (stop_asked tv w' \<or> length ss = 128)"
    unfolding \<open>r = s\<close> s prod.case by (intro exI [of _ ss]) linarith
qed

text \<open>
  C22: the trace thread ends once it is asked to stop, and its log is bounded and says what happened:
  nothing, or the arming line, then at most 128 states of the controller, each read from the guest's
  memory and different from the one before, then the limit line exactly when there are 128; without a
  stop request it only ends at the limit.
\<close>

theorem state_trace_bounded:
  assumes "stop_arrives tv budget"
  shows "\<exists>lines w'. state_trace_thread tv rm w = Some (lines, w') \<and>
    (lines = [] \<and> stop_asked tv w' \<or>
     (\<exists>ss object. lines = Log Info ''Xbox lobby control trace armed'' [] # map control_state_line ss @
          (if length ss = 128 then [Log Info ''Xbox lobby control trace reached its change limit'' []] else []) \<and>
        length ss \<le> 128 \<and> distinct_adj ss \<and> (stop_asked tv w' \<or> length ss = 128) \<and>
        (\<forall>s \<in> set ss. \<exists>w. ReadLobbyControlState rm (guest_memory_at tv w) object = Some s)))"
proof -
  obtain w1 where w1: "rounds (await_module tv) w = Some w1" using await_module_returns [OF assms] by blast
  obtain w2 where w2: "rounds (await_controller tv) w1 = Some w2" using await_controller_returns [OF assms] by blast
  let ?object = "snd (controller tv w2)"
  obtain previous changes lines w3 where
    w3: "rounds (watch_round tv rm ?object) (None, 0, [Log Info ''Xbox lobby control trace armed'' []], w2) =
      Some (previous, changes, lines, w3)"
    using watch_returns [OF assms] by (metis not_None_eq surj_pair)
  from watch_result [OF w3] obtain ss where ss: "watched tv rm ?object ss (previous, changes, lines, w3)"
    "stop_asked tv w3 \<or> length ss = 128" by blast
  show ?thesis
  proof (cases "stop_asked tv w1 \<or> stop_asked tv w2")
    case True
    with w1 w2 show ?thesis by (auto simp: state_trace_thread_def)
  next
    case False
    let ?lines = "Log Info ''Xbox lobby control trace armed'' [] # map control_state_line ss @
          (if length ss = 128 then [Log Info ''Xbox lobby control trace reached its change limit'' []] else [])"
    from False w1 w2 w3 ss(1) have "state_trace_thread tv rm w = Some (?lines, w3)"
      by (auto simp: state_trace_thread_def watched_def Let_def)
    with ss show ?thesis by (auto simp: watched_def intro!: exI [of _ ss] exI [of _ ?object])
  qed
qed

text \<open>A world that is asked to stop after three steps, with a loaded module and a controller at 256.\<close>

definition sample_view :: "nat trace_view" where
  "sample_view = \<lparr>stop_asked = (\<lambda>w. 3 \<le> w), module_loaded = (\<lambda>_ _. True), controller = (\<lambda>_. (True, 256)),
     guest_memory_at = (\<lambda>w a. of_nat w), yielded = Suc, slept_ms = (\<lambda>_. Suc)\<rparr>"

theorem state_trace_bounded_witness:
  "\<exists>lines w'. state_trace_thread sample_view flat_memory 0 = Some (lines, w') \<and> length lines \<le> 130"
proof -
  have "stop_arrives sample_view (\<lambda>w. 3 - w)" by (auto simp: stop_arrives_def sample_view_def)
  from state_trace_bounded [OF this, of flat_memory 0] obtain lines w' where
    "state_trace_thread sample_view flat_memory 0 = Some (lines, w')"
    "lines = [] \<or> (\<exists>ss. lines = Log Info ''Xbox lobby control trace armed'' [] # map control_state_line ss @
          (if length ss = 128 then [Log Info ''Xbox lobby control trace reached its change limit'' []] else []) \<and>
        length ss \<le> 128)" by blast
  then show ?thesis by (intro exI [of _ lines] exI [of _ w']) (auto split: if_splits)
qed

text \<open>Stopping the trace turns the hooks off, so no guest hook logs afterwards.\<close>

lemma StopStateTrace_off:
  "\<not> hooks_enabled (trace (snd (StopStateTrace joinable st)))"
  by (simp add: StopStateTrace_def RevanaSetGuestTraceHooksEnabled_def)

end
