(* ===== verification/Lobby_Parse.thy ===== *)
theory Lobby_Parse
  imports Lobby_Packets
begin

text \<open>
  Correctness of the packet validation of \<^verbatim>\<open>src/login/lobby_packets.cpp\<close>: no input makes a parser
  read outside its span; what a parser accepts is a sealed packet, one whose identifier field is
  the MD5 digest of the packet with that field zeroed; and every sealed packet of the right
  shape is accepted with the values it carries.
\<close>

section \<open>The header\<close>

definition has_header :: "bytes \<Rightarrow> u32 \<Rightarrow> u32 \<Rightarrow> bool" where
  "has_header bs packet_size command \<longleftrightarrow>
     ReadLe32 bs 0 = Some packet_size \<and> ReadLe32 bs 4 = Some kLobbyTerminator \<and> ReadLe32 bs 8 = Some command"

lemma ValidateLobbyHeader_total: "12 \<le> m \<Longrightarrow> ValidateLobbyHeader bs command m \<noteq> None"
  by (auto simp: ValidateLobbyHeader_def ReadLe32_eq)

lemma ValidateLobbyHeader_Inr:
  "12 \<le> m \<Longrightarrow> ValidateLobbyHeader bs command m = Some (Inr n) \<longleftrightarrow>
     has_header bs n command \<and> m \<le> unat n \<and> unat n \<le> length bs"
  by (auto simp: ValidateLobbyHeader_def ReadLe32_eq has_header_def)

lemma ValidateLobbyHeader_cases:
  assumes "12 \<le> m"
  obtains (error) e where "ValidateLobbyHeader bs command m = Some (Inl e)"
    | (ok) n where "ValidateLobbyHeader bs command m = Some (Inr n)"
      "has_header bs n command" "m \<le> unat n" "unat n \<le> length bs"
  using ValidateLobbyHeader_total [OF assms, of bs command] ValidateLobbyHeader_Inr [OF assms, of bs command]
  by (cases "ValidateLobbyHeader bs command m") (auto split: sum.splits, metis sum.exhaust)

section \<open>The identifier\<close>

text \<open>The bytes that are hashed: the packet with its identifier field zeroed.\<close>

definition identifier_input :: "bytes \<Rightarrow> bytes" where
  "identifier_input packet = take 12 packet @ replicate 16 0 @ drop 28 packet"

definition sealed_with :: "(bytes \<Rightarrow> bytes) \<Rightarrow> bytes \<Rightarrow> bool" where
  "sealed_with digest packet \<longleftrightarrow> take 16 (drop 12 packet) = digest (identifier_input packet)"

text \<open>\<^verbatim>\<open>ApplyIdentifier\<close> of the tests: writing the identifier into a packet.\<close>

definition seal :: "(bytes \<Rightarrow> bytes) \<Rightarrow> bytes \<Rightarrow> bytes" where
  "seal digest packet = take 12 packet @ digest (identifier_input packet) @ drop 28 packet"

lemma identifier_input_seal:
  "28 \<le> length packet \<Longrightarrow> length (digest (identifier_input packet)) = 16 \<Longrightarrow>
     identifier_input (seal digest packet) = identifier_input packet"
  by (simp add: identifier_input_def seal_def)

lemma sealed_seal:
  "28 \<le> length packet \<Longrightarrow> length (digest (identifier_input packet)) = 16 \<Longrightarrow>
     sealed_with digest (seal digest packet)"
  unfolding sealed_with_def identifier_input_seal by (simp add: seal_def)

lemma seal_unique:
  assumes "sealed_with digest packet" "28 \<le> length packet"
  shows "seal digest packet = packet"
proof -
  have "drop 28 packet = drop 16 (drop 12 packet)" by (simp add: add.commute)
  then have "packet = take 12 packet @ take 16 (drop 12 packet) @ drop 28 packet"
    by (metis append_take_drop_id)
  then show ?thesis using assms(1) by (simp add: seal_def sealed_with_def)
qed

context md5_service
begin

lemma ValidateLobbyIdentifier_result:
  assumes "ReadLe32 bs 0 = Some n" "28 \<le> unat n" "unat n \<le> length bs"
  shows "ValidateLobbyIdentifier bc bs (unat n) = Some (Inl kChecksumUnavailable) \<or>
         ValidateLobbyIdentifier bc bs (unat n) =
           Some (if sealed_with digest (take (unat n) bs) then Inr () else Inl kInvalidIdentifier)"
proof -
  let ?p = "take (unat n) bs"
  have r: "ReadLe32 ?p 0 = Some n" using assms by (auto simp: ReadLe32_eq split: if_splits)
  have input: "fill_range ?p 12 28 0 = Some (identifier_input ?p)"
    using assms by (simp add: fill_range_Some identifier_input_def min_def)
  obtain ok d calls where m: "CalculateMd5 bc (identifier_input ?p) (replicate 16 0) = (ok, d, calls)"
    by (cases "CalculateMd5 bc (identifier_input ?p) (replicate 16 0)")
  have calc: "CalculateLobbyIdentifier bc ?p =
      Some (if ok then Inr d else Inl kChecksumUnavailable)"
    using assms r input m by (simp add: CalculateLobbyIdentifier_def sub_range_def)
  show ?thesis
  proof (cases ok)
    case True
    then have d: "d = digest (identifier_input ?p)" using m by (intro CalculateMd5_success) auto
    then have l: "length d = 16" by (simp add: digest_length)
    have "sub_range bs 12 (length d) = Some (take 16 (drop 12 bs))"
      using l assms by (simp add: sub_range_def)
    moreover have "take 16 (drop 12 ?p) = take 16 (drop 12 bs)" using assms by (simp add: drop_take)
    ultimately show ?thesis using True calc d assms
      by (auto simp: ValidateLobbyIdentifier_def sub_range_def sealed_with_def)
  next
    case False
    then show ?thesis using calc assms by (simp add: ValidateLobbyIdentifier_def sub_range_def)
  qed
qed

end

context md5_available
begin

lemma ValidateLobbyIdentifier_available:
  assumes "ReadLe32 bs 0 = Some n" "28 \<le> unat n" "unat n \<le> length bs"
  shows "ValidateLobbyIdentifier bc bs (unat n) =
           Some (if sealed_with digest (take (unat n) bs) then Inr () else Inl kInvalidIdentifier)"
proof -
  let ?p = "take (unat n) bs"
  have r: "ReadLe32 ?p 0 = Some n" using assms by (auto simp: ReadLe32_eq split: if_splits)
  have input: "fill_range ?p 12 28 0 = Some (identifier_input ?p)"
    using assms by (simp add: fill_range_Some identifier_input_def min_def)
  obtain calls where "CalculateMd5 bc (identifier_input ?p) (replicate 16 0) =
      (True, digest (identifier_input ?p), calls)"
    using CalculateMd5_available [of "replicate 16 0"] by auto
  then have "CalculateLobbyIdentifier bc ?p = Some (Inr (digest (identifier_input ?p)))"
    using assms r input by (simp add: CalculateLobbyIdentifier_def sub_range_def)
  then have "ValidateLobbyIdentifier bc bs (unat n) \<noteq> Some (Inl kChecksumUnavailable)"
    using assms by (auto simp: ValidateLobbyIdentifier_def sub_range_def digest_length)
  then show ?thesis using ValidateLobbyIdentifier_result [OF assms] by blast
qed

end

section \<open>The key response\<close>

definition packet_header :: "u32 \<Rightarrow> u32 \<Rightarrow> bytes" where
  "packet_header packet_size command =
     le32_bytes packet_size @ le32_bytes kLobbyTerminator @ le32_bytes command"

definition encode_key_response :: "(bytes \<Rightarrow> bytes) \<Rightarrow> KeyResponse \<Rightarrow> bytes" where
  "encode_key_response digest r =
     seal digest (packet_header 40 0x05 @ replicate 16 0 @ le32_bytes (response_key r)
       @ le32_bytes (expansion_mask r) @ le32_bytes (feature_mask r))"

lemma length_packet_header [simp]: "length (packet_header n c) = 12"
  by (simp add: packet_header_def)

lemma has_header_iff:
  "12 \<le> length bs \<Longrightarrow> has_header bs n c \<longleftrightarrow> take 12 bs = packet_header n c"
proof -
  assume l: "12 \<le> length bs"
  have s: "take 12 bs = take 4 (drop 0 bs) @ take 4 (drop 4 bs) @ take 4 (drop 8 bs)"
    using take_add [of 4 8 bs] take_add [of 4 4 "drop 4 bs"] by simp
  show ?thesis using l
    unfolding has_header_def ReadLe32_iff packet_header_def s by (auto simp: append_eq_append_conv)
qed

lemma has_header_take:
  "has_header (take m bs) n c \<longleftrightarrow> has_header bs n c" if "12 \<le> m" "12 \<le> length bs"
  using that by (simp add: has_header_iff min_def)

lemma sealed_take_iff:
  assumes "28 \<le> length p" "\<And>bs. length (digest bs) = 16"
  shows "(take 12 p = h \<and> drop 28 p = body \<and> sealed_with digest p) \<longleftrightarrow>
           (length h = 12 \<and> p = seal digest (h @ replicate 16 0 @ body))"
proof
  assume l: "take 12 p = h \<and> drop 28 p = body \<and> sealed_with digest p"
  then have h: "length h = 12" using assms(1) by auto
  have "seal digest (h @ replicate 16 0 @ body) = seal digest p"
    using l h by (simp add: seal_def identifier_input_def)
  then show "length h = 12 \<and> p = seal digest (h @ replicate 16 0 @ body)"
    using l h seal_unique [of digest p] assms(1) by simp
next
  assume r: "length h = 12 \<and> p = seal digest (h @ replicate 16 0 @ body)"
  then show "take 12 p = h \<and> drop 28 p = body \<and> sealed_with digest p"
    using assms(2) sealed_seal [of "h @ replicate 16 0 @ body" digest] by (auto simp: seal_def)
qed

context md5_available
begin

lemma ParseKeyResponse_iff:
  "ParseKeyResponse bc bs = Some (Inr r) \<longleftrightarrow> take 40 bs = encode_key_response digest r"
    (is "?parse \<longleftrightarrow> ?enc")
proof -
  define body where "body = le32_bytes (response_key r) @ le32_bytes (expansion_mask r)
    @ le32_bytes (feature_mask r)"
  have enc: "encode_key_response digest r = seal digest (packet_header 40 5 @ replicate 16 0 @ body)"
    by (simp add: encode_key_response_def body_def)
  have fields: "drop 28 (take 40 bs) = body \<longleftrightarrow>
      ReadLe32 bs 28 = Some (response_key r) \<and> ReadLe32 bs 32 = Some (expansion_mask r) \<and>
      ReadLe32 bs 36 = Some (feature_mask r)" if "40 \<le> length bs"
  proof -
    have "drop 28 (take 40 bs) = take 4 (drop 28 bs) @ take 4 (drop 32 bs) @ take 4 (drop 36 bs)"
      using take_add [of 4 8 "drop 28 bs"] take_add [of 4 4 "drop 32 bs"] by (simp add: drop_take)
    then show ?thesis using that unfolding body_def ReadLe32_iff by (auto simp: append_eq_append_conv)
  qed
  show ?thesis
  proof (cases "40 \<le> length bs \<and> has_header bs 40 5")
    case True
    then have l: "40 \<le> length bs" and h: "has_header bs 40 5" by auto
    have hdr: "ValidateLobbyHeader bs 5 40 = Some (Inr 40)"
      using l h ValidateLobbyHeader_Inr [of 40 bs 5 40] by simp
    have sz: "ReadLe32 bs 0 = Some 40" using h by (simp add: has_header_def)
    note idr = ValidateLobbyIdentifier_available [OF sz, simplified, OF l]
    have t12: "take 12 (take 40 bs) = packet_header 40 5" using h l by (simp add: has_header_iff min_def)
    have "?parse \<longleftrightarrow> sealed_with digest (take 40 bs) \<and> drop 28 (take 40 bs) = body"
      unfolding fields [OF l] using l hdr idr
      by (auto simp: ParseKeyResponse_def ReadLe32_eq)
    also have "\<dots> \<longleftrightarrow> ?enc"
      unfolding enc
      using sealed_take_iff [of "take 40 bs" digest "packet_header 40 5" body] l t12 digest_length
      by auto
    finally show ?thesis .
  next
    case False
    have "n = 40" if "unat n = 40" for n :: u32 using that by (simp add: word_unat_eq_iff)
    then have "\<not> ?parse"
      using False
      by (cases rule: ValidateLobbyHeader_cases [of 40 bs 5, simplified])
        (auto simp: ParseKeyResponse_def)
    moreover have "\<not> ?enc"
    proof
      assume e: "?enc"
      have "length (encode_key_response digest r) = 40"
        by (simp add: enc seal_def digest_length body_def)
      with e have l: "40 \<le> length bs" by (metis length_take min_def nat_le_linear)
      have "take 12 (take 40 bs) = packet_header 40 5" unfolding e enc by (simp add: seal_def)
      with l have "has_header bs 40 5" by (simp add: has_header_iff min_def)
      with l False show False by simp
    qed
    ultimately show ?thesis by blast
  qed
qed

end
section \<open>The character list\<close>

text \<open>
  A list packet carries up to sixteen 140-byte entries.  The parser reads the content id, the
  status and the name of each; the other bytes of an entry are the server's.
\<close>

definition summary_of :: "bytes \<Rightarrow> CharacterSummary" where
  "summary_of e =
     \<lparr>content_id = le32 (e ! 0) (e ! 1) (e ! 2) (e ! 3), char_status = le16 (e ! 8) (e ! 9),
      char_name = takeWhile (\<lambda>b. b \<noteq> 0) (take 16 (drop 12 e))\<rparr>"

definition encode_character_list :: "(bytes \<Rightarrow> bytes) \<Rightarrow> bytes list \<Rightarrow> bytes" where
  "encode_character_list digest es =
     seal digest (packet_header (of_nat (32 + 140 * length es)) 0x20 @ replicate 16 0
       @ le32_bytes (of_nat (length es)) @ concat es)"

fun chunks :: "nat \<Rightarrow> nat \<Rightarrow> 'a list \<Rightarrow> 'a list list" where
  "chunks w 0 xs = []"
| "chunks w (Suc n) xs = take w xs # chunks w n (drop w xs)"

lemma length_chunks [simp]: "length (chunks w n xs) = n"
  by (induction w n xs rule: chunks.induct) auto

lemma concat_chunks: "length xs = w * n \<Longrightarrow> concat (chunks w n xs) = xs"
  by (induction w n xs rule: chunks.induct) auto

lemma chunks_width: "length xs = w * n \<Longrightarrow> e \<in> set (chunks w n xs) \<Longrightarrow> length e = w"
  by (induction w n xs rule: chunks.induct) auto

lemma chunks_concat: "\<forall>e \<in> set es. length e = w \<Longrightarrow> chunks w (length es) (concat es @ ys) = es"
  by (induction es) auto

lemma length_concat_width: "\<forall>e \<in> set es. length e = w \<Longrightarrow> length (concat es) = w * length es"
  by (induction es) auto

lemma ParseCharacterEntry_eq:
  assumes "32 + 140 * i + 140 \<le> length bs"
  shows "ParseCharacterEntry bs i = Some (summary_of (take 140 (drop (32 + 140 * i) bs)))"
  using assms
  by (simp add: ParseCharacterEntry_def Let_def sub_range_def ReadLe32_eq ReadLe16_eq summary_of_def
      drop_take min_def algebra_simps)

lemma ParseCharacterEntries_eq:
  "32 + 140 * (i + n) \<le> length bs \<Longrightarrow>
     ParseCharacterEntries bs i n = Some (map summary_of (chunks 140 n (drop (32 + 140 * i) bs)))"
proof (induction n arbitrary: i)
  case (Suc n)
  from Suc.prems have "ParseCharacterEntry bs i = Some (summary_of (take 140 (drop (32 + 140 * i) bs)))"
    by (intro ParseCharacterEntry_eq) simp
  moreover from Suc.prems have "ParseCharacterEntries bs (Suc i) n =
      Some (map summary_of (chunks 140 n (drop (32 + 140 * Suc i) bs)))" by (intro Suc.IH) simp
  ultimately show ?case by (simp add: algebra_simps)
qed simp

lemma length_encode_character_list:
  "(\<And>bs. length (digest bs) = 16) \<Longrightarrow> \<forall>e \<in> set es. length e = 140 \<Longrightarrow>
     length (encode_character_list digest es) = 32 + 140 * length es"
  by (simp add: encode_character_list_def seal_def length_concat_width)

lemma chunks_take: "w * n \<le> m \<Longrightarrow> chunks w n (take m xs) = chunks w n xs"
  by (induction w n xs arbitrary: m rule: chunks.induct) (auto simp: drop_take min_def)

text \<open>The guards of the parser, before the digest is looked at.\<close>

lemma ParseCharacterList_guarded:
  assumes "has_header bs n 0x20" "ReadLe32 bs 28 = Some c" "unat c \<le> 16"
    and "unat n = 32 + 140 * unat c" "unat n \<le> length bs"
  shows "ParseCharacterList bc bs =
     do {
       identifier \<leftarrow> ValidateLobbyIdentifier bc bs (unat n);
       Some (map_sum id (\<lambda>_. \<lparr>characters = map summary_of (chunks 140 (unat c) (drop 32 bs))\<rparr>) identifier)
     }"
proof -
  have "ValidateLobbyHeader bs 0x20 32 = Some (Inr n)"
    using assms ValidateLobbyHeader_Inr [of 32 bs "0x20" n] by simp
  moreover have "\<not> 16 < c" using assms(3) by (simp add: word_less_nat_alt)
  moreover have "ParseCharacterEntries bs 0 (unat c) = Some (map summary_of (chunks 140 (unat c) (drop 32 bs)))"
    using ParseCharacterEntries_eq [of 0 "unat c" bs] assms by simp
  ultimately show ?thesis using assms
    by (cases "ValidateLobbyIdentifier bc bs (unat n)") (auto simp: ParseCharacterList_def split: sum.split)
qed

lemma ParseCharacterList_Inr_guards:
  assumes "ParseCharacterList bc bs = Some (Inr r)"
  obtains n c where "has_header bs n 0x20" "ReadLe32 bs 28 = Some c" "unat c \<le> 16"
    "unat n = 32 + 140 * unat c" "unat n \<le> length bs"
proof (cases rule: ValidateLobbyHeader_cases [of 32 bs "0x20", simplified])
  case (1 e)
  with assms show thesis by (simp add: ParseCharacterList_def)
next
  case (2 n)
  then obtain c where c: "ReadLe32 bs 28 = Some c" by (simp add: ReadLe32_eq)
  with 2 assms have "\<not> 16 < c" "unat n = 32 + 140 * unat c"
    by (auto simp: ParseCharacterList_def split: if_splits)
  with 2 c show thesis by (intro that) (auto simp: word_less_nat_alt)
qed

lemma ParseCharacterList_no_overrun:
  assumes "md5_service bc digest"
  shows "ParseCharacterList bc bs \<noteq> None"
proof (cases rule: ValidateLobbyHeader_cases [of 32 bs "0x20", simplified])
  case (1 e)
  then show ?thesis by (simp add: ParseCharacterList_def)
next
  case (2 n)
  then obtain c where c: "ReadLe32 bs 28 = Some c" by (simp add: ReadLe32_eq)
  show ?thesis
  proof (cases "16 < c \<or> unat n \<noteq> 32 + 140 * unat c")
    case True
    with 2 c show ?thesis by (auto simp: ParseCharacterList_def)
  next
    case False
    with 2 c have "ParseCharacterList bc bs =
       do {
         identifier \<leftarrow> ValidateLobbyIdentifier bc bs (unat n);
         Some (map_sum id (\<lambda>_. \<lparr>characters = map summary_of (chunks 140 (unat c) (drop 32 bs))\<rparr>) identifier)
       }" by (intro ParseCharacterList_guarded) (auto simp: word_less_nat_alt)
    moreover have "ValidateLobbyIdentifier bc bs (unat n) \<noteq> None"
      using md5_service.ValidateLobbyIdentifier_result [OF assms, of bs n] 2 by (auto simp: has_header_def)
    ultimately show ?thesis by auto
  qed
qed

context md5_available
begin

lemma ParseCharacterList_sound:
  assumes parse: "ParseCharacterList bc bs = Some (Inr r)"
  shows "\<exists>es. length es \<le> 16 \<and> (\<forall>e \<in> set es. length e = 140) \<and>
           take (32 + 140 * length es) bs = encode_character_list digest es \<and>
           r = \<lparr>characters = map summary_of es\<rparr>"
proof -
  from parse obtain n c where g: "has_header bs n 0x20" "ReadLe32 bs 28 = Some c" "unat c \<le> 16"
    "unat n = 32 + 140 * unat c" "unat n \<le> length bs" by (rule ParseCharacterList_Inr_guards)
  let ?p = "take (unat n) bs"
  define es where "es = chunks 140 (unat c) (drop 32 ?p)"
  have rn: "ReadLe32 bs 0 = Some n" using g(1) by (simp add: has_header_def)
  note idr = ValidateLobbyIdentifier_available [OF rn]
  have chunk: "chunks 140 (unat c) (drop 32 bs) = es"
    unfolding es_def using chunks_take [of 140 "unat c" "unat n - 32" "drop 32 bs"] g(4) by (simp add: drop_take)
  have sealed: "sealed_with digest ?p" and r: "r = \<lparr>characters = map summary_of es\<rparr>"
    using parse g idr unfolding ParseCharacterList_guarded [OF g] chunk by (auto split: if_splits)
  have cat: "concat es = drop 32 ?p" unfolding es_def using g by (intro concat_chunks) simp
  have n: "n = of_nat (32 + 140 * unat c)" unfolding g(4) [symmetric] by simp
  have "drop 28 ?p = take 4 (drop 28 ?p) @ drop 32 ?p"
    using append_take_drop_id [of 4 "drop 28 ?p"] by simp
  moreover have "take 4 (drop 28 ?p) = le32_bytes c"
    using g by (simp add: ReadLe32_iff drop_take min_def)
  ultimately have body: "drop 28 ?p = le32_bytes c @ concat es" using cat by simp
  have "take 12 ?p = packet_header n 0x20"
    using g has_header_iff [of bs n "0x20"] by (simp add: min_def)
  then have "?p = seal digest (packet_header n 0x20 @ replicate 16 0 @ le32_bytes c @ concat es)"
    using sealed_take_iff [of ?p digest "packet_header n 0x20" "le32_bytes c @ concat es"]
      body sealed g digest_length by simp
  then have "?p = encode_character_list digest es"
    unfolding encode_character_list_def using n by (simp add: es_def)
  moreover have "length (drop 32 ?p) = 140 * unat c" using g by simp
  then have "\<forall>e \<in> set es. length e = 140" unfolding es_def using chunks_width by blast
  moreover have "length es = unat c" by (simp add: es_def)
  ultimately show ?thesis using g(3,4) r by (intro exI [of _ es]) simp
qed

lemma ParseCharacterList_complete:
  assumes es: "length es \<le> 16" "\<forall>e \<in> set es. length e = 140"
    and tk: "take (32 + 140 * length es) bs = encode_character_list digest es"
  shows "ParseCharacterList bc bs = Some (Inr \<lparr>characters = map summary_of es\<rparr>)"
proof -
  define n :: u32 where "n = of_nat (32 + 140 * length es)"
  define c :: u32 where "c = of_nat (length es)"
  have un: "unat n = 32 + 140 * length es" unfolding n_def using es(1)
    by (intro unat_of_nat_small) simp
  have uc: "unat c = length es" unfolding c_def using es(1) by (intro unat_of_nat_small) simp
  let ?p = "take (unat n) bs"
  have len: "unat n \<le> length bs"
    using arg_cong [OF tk, of length] length_encode_character_list [OF digest_length es(2)] un
    by simp
  have p: "?p = seal digest (packet_header n 0x20 @ replicate 16 0 @ le32_bytes c @ concat es)"
    using tk un by (simp add: encode_character_list_def n_def c_def)
  have l28: "28 \<le> length ?p" using len un by simp
  have "length (packet_header n 0x20) = 12 \<and>
      ?p = seal digest (packet_header n 0x20 @ replicate 16 0 @ le32_bytes c @ concat es)"
    using p by simp
  then have parts: "take 12 ?p = packet_header n 0x20" "drop 28 ?p = le32_bytes c @ concat es"
    "sealed_with digest ?p"
    unfolding sealed_take_iff [OF l28 digest_length, symmetric] by auto
  have g1: "has_header bs n 0x20"
    using parts(1) len un by (simp add: has_header_iff min_def)
  have "take 4 (drop 28 bs) = le32_bytes c"
    using arg_cong [OF parts(2), of "take 4"] un by (simp add: drop_take min_def)
  then have g2: "ReadLe32 bs 28 = Some c" using len un by (simp add: ReadLe32_iff)
  have d32: "drop 32 ?p = concat es"
    using arg_cong [OF parts(2), of "drop 4"] by simp
  have "chunks 140 (unat c) (drop 32 bs) = chunks 140 (unat c) (drop 32 ?p)"
    using chunks_take [of 140 "unat c" "unat n - 32" "drop 32 bs"] un uc by (simp add: drop_take)
  also have "\<dots> = es" unfolding d32 uc using chunks_concat [OF es(2), of "[]"] by simp
  finally have ch: "chunks 140 (unat c) (drop 32 bs) = es" .
  have rn: "ReadLe32 bs 0 = Some n" using g1 by (simp add: has_header_def)
  show ?thesis
    using ParseCharacterList_guarded [OF g1 g2, of bc] ValidateLobbyIdentifier_available [OF rn]
      es(1) uc un len parts(3) ch by simp
qed

lemma ParseCharacterList_iff:
  "ParseCharacterList bc bs = Some (Inr r) \<longleftrightarrow>
     (\<exists>es. length es \<le> 16 \<and> (\<forall>e \<in> set es. length e = 140) \<and>
        take (32 + 140 * length es) bs = encode_character_list digest es \<and>
        r = \<lparr>characters = map summary_of es\<rparr>)"
  using ParseCharacterList_sound ParseCharacterList_complete by blast

end

lemma ParseKeyResponse_no_overrun:
  assumes "md5_service bc digest"
  shows "ParseKeyResponse bc bs \<noteq> None"
proof (cases rule: ValidateLobbyHeader_cases [of 40 bs "0x05", simplified])
  case (1 e)
  then show ?thesis by (simp add: ParseKeyResponse_def)
next
  case (2 n)
  then show ?thesis
    using md5_service.ValidateLobbyIdentifier_result [OF assms, of bs n]
    by (cases "unat n = 40")
      (auto simp: ParseKeyResponse_def has_header_def ReadLe32_eq split: sum.split if_splits)
qed

section \<open>Properties of the parsers\<close>

text \<open>
  C31: no byte sequence a server sends makes \<^verbatim>\<open>ParseKeyResponse\<close> or \<^verbatim>\<open>ParseCharacterList\<close> access
  memory outside the span, whatever the provider answers; a parse always ends with a value or a
  \<^verbatim>\<open>ParseError\<close>.
\<close>

theorem parsers_no_overrun:
  assumes "md5_service bc digest"
  shows "\<exists>key_result list_result. ParseKeyResponse bc bs = Some key_result \<and>
    ParseCharacterList bc bs = Some list_result"
  using ParseKeyResponse_no_overrun [OF assms] ParseCharacterList_no_overrun [OF assms] by blast

theorem parsers_no_overrun_witness:
  "\<exists>r. ParseCharacterList bcrypt_md5 [0x20, 0, 0, 0, 0x49] = Some r"
  using parsers_no_overrun [OF rfc1321.md5_service_axioms, of "[0x20, 0, 0, 0, 0x49]"] by blast

text \<open>
  C18: \<^verbatim>\<open>ParseKeyResponse\<close> accepts exactly the packets whose first 40 bytes are the sealed encoding of
  some key response, and returns that response: the identifier, the size, the terminator and the
  command are all enforced, and the encoding is unambiguous.
\<close>

theorem parse_key_response_exact:
  assumes "md5_available bc digest"
  shows "ParseKeyResponse bc bs = Some (Inr r) \<longleftrightarrow> take 40 bs = encode_key_response digest r"
  by (rule md5_available.ParseKeyResponse_iff [OF assms])

definition sample_key_response :: KeyResponse where
  "sample_key_response = \<lparr>response_key = 0x12345678, expansion_mask = 0x0FFE, feature_mask = 0x19\<rparr>"

theorem parse_key_response_exact_witness:
  "ParseKeyResponse bcrypt_md5 (encode_key_response md5 sample_key_response) = Some (Inr sample_key_response)"
  unfolding parse_key_response_exact [OF rfc1321.md5_available_axioms]
  by (simp add: encode_key_response_def seal_def length_md5)

text \<open>
  C1: \<^verbatim>\<open>ParseCharacterList\<close> accepts exactly the sealed packets of at most sixteen 140-byte entries
  whose size field and entry count agree, and returns the summary of every entry, in order.
\<close>

theorem parse_character_list_exact:
  assumes "md5_available bc digest"
  shows "ParseCharacterList bc bs = Some (Inr r) \<longleftrightarrow>
    (\<exists>es. length es \<le> 16 \<and> (\<forall>e \<in> set es. length e = 140) \<and>
       take (32 + 140 * length es) bs = encode_character_list digest es \<and>
       r = \<lparr>characters = map summary_of es\<rparr>)"
  by (rule md5_available.ParseCharacterList_iff [OF assms])

theorem parse_character_list_exact_witness:
  "ParseCharacterList bcrypt_md5 (encode_character_list md5 [replicate 140 65, replicate 140 66]) =
     Some (Inr \<lparr>characters = map summary_of [replicate 140 65, replicate 140 66]\<rparr>)"
  unfolding parse_character_list_exact [OF rfc1321.md5_available_axioms]
  by (rule exI [of _ "[replicate 140 65, replicate 140 66]"])
     (simp add: encode_character_list_def seal_def length_md5)

end
