(* ===== verification/View_Bootstrap.thy ===== *)
theory View_Bootstrap
  imports World_Receive Lobby_Parse
begin

text \<open>
  The view bootstrap of \<^verbatim>\<open>src/runtime/revana_hooks.cpp\<close>: \<^verbatim>\<open>RevanaConfigureDirectLobbyViewBootstrap\<close>
  arms a login packet, and \<^verbatim>\<open>RevanaTraceFourByteSocketReceive\<close>, which runs before the guest's
  four-byte receives, sends it once on the view socket, holds the guest until the server's key
  response is complete, and watches the packets that follow.

  The sockets are the SDK's: \<open>xsocket\<close> maps the world \<open>'w\<close> before a call to its result and the world
  after it.  The calls of a run are kept in order.
\<close>

section \<open>The sockets\<close>

datatype socket_call =
    Sent bytes int
  | Peeked nat int bytes
  | Slept nat
  | Wiped nat

text \<open>\<open>Recv_peek n w\<close>: the result, and the bytes stored at the start of the buffer of size \<open>n\<close>.\<close>

record 'w xsocket =
  peer_port :: u16
  Send_socket :: "bytes \<Rightarrow> 'w \<Rightarrow> int \<times> 'w"
  Recv_peek :: "nat \<Rightarrow> 'w \<Rightarrow> int \<times> bytes \<times> 'w"

text \<open>\<open>None\<close>: no kernel, or no guest thread.  \<open>provider\<close>: what BCrypt answers in a world.\<close>

record 'w lobby_services =
  LookupObject :: "(u32 \<Rightarrow> 'w \<Rightarrow> 'w xsocket option) option"
  kHandleBase :: u32
  sleep_for :: "nat \<Rightarrow> 'w \<Rightarrow> 'w"
  provider :: "'w \<Rightarrow> bcrypt"
  guest_thread_memory :: "rex_memory option"

type_synonym 'w wire = "'w \<times> socket_call list"

definition send_packet :: "'w xsocket \<Rightarrow> bytes \<Rightarrow> 'w wire \<Rightarrow> int \<times> 'w wire" where
  "send_packet socket packet = (\<lambda>(w, cs).
     let (sent, w) = Send_socket socket packet w in (sent, w, cs @ [Sent packet sent]))"

text \<open>\<open>None\<close>: the call wrote past the buffer it was given.\<close>

definition peek_packet :: "'w xsocket \<Rightarrow> bytes \<Rightarrow> 'w wire \<Rightarrow> (int \<times> bytes \<times> 'w wire) option" where
  "peek_packet socket buffer = (\<lambda>(w, cs).
     let (peeked, bs, w) = Recv_peek socket (length buffer) w in
     if length bs \<le> length buffer
     then Some (peeked, bs @ drop (length bs) buffer, w, cs @ [Peeked (length buffer) peeked bs])
     else None)"

definition sleep_wire :: "'w lobby_services \<Rightarrow> nat \<Rightarrow> 'w wire \<Rightarrow> 'w wire" where
  "sleep_wire sv ms = (\<lambda>(w, cs). (sleep_for sv ms w, cs @ [Slept ms]))"

definition wipe :: "bytes \<Rightarrow> 'w wire \<Rightarrow> 'w wire" where
  "wipe buffer = (\<lambda>(w, cs). (w, cs @ [Wiped (length buffer)]))"

section \<open>The bootstrap\<close>

definition RevanaConfigureDirectLobbyViewBootstrap :: "u16 \<Rightarrow> bytes option \<Rightarrow> runtime \<Rightarrow> bool \<times> runtime" where
  "RevanaConfigureDirectLobbyViewBootstrap view_port packet st =
     (case packet of
        Some bs \<Rightarrow>
          if view_port = 0 \<or> length bs \<noteq> 152
          then (False, REXLOG_ERROR ''Xbox direct view bootstrap configuration is invalid'' [] st)
          else
            let st = st\<lparr>bootstrap := (bootstrap st)
                  \<lparr>bootstrap_packet := bs, bootstrap_port := view_port, request_sent := False,
                   response_ready := False, bootstrap_failed := False\<rparr>,
                 lobby := (lobby st)\<lparr>character_list_ready := False\<rparr>\<rparr>;
                st = st\<lparr>bootstrap := (bootstrap st)\<lparr>bootstrap_enabled := True\<rparr>\<rparr>
            in (True, REXLOG_INFO ''Xbox direct view bootstrap armed for port {}'' [U (ucast view_port)] st)
      | None \<Rightarrow> (False, REXLOG_ERROR ''Xbox direct view bootstrap configuration is invalid'' [] st))"

text \<open>The branch that sends; the exchange has found the request not sent yet.\<close>

definition send_bootstrap :: "'w xsocket \<Rightarrow> runtime \<times> 'w wire \<Rightarrow> runtime \<times> 'w wire" where
  "send_bootstrap socket = (\<lambda>(st, wr).
     let st = st\<lparr>bootstrap := (bootstrap st)\<lparr>request_sent := True\<rparr>\<rparr>;
         (sent, wr) = send_packet socket (bootstrap_packet (bootstrap st)) wr
     in if sent \<noteq> int (length (bootstrap_packet (bootstrap st)))
        then (REXLOG_ERROR ''Xbox direct view bootstrap send failed: sent={} expected={}''
                [S sent, U (of_nat (length (bootstrap_packet (bootstrap st))))]
                (st\<lparr>bootstrap := (bootstrap st)\<lparr>request_sent := False, bootstrap_failed := True\<rparr>\<rparr>), wr)
        else (st\<lparr>bootstrap := (bootstrap st)
                \<lparr>bootstrap_packet := replicate (length (bootstrap_packet (bootstrap st))) 0\<rparr>\<rparr>, wr))"

text \<open>The two waits: \<open>left\<close> is \<^verbatim>\<open>kResponseWaitAttempts - attempt\<close>.\<close>

fun await_key_response ::
  "'w lobby_services \<Rightarrow> 'w xsocket \<Rightarrow> nat \<Rightarrow> bytes \<Rightarrow> 'w wire \<Rightarrow> (bool \<times> bytes \<times> 'w wire) option" where
  "await_key_response sv socket 0 buffer wr = Some (False, buffer, wr)"
| "await_key_response sv socket (Suc left) buffer wr = do {
     (peeked, buffer, wr) \<leftarrow> peek_packet socket buffer wr;
     complete \<leftarrow> (if peeked = int (length buffer) then IsCompleteKeyResponse (provider sv (fst wr)) buffer
                  else Some False);
     if complete then Some (True, buffer, wr)
     else if peeked = 0 then Some (False, buffer, wr)
     else await_key_response sv socket left buffer (sleep_wire sv 10 wr)
   }"

fun await_character_list ::
  "'w lobby_services \<Rightarrow> 'w xsocket \<Rightarrow> nat \<Rightarrow> bytes \<Rightarrow> 'w wire \<Rightarrow> (bool \<times> bytes \<times> 'w wire) option" where
  "await_character_list sv socket 0 buffer wr = Some (False, buffer, wr)"
| "await_character_list sv socket (Suc left) buffer wr = do {
     (peeked, buffer, wr) \<leftarrow> peek_packet socket buffer wr;
     if peeked = int (length buffer)
     then do {
       parsed \<leftarrow> ParseCharacterList (provider sv (fst wr)) buffer;
       Some (case parsed of Inl _ \<Rightarrow> False | Inr _ \<Rightarrow> True, buffer, wr)
     }
     else if peeked = 0 then Some (False, buffer, wr)
     else await_character_list sv socket left buffer (sleep_wire sv 10 wr)
   }"

definition gate_view_receive ::
  "'w lobby_services \<Rightarrow> 'w xsocket option \<Rightarrow> runtime \<times> 'w wire \<Rightarrow> (runtime \<times> 'w wire) option" where
  "gate_view_receive sv socket = (\<lambda>(st, wr).
     if bootstrap_enabled (bootstrap st) \<and> \<not> response_ready (bootstrap st) \<and> \<not> bootstrap_failed (bootstrap st)
     then (case socket of
         None \<Rightarrow> Some (st, wr)
       | Some s \<Rightarrow>
           if peer_port s \<noteq> bootstrap_port (bootstrap st) then Some (st, wr)
           else
             let (st, wr) = (if \<not> request_sent (bootstrap st) then send_bootstrap s (st, wr) else (st, wr)) in
             if request_sent (bootstrap st)
             then do {
               (ready, key_response, wr) \<leftarrow> await_key_response sv s 500 (replicate kKeyResponseSize 0) wr;
               let wr = wipe key_response wr;
               Some (if ready
                     then (REXLOG_INFO ''Xbox direct view bootstrap response ready: size={} port={}''
                             [U (of_nat kKeyResponseSize), U (ucast (peer_port s))]
                             (st\<lparr>bootstrap := (bootstrap st)\<lparr>response_ready := True\<rparr>\<rparr>), wr)
                     else if \<not> bootstrap_failed (bootstrap st)
                     then (REXLOG_ERROR
                             ''Xbox direct view bootstrap response was not ready; guest receive remains gated'' []
                             (st\<lparr>bootstrap := (bootstrap st)\<lparr>bootstrap_failed := True\<rparr>\<rparr>), wr)
                     else (st, wr))
             }
             else Some (st, wr))
     else Some (st, wr))"

section \<open>The packets that follow\<close>

definition observe_next_login ::
  "bool \<Rightarrow> 'w xsocket \<Rightarrow> runtime \<times> 'w wire \<Rightarrow> (runtime \<times> 'w wire) option" where
  "observe_next_login trace_enabled socket = (\<lambda>(st, wr). do {
     (response_peeked, response, wr) \<leftarrow> peek_packet socket (replicate 72 0) wr;
     if response_peeked = int (length response)
     then do {
       ffxi_id \<leftarrow> ReadLe32 response 28;
       ffxi_id_world \<leftarrow> ReadLe32 response 32;
       server_id \<leftarrow> ReadLe32 response 52;
       server_ipv4 \<leftarrow> ReadLe32 response 56;
       server_port \<leftarrow> ReadLe32 response 60;
       cache_ipv4 \<leftarrow> ReadLe32 response 64;
       cache_port \<leftarrow> ReadLe32 response 68;
       let st = st\<lparr>lobby := (lobby st)\<lparr>next_login_character_id := ffxi_id\<rparr>\<rparr>;
       Some (if trace_enabled
             then REXLOG_INFO ''Xbox lobby next-login: ffxi_id=0x{:08X} ffxi_id_world=0x{:08X} server_id=0x{:08X} server_ipv4=0x{:08X} server_port={} cache_ipv4=0x{:08X} cache_port={}''
                    (map W [ffxi_id, ffxi_id_world, server_id, server_ipv4, server_port, cache_ipv4, cache_port]) st
             else st, wr)
     }
     else Some (st, wr)
   })"

definition observe_character_list ::
  "'w lobby_services \<Rightarrow> 'w xsocket \<Rightarrow> u32 \<Rightarrow> runtime \<times> 'w wire \<Rightarrow> (runtime \<times> 'w wire) option" where
  "observe_character_list sv socket pkt_size = (\<lambda>(st, wr). do {
     (ready, response, wr) \<leftarrow> await_character_list sv socket 500 (replicate (unat pkt_size) 0) wr;
     let st = (if ready \<and> \<not> character_list_ready (lobby st)
               then REXLOG_INFO ''Xbox visible-lobby boundary reached: validated character list received'' []
                      (st\<lparr>lobby := (lobby st)\<lparr>character_list_ready := True\<rparr>\<rparr>)
               else st);
     Some (st, wipe response wr)
   })"

definition observe_lobby_packet ::
  "'w lobby_services \<Rightarrow> bool \<Rightarrow> 'w xsocket \<Rightarrow> runtime \<times> 'w wire \<Rightarrow> (runtime \<times> 'w wire) option" where
  "observe_lobby_packet sv trace_enabled socket = (\<lambda>(st, wr). do {
     (peeked, header, wr) \<leftarrow> peek_packet socket (replicate 12 0) wr;
     if peeked = int (length header)
     then do {
       pkt_size \<leftarrow> ReadLe32 header 0;
       command \<leftarrow> ReadLe32 header 8;
       let st = (if trace_enabled
                 then REXLOG_INFO ''Xbox lobby receive header: size={} command={:02X}'' [W pkt_size, W command] st
                 else st);
       (st, wr) \<leftarrow> (if pkt_size = 72 \<and> command = 0x0B then observe_next_login trace_enabled socket (st, wr)
                    else Some (st, wr));
       if command = 0x20 \<and> kCharacterListHeaderSize \<le> unat pkt_size
          \<and> unat pkt_size \<le> kCharacterListHeaderSize + 16 * kCharacterEntrySize
       then observe_character_list sv socket pkt_size (st, wr)
       else Some (st, wr)
     }
     else Some (st, wr)
   })"

definition lookup_peer :: "'w lobby_services \<Rightarrow> u32 \<Rightarrow> 'w \<Rightarrow> 'w xsocket option" where
  "lookup_peer sv descriptor w =
     (let object_handle = (if descriptor \<ge> kHandleBase sv then descriptor else descriptor + kHandleBase sv)
      in case LookupObject sv of None \<Rightarrow> None | Some lookup_object \<Rightarrow> lookup_object object_handle w)"

definition RevanaTraceFourByteSocketReceive ::
  "'w lobby_services \<Rightarrow> hook_flags \<Rightarrow> ppc_context \<Rightarrow> runtime \<times> 'w wire \<Rightarrow> (runtime \<times> 'w wire) option" where
  "RevanaTraceFourByteSocketReceive sv flags ctx = (\<lambda>(st, wr).
     if r_u32 ctx 5 \<noteq> 4 then Some (st, wr)
     else do {
       let socket = lookup_peer sv (r_u32 ctx 3) (fst wr);
       (st, wr) \<leftarrow> gate_view_receive sv socket (st, wr);
       let (trace_enabled, st) = GuestTraceHooksEnabled st;
       (st, wr) \<leftarrow>
         (case socket of
            Some s \<Rightarrow>
              if (trace_enabled \<or> kRestoreWorldLoginCharacterId flags) \<and> peer_port s = bootstrap_port (bootstrap st)
              then observe_lobby_packet sv trace_enabled s (st, wr) else Some (st, wr)
          | None \<Rightarrow> Some (st, wr));
       if \<not> trace_enabled then Some (st, wr)
       else do {
         rm \<leftarrow> guest_thread_memory sv;
         let load_word = (\<lambda>address. load_and_swap32 rm (host st) (TranslateVirtual rm address));
         Some (REXLOG_INFO
           ''Xbox four-byte socket receive caller=0x{:08X} socket={} buffer=0x{:08X} prior=0x{:08X} current=0x{:08X}''
           [W (ucast (lr ctx)), W (r_u32 ctx 3), W (r_u32 ctx 4), W (load_word (r_u32 ctx 4 - 4)),
            W (load_word (r_u32 ctx 4))] st, wr)
       }
     })"

section \<open>What the services promise\<close>

text \<open>
  A peek returns the number of bytes it stored, or a value that is no size of a packet (\<open>-1\<close> of an
  empty socket); BCrypt computes the digest; the guest thread has memory.
\<close>

definition honest_peek :: "'w xsocket \<Rightarrow> bool" where
  "honest_peek s \<longleftrightarrow> (\<forall>n w. case Recv_peek s n w of (peeked, bs, w') \<Rightarrow>
     length bs \<le> n \<and> (peeked = int n \<longrightarrow> length bs = n))"

definition lobby_services_ok :: "'w lobby_services \<Rightarrow> (bytes \<Rightarrow> bytes) \<Rightarrow> bool" where
  "lobby_services_ok sv digest \<longleftrightarrow>
     (\<forall>w. md5_available (provider sv w) digest) \<and> guest_thread_memory sv \<noteq> None \<and>
     (\<forall>f a w s. LookupObject sv = Some f \<longrightarrow> f a w = Some s \<longrightarrow> honest_peek s)"

lemma lookup_peer_honest: "lobby_services_ok sv digest \<Longrightarrow> lookup_peer sv d w = Some s \<Longrightarrow> honest_peek s"
  by (auto simp: lobby_services_ok_def lookup_peer_def Let_def split: option.splits if_splits)

section \<open>The calls of a run\<close>

fun sent_packets :: "socket_call list \<Rightarrow> (bytes \<times> int) list" where
  "sent_packets [] = []"
| "sent_packets (Sent bs n # cs) = (bs, n) # sent_packets cs"
| "sent_packets (_ # cs) = sent_packets cs"

fun peeks :: "socket_call list \<Rightarrow> nat" where
  "peeks [] = 0"
| "peeks (Peeked n r bs # cs) = Suc (peeks cs)"
| "peeks (_ # cs) = peeks cs"

fun slept :: "socket_call list \<Rightarrow> nat" where
  "slept [] = 0"
| "slept (Slept ms # cs) = ms + slept cs"
| "slept (_ # cs) = slept cs"

lemma call_counts_append [simp]:
  "sent_packets (cs @ ds) = sent_packets cs @ sent_packets ds"
  "peeks (cs @ ds) = peeks cs + peeks ds" "slept (cs @ ds) = slept cs + slept ds"
  by (induction cs rule: sent_packets.induct; simp)+

text \<open>A run that sends \<open>ss\<close>, with at most \<open>p\<close> peeks and \<open>ms\<close> milliseconds of sleep.\<close>

definition talks :: "(bytes \<times> int) list \<Rightarrow> nat \<Rightarrow> nat \<Rightarrow> 'w wire \<Rightarrow> 'w wire \<Rightarrow> bool" where
  "talks ss p ms wr wr' \<longleftrightarrow>
     (\<exists>cs. snd wr' = snd wr @ cs \<and> sent_packets cs = ss \<and> peeks cs \<le> p \<and> slept cs \<le> ms)"

abbreviation listens :: "nat \<Rightarrow> nat \<Rightarrow> 'w wire \<Rightarrow> 'w wire \<Rightarrow> bool" where
  "listens \<equiv> talks []"

lemma listens_refl [simp]: "listens p ms wr wr"
  by (auto simp: talks_def)

lemma talks_trans:
  assumes "talks ss p ms wr wr1" "talks ts q ns wr1 wr2" shows "talks (ss @ ts) (p + q) (ms + ns) wr wr2"
proof -
  from assms obtain cs ds where "snd wr1 = snd wr @ cs" "sent_packets cs = ss" "peeks cs \<le> p" "slept cs \<le> ms"
    "snd wr2 = snd wr1 @ ds" "sent_packets ds = ts" "peeks ds \<le> q" "slept ds \<le> ns"
    by (auto simp: talks_def)
  then show ?thesis unfolding talks_def by (intro exI [of _ "cs @ ds"]) simp
qed

lemmas listens_trans = talks_trans [of "[]" _ _ _ _ "[]", simplified]

lemma talks_mono: "talks ss p ms wr wr' \<Longrightarrow> p \<le> q \<Longrightarrow> ms \<le> ns \<Longrightarrow> talks ss q ns wr wr'"
  unfolding talks_def by (elim exE conjE, intro exI conjI) (assumption | erule (1) order_trans)+

lemma talks_sent: "talks ss p ms wr wr' \<Longrightarrow> sent_packets (snd wr') = sent_packets (snd wr) @ ss"
  by (auto simp: talks_def)

lemma talks_calls: "talks ss p ms wr wr' \<Longrightarrow> c \<in> set (snd wr) \<Longrightarrow> c \<in> set (snd wr')"
  by (auto simp: talks_def)

lemma listens_sleep: "listens 0 ms wr (sleep_wire sv ms wr)"
  by (cases wr) (auto simp: talks_def sleep_wire_def)

lemma listens_wipe: "listens 0 0 wr (wipe buffer wr)"
  by (cases wr) (auto simp: talks_def wipe_def)

lemma peek_packet_honest:
  assumes "honest_peek s"
  obtains peeked buffer' wr' where "peek_packet s buffer wr = Some (peeked, buffer', wr')"
    "length buffer' = length buffer" "listens 1 0 wr wr'"
    "peeked = int (length buffer) \<Longrightarrow> Peeked (length buffer) (int (length buffer)) buffer' \<in> set (snd wr')"
proof -
  obtain w cs where wr: "wr = (w, cs)" by (cases wr)
  obtain peeked bs w' where r: "Recv_peek s (length buffer) w = (peeked, bs, w')" by (metis prod_cases3)
  from assms have l: "length bs \<le> length buffer \<and> (peeked = int (length buffer) \<longrightarrow> length bs = length buffer)"
    unfolding honest_peek_def using r by (auto dest!: spec [of _ "length buffer"] spec [of _ w])
  then have p: "peek_packet s buffer wr =
      Some (peeked, bs @ drop (length bs) buffer, w', cs @ [Peeked (length buffer) peeked bs])"
    by (simp add: peek_packet_def wr r)
  have "listens 1 0 wr (w', cs @ [Peeked (length buffer) peeked bs])"
    by (simp add: talks_def wr)
  with l show thesis by (intro that [OF p]) simp_all
qed

lemma IsCompleteKeyResponse_total:
  assumes "md5_service bc digest" shows "\<exists>complete. IsCompleteKeyResponse bc bs = Some complete"
proof -
  obtain parsed where "ParseKeyResponse bc bs = Some parsed"
    using ParseKeyResponse_no_overrun [OF assms] by blast
  then show ?thesis by (cases "length bs = 40") (auto simp: IsCompleteKeyResponse_def)
qed

lemma await_key_response_cases:
  assumes "honest_peek s" "\<And>w. md5_service (provider sv w) digest"
  shows "\<exists>ready buffer' wr'. await_key_response sv s left buffer wr = Some (ready, buffer', wr') \<and>
    length buffer' = length buffer \<and> listens left (10 * left) wr wr' \<and>
    (ready \<longrightarrow> (\<exists>w. IsCompleteKeyResponse (provider sv w) buffer' = Some True) \<and>
       Peeked (length buffer) (int (length buffer)) buffer' \<in> set (snd wr'))"
proof (induction left arbitrary: buffer wr)
  case (Suc left)
  obtain peeked buffer' wr' where p: "peek_packet s buffer wr = Some (peeked, buffer', wr')"
    "length buffer' = length buffer" "listens 1 0 wr wr'"
    "peeked = int (length buffer) \<Longrightarrow> Peeked (length buffer) (int (length buffer)) buffer' \<in> set (snd wr')"
    using peek_packet_honest [OF assms(1)] by metis
  obtain complete where c: "IsCompleteKeyResponse (provider sv (fst wr')) buffer' = Some complete"
    using IsCompleteKeyResponse_total [OF assms(2)] by blast
  have once: "listens (Suc left) (10 * Suc left) wr wr'" using p(3) by (rule talks_mono) simp_all
  have step: "await_key_response sv s (Suc left) buffer wr =
      (if peeked = int (length buffer) \<and> complete then Some (True, buffer', wr')
       else if peeked = 0 then Some (False, buffer', wr')
       else await_key_response sv s left buffer' (sleep_wire sv 10 wr'))"
    using p(1,2) c by simp
  consider (complete) "peeked = int (length buffer)" complete
    | (closed) "\<not> (peeked = int (length buffer) \<and> complete)" "peeked = 0"
    | (again) "\<not> (peeked = int (length buffer) \<and> complete)" "peeked \<noteq> 0" by blast
  then show ?case
  proof cases
    case again
    obtain ready b wr2 where "await_key_response sv s left buffer' (sleep_wire sv 10 wr') = Some (ready, b, wr2)"
      and ih: "length b = length buffer'" "listens left (10 * left) (sleep_wire sv 10 wr') wr2"
        "ready \<longrightarrow> (\<exists>w. IsCompleteKeyResponse (provider sv w) b = Some True) \<and>
          Peeked (length buffer') (int (length buffer')) b \<in> set (snd wr2)"
      using Suc.IH [of buffer' "sleep_wire sv 10 wr'"] by blast
    moreover from listens_trans [OF listens_trans [OF p(3) listens_sleep] ih(2)]
    have "listens (Suc left) (10 * Suc left) wr wr2" by simp
    ultimately show ?thesis unfolding step using again p(2)
      by (intro exI [of _ ready] exI [of _ b] exI [of _ wr2]) auto
  next
    case complete
    with p once c show ?thesis
      unfolding step by (intro exI [of _ True] exI [of _ buffer'] exI [of _ wr']) auto
  next
    case closed
    with p(2) once show ?thesis
      unfolding step by (intro exI [of _ False] exI [of _ buffer'] exI [of _ wr']) auto
  qed
qed (simp add: ex_bool_eq)

lemma await_character_list_cases:
  assumes "honest_peek s" "\<And>w. md5_service (provider sv w) digest"
  shows "\<exists>ready buffer' wr'. await_character_list sv s left buffer wr = Some (ready, buffer', wr') \<and>
    length buffer' = length buffer \<and> listens left (10 * left) wr wr' \<and>
    (ready \<longrightarrow> (\<exists>w r. ParseCharacterList (provider sv w) buffer' = Some (Inr r)) \<and>
       Peeked (length buffer) (int (length buffer)) buffer' \<in> set (snd wr'))"
proof (induction left arbitrary: buffer wr)
  case (Suc left)
  obtain peeked buffer' wr' where p: "peek_packet s buffer wr = Some (peeked, buffer', wr')"
    "length buffer' = length buffer" "listens 1 0 wr wr'"
    "peeked = int (length buffer) \<Longrightarrow> Peeked (length buffer) (int (length buffer)) buffer' \<in> set (snd wr')"
    using peek_packet_honest [OF assms(1)] by metis
  obtain parsed where c: "ParseCharacterList (provider sv (fst wr')) buffer' = Some parsed"
    using ParseCharacterList_no_overrun [OF assms(2)] by blast
  have once: "listens (Suc left) (10 * Suc left) wr wr'" using p(3) by (rule talks_mono) simp_all
  have step: "await_character_list sv s (Suc left) buffer wr =
      (if peeked = int (length buffer) then Some (\<not> isl parsed, buffer', wr')
       else if peeked = 0 then Some (False, buffer', wr')
       else await_character_list sv s left buffer' (sleep_wire sv 10 wr'))"
    using p(1,2) c by (simp split: sum.split)
  consider (full) "peeked = int (length buffer)" | (closed) "peeked \<noteq> int (length buffer)" "peeked = 0"
    | (again) "peeked \<noteq> int (length buffer)" "peeked \<noteq> 0" by blast
  then show ?case
  proof cases
    case again
    obtain ready b wr2 where "await_character_list sv s left buffer' (sleep_wire sv 10 wr') = Some (ready, b, wr2)"
      and ih: "length b = length buffer'" "listens left (10 * left) (sleep_wire sv 10 wr') wr2"
        "ready \<longrightarrow> (\<exists>w r. ParseCharacterList (provider sv w) b = Some (Inr r)) \<and>
          Peeked (length buffer') (int (length buffer')) b \<in> set (snd wr2)"
      using Suc.IH [of buffer' "sleep_wire sv 10 wr'"] by blast
    moreover from listens_trans [OF listens_trans [OF p(3) listens_sleep] ih(2)]
    have "listens (Suc left) (10 * Suc left) wr wr2" by simp
    ultimately show ?thesis unfolding step using again p(2)
      by (intro exI [of _ ready] exI [of _ b] exI [of _ wr2]) auto
  next
    case full
    with p once c show ?thesis
      unfolding step by (cases parsed; intro exI [of _ "\<not> isl parsed"] exI [of _ buffer'] exI [of _ wr']) auto
  next
    case closed
    with p(2) once show ?thesis
      unfolding step by (intro exI [of _ False] exI [of _ buffer'] exI [of _ wr']) auto
  qed
qed (simp add: ex_bool_eq)

section \<open>The hook\<close>

lemma send_packet_talks:
  "send_packet s packet wr = (n, wr') \<Longrightarrow> talks [(packet, n)] 0 0 wr wr'"
  by (cases wr) (auto simp: send_packet_def talks_def split: prod.splits)

text \<open>What one passage of the gate does.\<close>

definition key_response_seen :: "'w lobby_services \<Rightarrow> 'w wire \<Rightarrow> bool" where
  "key_response_seen sv wr \<longleftrightarrow>
     (\<exists>bs w. Peeked 40 40 bs \<in> set (snd wr) \<and> IsCompleteKeyResponse (provider sv w) bs = Some True)"

lemma key_response_seen_wipe [simp]: "key_response_seen sv (wipe buffer wr) = key_response_seen sv wr"
  by (cases wr) (simp add: key_response_seen_def wipe_def)

inductive gate_step ::
  "'w lobby_services \<Rightarrow> bootstrap_globals \<times> 'w wire \<Rightarrow> bootstrap_globals \<times> 'w wire \<Rightarrow> bool" for sv where
  Idle: "gate_step sv (b, wr) (b, wr)"
| Refused: "\<not> request_sent b \<Longrightarrow> n \<noteq> int (length (bootstrap_packet b)) \<Longrightarrow>
    talks [(bootstrap_packet b, n)] 0 0 wr wr' \<Longrightarrow>
    bootstrap_enabled b \<Longrightarrow> \<not> response_ready b \<Longrightarrow> \<not> bootstrap_failed b \<Longrightarrow>
    gate_step sv (b, wr) (b\<lparr>bootstrap_failed := True\<rparr>, wr')"
| Waited: "ss = (if request_sent b then [] else [(bootstrap_packet b, int (length (bootstrap_packet b)))]) \<Longrightarrow>
    packet = (if request_sent b then bootstrap_packet b else replicate (length (bootstrap_packet b)) 0) \<Longrightarrow>
    talks ss 500 5000 wr wr' \<Longrightarrow> (ready \<Longrightarrow> key_response_seen sv wr') \<Longrightarrow>
    bootstrap_enabled b \<Longrightarrow> \<not> response_ready b \<Longrightarrow> \<not> bootstrap_failed b \<Longrightarrow>
    gate_step sv (b, wr)
      (b\<lparr>request_sent := True, bootstrap_packet := packet, response_ready := ready,
         bootstrap_failed := \<not> ready\<rparr>, wr')"

lemma gate_view_receive_step:
  assumes ok: "lobby_services_ok sv digest" and honest: "\<And>s. socket = Some s \<Longrightarrow> honest_peek s"
  shows "\<exists>st' wr'. gate_view_receive sv socket (st, wr) = Some (st', wr') \<and>
    gate_step sv (bootstrap st, wr) (bootstrap st', wr') \<and>
    st'\<lparr>bootstrap := bootstrap st, logged := logged st\<rparr> = st"
proof (cases "bootstrap_enabled (bootstrap st) \<and> \<not> response_ready (bootstrap st) \<and> \<not> bootstrap_failed (bootstrap st) \<and>
    (\<exists>s. socket = Some s \<and> peer_port s = bootstrap_port (bootstrap st))")
  case False
  then have "gate_view_receive sv socket (st, wr) = Some (st, wr)"
    by (cases socket) (auto simp: gate_view_receive_def)
  then show ?thesis by (simp add: Idle)
next
  case True
  then obtain s where s: "socket = Some s" "peer_port s = bootstrap_port (bootstrap st)"
    and armed: "bootstrap_enabled (bootstrap st)" "\<not> response_ready (bootstrap st)" "\<not> bootstrap_failed (bootstrap st)"
    by blast
  have md5: "md5_service (provider sv w) digest" for w
    using ok by (auto simp: lobby_services_ok_def dest: md5_available.axioms(1))
  let ?b = "bootstrap st"
  define waits where "waits wr' = await_key_response sv s 500 (replicate 40 0) wr'" for wr'
  have waited: "\<exists>ready buffer wr2. waits wr' = Some (ready, buffer, wr2) \<and> length buffer = 40 \<and>
      listens 500 5000 wr' wr2 \<and> (ready \<longrightarrow> key_response_seen sv wr2)" for wr'
    using await_key_response_cases [OF honest [OF s(1)] md5, of 500 "replicate 40 0" wr']
    unfolding key_response_seen_def waits_def length_replicate by (elim exE conjE) (intro exI conjI, assumption+, auto)
  have wiped: "talks ss 500 5000 w1 w2 \<Longrightarrow> talks ss 500 5000 w1 (wipe buffer w2)" for ss w1 w2 buffer
    using talks_trans [OF _ listens_wipe] by fastforce
  show ?thesis
  proof (cases "request_sent ?b")
    case True
    obtain ready buffer wr2 where w: "waits wr = Some (ready, buffer, wr2)" "length buffer = 40"
      "listens 500 5000 wr wr2" "ready \<longrightarrow> key_response_seen sv wr2" using waited by blast
    then have "\<exists>st'. gate_view_receive sv socket (st, wr) = Some (st', wipe buffer wr2) \<and>
        bootstrap st' = ?b\<lparr>request_sent := True, bootstrap_packet := bootstrap_packet ?b, response_ready := ready,
         bootstrap_failed := \<not> ready\<rparr> \<and> st'\<lparr>bootstrap := bootstrap st, logged := logged st\<rparr> = st"
      using s armed True
      by (cases ready) (auto simp: gate_view_receive_def waits_def write_log_def)
    moreover have "gate_step sv (?b, wr) (?b\<lparr>request_sent := True, bootstrap_packet := bootstrap_packet ?b,
        response_ready := ready, bootstrap_failed := \<not> ready\<rparr>, wipe buffer wr2)"
    proof (rule Waited)
      show "listens 500 5000 wr (wipe buffer wr2)" by (rule wiped [OF w(3)])
    qed (use w True armed in auto)
    ultimately show ?thesis by metis
  next
    case False
    obtain n wr1 where n: "send_packet s (bootstrap_packet ?b) wr = (n, wr1)" by (cases "send_packet s (bootstrap_packet ?b) wr")
    note t = send_packet_talks [OF n]
    show ?thesis
    proof (cases "n = int (length (bootstrap_packet ?b))")
      case True
      obtain ready buffer wr2 where w: "waits wr1 = Some (ready, buffer, wr2)" "length buffer = 40"
        "listens 500 5000 wr1 wr2" "ready \<longrightarrow> key_response_seen sv wr2" using waited by blast
      let ?p = "replicate (length (bootstrap_packet ?b)) 0"
      from w have "\<exists>st'. gate_view_receive sv socket (st, wr) = Some (st', wipe buffer wr2) \<and>
          bootstrap st' = ?b\<lparr>request_sent := True, bootstrap_packet := ?p, response_ready := ready,
           bootstrap_failed := \<not> ready\<rparr> \<and> st'\<lparr>bootstrap := bootstrap st, logged := logged st\<rparr> = st"
        using s armed False True n
        by (cases ready) (auto simp: gate_view_receive_def waits_def send_bootstrap_def Let_def write_log_def)
      moreover have "gate_step sv (?b, wr) (?b\<lparr>request_sent := True, bootstrap_packet := ?p,
          response_ready := ready, bootstrap_failed := \<not> ready\<rparr>, wipe buffer wr2)"
      proof (rule Waited)
        show "talks [(bootstrap_packet ?b, int (length (bootstrap_packet ?b)))] 500 5000 wr (wipe buffer wr2)"
          using wiped [OF talks_trans [OF t w(3), simplified]] True by simp
      qed (use w False armed in auto)
      ultimately show ?thesis by metis
    next
      case n2: False
      then have "\<exists>st'. gate_view_receive sv socket (st, wr) = Some (st', wr1) \<and>
          bootstrap st' = ?b\<lparr>bootstrap_failed := True\<rparr> \<and> st'\<lparr>bootstrap := bootstrap st, logged := logged st\<rparr> = st"
        using s armed False n
        by (auto simp: gate_view_receive_def send_bootstrap_def Let_def write_log_def)
      with Refused [OF False n2 t armed] show ?thesis by metis
    qed
  qed
qed

definition character_list_seen :: "'w lobby_services \<Rightarrow> 'w wire \<Rightarrow> bool" where
  "character_list_seen sv wr \<longleftrightarrow>
     (\<exists>bs w r. Peeked (length bs) (int (length bs)) bs \<in> set (snd wr) \<and>
        ParseCharacterList (provider sv w) bs = Some (Inr r))"

lemma character_list_seen_wipe [simp]: "character_list_seen sv (wipe buffer wr) = character_list_seen sv wr"
  by (cases wr) (simp add: character_list_seen_def wipe_def)

text \<open>What observing a packet may change: the log, the next character's id and the list flag.\<close>

definition observes :: "'w lobby_services \<Rightarrow> nat \<Rightarrow> runtime \<times> 'w wire \<Rightarrow> runtime \<times> 'w wire \<Rightarrow> bool" where
  "observes sv p = (\<lambda>(st, wr) (st', wr').
     host st' = host st \<and> trace st' = trace st \<and> map_handoff st' = map_handoff st \<and>
     resolver st' = resolver st \<and> bootstrap st' = bootstrap st \<and> listens p 5000 wr wr' \<and>
     (character_list_ready (lobby st') \<longrightarrow> character_list_ready (lobby st) \<or> character_list_seen sv wr'))"

lemma observe_next_login_observes:
  assumes "honest_peek s"
  shows "\<exists>st' wr'. observe_next_login t s (st, wr) = Some (st', wr') \<and> observes sv 1 (st, wr) (st', wr')"
proof -
  obtain peeked buffer wr' where p: "peek_packet s (replicate 72 0) wr = Some (peeked, buffer, wr')"
    "length buffer = 72" "listens 1 0 wr wr'"
    using peek_packet_honest [OF assms, of "replicate 72 0" wr] by (metis length_replicate)
  have "listens 1 5000 wr wr'" using p(3) by (rule talks_mono) simp_all
  with p show ?thesis
    by (cases "peeked = 72"; cases t)
       (simp_all add: observe_next_login_def observes_def ReadLe32_eq write_log_def Let_def)
qed

lemma observe_character_list_observes:
  assumes "honest_peek s" "\<And>w. md5_service (provider sv w) digest"
  shows "\<exists>st' wr'. observe_character_list sv s n (st, wr) = Some (st', wr') \<and> observes sv 500 (st, wr) (st', wr')"
proof -
  obtain ready buffer wr' where w: "await_character_list sv s 500 (replicate (unat n) 0) wr = Some (ready, buffer, wr')"
    "length buffer = unat n" "listens 500 5000 wr wr'"
    "ready \<longrightarrow> (\<exists>w r. ParseCharacterList (provider sv w) buffer = Some (Inr r)) \<and>
       Peeked (unat n) (int (unat n)) buffer \<in> set (snd wr')"
    using await_character_list_cases [OF assms, of 500 "replicate (unat n) 0" wr]
    unfolding length_replicate by (elim exE conjE) (rule that, assumption+, simp_all)
  have "listens 500 5000 wr (wipe buffer wr')" using talks_trans [OF w(3) listens_wipe] by simp
  moreover have "ready \<longrightarrow> character_list_seen sv wr'"
    unfolding character_list_seen_def using w(2,4) by metis
  ultimately have "listens 500 5000 wr (wipe buffer wr') \<and> (ready \<longrightarrow> character_list_seen sv wr')" by blast
  with w(1) show ?thesis
    by (cases "ready \<and> \<not> character_list_ready (lobby st)")
       (auto simp: observe_character_list_def observes_def write_log_def)
qed

lemma observe_lobby_packet_observes:
  assumes "honest_peek s" "\<And>w. md5_service (provider sv w) digest"
  shows "\<exists>st' wr'. observe_lobby_packet sv t s (st, wr) = Some (st', wr') \<and> observes sv 501 (st, wr) (st', wr')"
proof -
  obtain peeked header wr1 where p: "peek_packet s (replicate 12 0) wr = Some (peeked, header, wr1)"
    "length header = 12" "listens 1 0 wr wr1"
    using peek_packet_honest [OF assms(1), of "replicate 12 0" wr] by (metis length_replicate)
  obtain n command where h: "ReadLe32 header 0 = Some n" "ReadLe32 header 8 = Some command"
    using p(2) by (simp add: ReadLe32_eq)
  define st1 where "st1 = (if t then REXLOG_INFO ''Xbox lobby receive header: size={} command={:02X}'' [W n, W command] st else st)"
  have then_observes: "observes sv 501 (st, wr) (st2, wr2)" if "observes sv p (st1, wr1) (st2, wr2)" "p \<le> 500" for p st2 wr2
    using that talks_mono [OF talks_trans [OF p(3)], of "[]" p 5000 wr2 501 5000]
    by (auto simp: observes_def st1_def write_log_def split: if_splits)
  have once: "observes sv 501 (st, wr) (st1, wr1)" "observes sv 501 (st, wr) (st, wr1)"
    using talks_mono [OF p(3), of 501 5000] by (auto simp: observes_def st1_def write_log_def)
  consider (other) "peeked \<noteq> 12" | (login) "peeked = 12" "n = 72 \<and> command = 0x0B"
    | (list) "peeked = 12" "command = 0x20 \<and> 32 \<le> unat n \<and> unat n \<le> 32 + 16 * 140"
    | (none) "peeked = 12" "\<not> (n = 72 \<and> command = 0x0B)" "\<not> (command = 0x20 \<and> 32 \<le> unat n \<and> unat n \<le> 32 + 16 * 140)"
    by blast
  then show ?thesis
  proof cases
    case login
    with p h have "observe_lobby_packet sv t s (st, wr) = observe_next_login t s (st1, wr1)"
      by (auto simp: observe_lobby_packet_def st1_def split: option.splits)
    with observe_next_login_observes [OF assms(1), of t st1 wr1 sv] then_observes show ?thesis by fastforce
  next
    case list
    with p h have "observe_lobby_packet sv t s (st, wr) = observe_character_list sv s n (st1, wr1)"
      by (auto simp: observe_lobby_packet_def st1_def)
    with observe_character_list_observes [OF assms, of n st1 wr1] then_observes show ?thesis by fastforce
  next
    case other
    with p once show ?thesis by (auto simp: observe_lobby_packet_def)
  next
    case none
    then have "observe_lobby_packet sv t s (st, wr) = Some (st1, wr1)"
      using p h by (auto simp: observe_lobby_packet_def st1_def)
    with once show ?thesis by blast
  qed
qed

text \<open>One call of the hook: the gate, then at most one observed packet, then the trace.\<close>

definition hook_effect :: "'w lobby_services \<Rightarrow> runtime \<times> 'w wire \<Rightarrow> runtime \<times> 'w wire \<Rightarrow> bool" where
  "hook_effect sv = (\<lambda>(st, wr) (st', wr').
     \<exists>wr1. gate_step sv (bootstrap st, wr) (bootstrap st', wr1) \<and> listens 501 5000 wr1 wr' \<and>
       host st' = host st \<and> map_handoff st' = map_handoff st \<and> resolver st' = resolver st \<and>
       (character_list_ready (lobby st') \<longrightarrow> character_list_ready (lobby st) \<or> character_list_seen sv wr'))"

lemma hook_returns:
  assumes ok: "lobby_services_ok sv digest"
  shows "\<exists>st' wr'. RevanaTraceFourByteSocketReceive sv flags ctx (st, wr) = Some (st', wr') \<and>
    hook_effect sv (st, wr) (st', wr')"
proof (cases "r_u32 ctx 5 = 4")
  case False
  moreover have "hook_effect sv (st, wr) (st, wr)"
    unfolding hook_effect_def prod.case by (intro exI [of _ wr]) (simp add: Idle)
  ultimately show ?thesis by (simp add: RevanaTraceFourByteSocketReceive_def)
next
  case True
  define socket where "socket = lookup_peer sv (r_u32 ctx 3) (fst wr)"
  have honest: "\<And>s. socket = Some s \<Longrightarrow> honest_peek s" using lookup_peer_honest [OF ok] by (simp add: socket_def)
  have md5: "\<And>w. md5_service (provider sv w) digest"
    using ok by (auto simp: lobby_services_ok_def dest: md5_available.axioms(1))
  obtain rm where rm: "guest_thread_memory sv = Some rm" using ok by (auto simp: lobby_services_ok_def)
  obtain st1 wr1 where gate: "gate_view_receive sv socket (st, wr) = Some (st1, wr1)"
    "gate_step sv (bootstrap st, wr) (bootstrap st1, wr1)"
    and frame: "st1\<lparr>bootstrap := bootstrap st, logged := logged st\<rparr> = st"
    using gate_view_receive_step [OF ok honest] by blast
  from frame have core: "host st1 = host st" "lobby st1 = lobby st" "map_handoff st1 = map_handoff st"
    "resolver st1 = resolver st" by (metis runtime.select_convs runtime.surjective runtime.update_convs)+
  obtain t st2 where t: "GuestTraceHooksEnabled st1 = (t, st2)" by (cases "GuestTraceHooksEnabled st1")
  note t_frame = GuestTraceHooksEnabled_frame [OF t]
  let ?observe = "case socket of Some s \<Rightarrow>
      if (t \<or> kRestoreWorldLoginCharacterId flags) \<and> peer_port s = bootstrap_port (bootstrap st2)
      then observe_lobby_packet sv t s (st2, wr1) else Some (st2, wr1) | None \<Rightarrow> Some (st2, wr1)"
  have self: "observes sv 501 (st2, wr1) (st2, wr1)" by (simp add: observes_def)
  have "\<exists>st3 wr3. ?observe = Some (st3, wr3) \<and> observes sv 501 (st2, wr1) (st3, wr3)"
  proof (cases socket)
    case (Some s)
    with self observe_lobby_packet_observes [OF honest [OF Some] md5, of t st2 wr1] show ?thesis
      by (cases wr1) auto
  qed (use self in simp)
  then obtain st3 wr3 where o: "?observe = Some (st3, wr3)" "observes sv 501 (st2, wr1) (st3, wr3)" by blast
  have "\<exists>st'. RevanaTraceFourByteSocketReceive sv flags ctx (st, wr) = Some (st', wr3) \<and>
      bootstrap st' = bootstrap st3 \<and> host st' = host st3 \<and> map_handoff st' = map_handoff st3 \<and>
      resolver st' = resolver st3 \<and> lobby st' = lobby st3"
    using True gate(1) t o(1) rm
    by (simp add: RevanaTraceFourByteSocketReceive_def socket_def [symmetric] write_log_def)
  then obtain st' where final: "RevanaTraceFourByteSocketReceive sv flags ctx (st, wr) = Some (st', wr3)"
    "bootstrap st' = bootstrap st3" "host st' = host st3" "map_handoff st' = map_handoff st3"
    "resolver st' = resolver st3" "lobby st' = lobby st3" by blast
  have "hook_effect sv (st, wr) (st', wr3)"
    unfolding hook_effect_def prod.case using gate(2) core t_frame o(2) final
    by (intro exI [of _ wr1]) (simp add: observes_def)
  with final(1) show ?thesis by blast
qed

section \<open>Runs\<close>

text \<open>
  A run: calls of the hook, with any registers, and between them anything else the process and its
  peers do; only the hook and the configuration write the globals of the bootstrap and the list flag.
\<close>

inductive view_run ::
  "'w lobby_services \<Rightarrow> hook_flags \<Rightarrow> runtime \<times> 'w wire \<Rightarrow> runtime \<times> 'w wire \<Rightarrow> bool" for sv flags s where
  Start: "view_run sv flags s s"
| Hook: "view_run sv flags s (st, wr) \<Longrightarrow>
    RevanaTraceFourByteSocketReceive sv flags ctx (st, wr) = Some (st', wr') \<Longrightarrow> view_run sv flags s (st', wr')"
| Elsewhere: "view_run sv flags s (st, w, cs) \<Longrightarrow> bootstrap st' = bootstrap st \<Longrightarrow>
    character_list_ready (lobby st') = character_list_ready (lobby st) \<Longrightarrow> view_run sv flags s (st', w', cs)"

text \<open>The states of an armed bootstrap.\<close>

definition view_states :: "'w lobby_services \<Rightarrow> bytes \<Rightarrow> bootstrap_globals \<Rightarrow> socket_call list \<Rightarrow> bool" where
  "view_states sv pk b cs \<longleftrightarrow>
     (if request_sent b
      then sent_packets cs = [(pk, int (length pk))] \<and> bootstrap_packet b = replicate (length pk) 0
      else bootstrap_packet b = pk \<and> \<not> response_ready b \<and>
        (if bootstrap_failed b then \<exists>n. n \<noteq> int (length pk) \<and> sent_packets cs = [(pk, n)] else sent_packets cs = [])) \<and>
     (response_ready b \<longrightarrow> \<not> bootstrap_failed b \<and>
       (\<exists>bs w. Peeked 40 40 bs \<in> set cs \<and> IsCompleteKeyResponse (provider sv w) bs = Some True))"

lemma gate_step_talks:
  assumes "gate_step sv (b, wr) (b', wr')" shows "\<exists>ss. length ss \<le> 1 \<and> talks ss 500 5000 wr wr'"
  using assms
proof cases
  case Idle
  then show ?thesis by (intro exI [of _ "[]"]) simp
next
  case (Refused n)
  then show ?thesis by (intro exI [of _ "[(bootstrap_packet b, n)]"]) (auto elim: talks_mono)
next
  case (Waited ss packet ready)
  then show ?thesis by (intro exI [of _ ss]) simp
qed

lemma view_states_gate:
  assumes "gate_step sv (b, wr) (b', wr')" "view_states sv pk b (snd wr)"
  shows "view_states sv pk b' (snd wr')"
  using assms(1)
proof cases
  case Idle
  with assms(2) show ?thesis by simp
next
  case (Refused n)
  with assms(2) show ?thesis by (auto simp: view_states_def talks_sent)
next
  case (Waited ss packet ready)
  with assms(2) show ?thesis by (auto simp: view_states_def talks_sent key_response_seen_def)
qed

lemma view_states_listens:
  assumes "listens p ms wr wr'" "view_states sv pk b (snd wr)" shows "view_states sv pk b (snd wr')"
  using assms(2) talks_sent [OF assms(1)] talks_calls [OF assms(1)]
  unfolding view_states_def by (auto split: if_splits)

lemma view_run_states:
  assumes ok: "lobby_services_ok sv digest" and run: "view_run sv flags s s'"
    and start: "view_states sv pk (bootstrap (fst s)) (snd (snd s))" "\<not> character_list_ready (lobby (fst s))"
  shows "view_states sv pk (bootstrap (fst s')) (snd (snd s')) \<and>
    (character_list_ready (lobby (fst s')) \<longrightarrow> character_list_seen sv (snd s'))"
  using run
proof induction
  case Start
  with start show ?case by simp
next
  case (Hook st wr ctx st' wr')
  then have "hook_effect sv (st, wr) (st', wr')"
    using hook_returns [OF ok, of flags ctx st wr] by auto
  then obtain wr1 where g: "gate_step sv (bootstrap st, wr) (bootstrap st', wr1)" "listens 501 5000 wr1 wr'"
    and clr: "character_list_ready (lobby st') \<longrightarrow> character_list_ready (lobby st) \<or> character_list_seen sv wr'"
    by (auto simp: hook_effect_def)
  have "c \<in> set (snd wr')" if "c \<in> set (snd wr)" for c
    using talks_calls [OF g(2)] gate_step_talks [OF g(1)] talks_calls that by blast
  then have "character_list_seen sv wr \<Longrightarrow> character_list_seen sv wr'" by (auto simp: character_list_seen_def)
  with Hook.IH clr view_states_listens [OF g(2) view_states_gate [OF g(1)]] show ?case by auto
next
  case (Elsewhere st w cs st' w')
  then show ?case by (simp add: character_list_seen_def)
qed

lemma armed_states:
  assumes "RevanaConfigureDirectLobbyViewBootstrap port (Some pk) st0 = (True, st)"
  shows "view_states sv pk (bootstrap st) []" "\<not> character_list_ready (lobby st)" "length pk = 152"
  using assms by (auto simp: RevanaConfigureDirectLobbyViewBootstrap_def view_states_def write_log_def split: if_splits)

section \<open>Properties of the view bootstrap\<close>

lemma complete_key_response_iff:
  assumes "md5_available bc digest"
  shows "IsCompleteKeyResponse bc bs = Some True \<longleftrightarrow> (\<exists>r. bs = encode_key_response digest r)"
proof -
  have l: "length (encode_key_response digest r) = 40" for r
    by (simp add: encode_key_response_def seal_def md5_service.digest_length [OF md5_available.axioms(1) [OF assms]])
  show ?thesis
  proof (cases "length bs = 40")
    case True
    have "IsCompleteKeyResponse bc bs = Some True \<longleftrightarrow> (\<exists>r. ParseKeyResponse bc bs = Some (Inr r))"
      using True by (cases "ParseKeyResponse bc bs") (auto simp: IsCompleteKeyResponse_def split: sum.splits)
    with True show ?thesis unfolding md5_available.ParseKeyResponse_iff [OF assms] by simp
  next
    case False
    with l show ?thesis by (auto simp: IsCompleteKeyResponse_def)
  qed
qed

text \<open>
  C6: in every run of the armed bootstrap, with anything happening between the calls of the hook, the
  login packet is handed to the socket at most once: either nothing was sent yet, or it was sent whole
  and its copy is all zeros, or its one send failed and the bootstrap has failed for good.  The response
  is ready only after the packet was sent, the bootstrap has not failed, and a complete sealed key
  response was seen on the socket.
\<close>

theorem view_login_sent_once:
  assumes "lobby_services_ok sv digest"
    and "RevanaConfigureDirectLobbyViewBootstrap port (Some pk) st0 = (True, st)"
    and "view_run sv flags (st, w, []) (st', w', cs)"
  shows "(case (request_sent (bootstrap st'), bootstrap_failed (bootstrap st')) of
      (True, _) \<Rightarrow> sent_packets cs = [(pk, 152)] \<and> bootstrap_packet (bootstrap st') = replicate 152 0
    | (False, False) \<Rightarrow> sent_packets cs = [] \<and> bootstrap_packet (bootstrap st') = pk
    | (False, True) \<Rightarrow> \<exists>n. n \<noteq> 152 \<and> sent_packets cs = [(pk, n)]) \<and>
    (response_ready (bootstrap st') \<longrightarrow> request_sent (bootstrap st') \<and> \<not> bootstrap_failed (bootstrap st') \<and>
       (\<exists>r. Peeked 40 40 (encode_key_response digest r) \<in> set cs))"
proof -
  have avail: "\<And>w. md5_available (provider sv w) digest" using assms(1) by (simp add: lobby_services_ok_def)
  note armed = armed_states [OF assms(2)]
  have "view_states sv pk (bootstrap st') cs"
    using view_run_states [OF assms(1,3), of pk, unfolded fst_conv snd_conv, OF armed(1,2)] by blast
  with armed(3) show ?thesis
    by (auto simp: view_states_def complete_key_response_iff [OF avail] split: bool.split if_splits)
qed

definition sample_lobby_socket :: "nat xsocket" where
  "sample_lobby_socket =
     \<lparr>peer_port = 54001, Send_socket = (\<lambda>bs w. (152, w + 1)),
      Recv_peek = (\<lambda>n w. if w = 1 \<and> n = 40 then (40, encode_key_response md5 sample_key_response, w)
        else if w = 1 \<and> n \<le> 32 then (int n, take n (encode_character_list md5 []), w) else (-1, [], w))\<rparr>"

definition sample_lobby_services :: "nat lobby_services" where
  "sample_lobby_services =
     \<lparr>LookupObject = Some (\<lambda>a w. Some sample_lobby_socket), kHandleBase = 0x1000, sleep_for = (\<lambda>ms w. w),
      provider = (\<lambda>w. bcrypt_md5), guest_thread_memory = Some flat_memory\<rparr>"

definition sample_flags :: hook_flags where
  "sample_flags = \<lparr>kSynthesizePostSelectionDescriptors = False, kSkipPostSelectionServiceFailure = False,
     kRestoreWorldLoginCharacterId = False\<rparr>"

definition sample_armed :: runtime where
  "sample_armed = snd (RevanaConfigureDirectLobbyViewBootstrap 54001 (Some (replicate 152 7))
     (sample_runtime (\<lambda>_. 0) sample_keys))"

lemma sample_lobby_services_ok: "lobby_services_ok sample_lobby_services md5"
  by (auto simp: lobby_services_ok_def sample_lobby_services_def honest_peek_def sample_lobby_socket_def
      encode_key_response_def encode_character_list_def seal_def length_md5 intro: rfc1321.md5_available_axioms split: if_splits)

lemma sample_armed_eq:
  "RevanaConfigureDirectLobbyViewBootstrap 54001 (Some (replicate 152 7)) (sample_runtime (\<lambda>_. 0) sample_keys) =
     (True, sample_armed)"
  unfolding sample_armed_def by (simp add: RevanaConfigureDirectLobbyViewBootstrap_def Let_def)

theorem view_login_sent_once_witness:
  "\<exists>st' w' cs. view_run sample_lobby_services sample_flags (sample_armed, 0, []) (st', w', cs) \<and>
     sent_packets cs = [(replicate 152 7, 152)] \<and> bootstrap_packet (bootstrap st') = replicate 152 0"
proof -
  let ?ctx = "set_r_u64 sample_context 5 4"
  obtain st' w' cs where h: "RevanaTraceFourByteSocketReceive sample_lobby_services sample_flags ?ctx (sample_armed, 0, [])
      = Some (st', w', cs)" and e: "hook_effect sample_lobby_services (sample_armed, 0, []) (st', w', cs)"
    using hook_returns [OF sample_lobby_services_ok, of sample_flags ?ctx sample_armed "(0, [])"] by auto
  have run: "view_run sample_lobby_services sample_flags (sample_armed, 0, []) (st', w', cs)"
    by (rule view_run.Hook [OF view_run.Start h])
  have r5: "r_u32 ?ctx 5 = 4" by simp
  have "request_sent (bootstrap st')"
    using h r5
    by (auto simp: RevanaTraceFourByteSocketReceive_def lookup_peer_def sample_lobby_services_def sample_flags_def
        gate_view_receive_def sample_armed_def RevanaConfigureDirectLobbyViewBootstrap_def sample_runtime_def
        send_bootstrap_def send_packet_def sample_lobby_socket_def GuestTraceHooksEnabled_def write_log_def
        bind_eq_Some_conv Let_def simp del: await_key_response.simps split: if_splits)
  with view_login_sent_once [OF sample_lobby_services_ok sample_armed_eq run] run show ?thesis
    by (intro exI [of _ st'] exI [of _ w'] exI [of _ cs]) simp
qed

text \<open>
  C27: the hook always returns: with at most one send, 1001 peeks and ten seconds of sleep for any
  server, and it changes neither guest memory nor the map key.
\<close>

theorem view_hook_bounded:
  assumes "lobby_services_ok sv digest"
  shows "\<exists>st' w' new. RevanaTraceFourByteSocketReceive sv flags ctx (st, w, cs) = Some (st', w', cs @ new) \<and>
    length (sent_packets new) \<le> 1 \<and> peeks new \<le> 1001 \<and> slept new \<le> 10000 \<and>
    host st' = host st \<and> map_handoff st' = map_handoff st"
proof -
  obtain st' wr1 wr' where h: "RevanaTraceFourByteSocketReceive sv flags ctx (st, w, cs) = Some (st', wr')"
    and g: "gate_step sv (bootstrap st, w, cs) (bootstrap st', wr1)" "listens 501 5000 wr1 wr'"
    and frame: "host st' = host st" "map_handoff st' = map_handoff st"
    using hook_returns [OF assms, of flags ctx st "(w, cs)"] by (auto simp: hook_effect_def)
  obtain ss where ss: "length ss \<le> 1" "talks ss 500 5000 (w, cs) wr1" using gate_step_talks [OF g(1)] by blast
  have "talks ss 1001 10000 (w, cs) wr'" using talks_trans [OF ss(2) g(2)] by simp
  then obtain new where "snd wr' = cs @ new" "sent_packets new = ss" "peeks new \<le> 1001" "slept new \<le> 10000"
    by (auto simp: talks_def)
  moreover from this(1) have "wr' = (fst wr', cs @ new)" by (simp add: prod_eq_iff)
  ultimately show ?thesis using ss(1) h frame
    by (intro exI [of _ st'] exI [of _ "fst wr'"] exI [of _ new]) simp
qed

theorem view_hook_bounded_witness:
  "\<exists>st' w' new. RevanaTraceFourByteSocketReceive sample_lobby_services sample_flags (set_r_u64 sample_context 5 4)
      (sample_armed, 0, []) = Some (st', w', new) \<and> peeks new \<le> 1001 \<and> slept new \<le> 10000"
  using view_hook_bounded [OF sample_lobby_services_ok, of sample_flags "set_r_u64 sample_context 5 4" sample_armed 0 "[]"]
  by auto

text \<open>
  C17: the visible-lobby boundary is reported only for a real lobby: whenever the list flag of an armed
  bootstrap is set, a packet was seen on the socket whose bytes begin with the sealed encoding of a
  list of at most sixteen characters.
\<close>

theorem visible_lobby_is_authentic:
  assumes "lobby_services_ok sv digest"
    and "RevanaConfigureDirectLobbyViewBootstrap port (Some pk) st0 = (True, st)"
    and "view_run sv flags (st, w, []) (st', w', cs)" "character_list_ready (lobby st')"
  shows "\<exists>bs es. Peeked (length bs) (int (length bs)) bs \<in> set cs \<and> length es \<le> 16 \<and>
    (\<forall>e \<in> set es. length e = 140) \<and> take (32 + 140 * length es) bs = encode_character_list digest es"
proof -
  have avail: "\<And>w. md5_available (provider sv w) digest" using assms(1) by (simp add: lobby_services_ok_def)
  have "character_list_seen sv (w', cs)"
    using view_run_states [OF assms(1,3), of pk, unfolded fst_conv snd_conv, OF armed_states(1,2) [OF assms(2)]]
      assms(4) by blast
  then show ?thesis
    unfolding character_list_seen_def md5_available.ParseCharacterList_iff [OF avail] by auto
qed

lemma sample_list_header:
  "ReadLe32 (take 12 (encode_character_list md5 [])) 0 = Some 32"
  "ReadLe32 (take 12 (encode_character_list md5 [])) 8 = Some 0x20"
  by (simp_all add: encode_character_list_def seal_def length_md5 ReadLe32_iff packet_header_def le32_bytes_def)

lemma sample_list_parses:
  "\<exists>r. ParseCharacterList bcrypt_md5 (encode_character_list md5 []) = Some (Inr r)"
  unfolding rfc1321.ParseCharacterList_iff
  by (rule exI, rule exI [of _ "[]"]) (simp add: encode_character_list_def seal_def length_md5)

lemma provider_sample: "provider sample_lobby_services w = bcrypt_md5"
  by (simp add: sample_lobby_services_def)

lemma sample_gate:
  "\<exists>st1 cs. gate_view_receive sample_lobby_services (Some sample_lobby_socket) (sample_armed, 0, []) = Some (st1, 1, cs) \<and>
     bootstrap_port (bootstrap st1) = 54001 \<and> \<not> hooks_enabled (trace st1) \<and> \<not> character_list_ready (lobby st1)"
proof -
  have key: "IsCompleteKeyResponse bcrypt_md5 (encode_key_response md5 sample_key_response) = Some True"
    unfolding complete_key_response_iff [OF rfc1321.md5_available_axioms] by blast
  have l: "length (encode_key_response md5 sample_key_response) = 40"
    by (simp add: encode_key_response_def seal_def length_md5)
  have "peek_packet sample_lobby_socket (replicate 40 0) (1, cs) = Some (40, encode_key_response md5 sample_key_response, 1,
      cs @ [Peeked 40 40 (encode_key_response md5 sample_key_response)])" for cs
    by (simp add: peek_packet_def sample_lobby_socket_def l)
  with key l have "await_key_response sample_lobby_services sample_lobby_socket 500 (replicate 40 0) (1, cs)
      = Some (True, encode_key_response md5 sample_key_response, 1,
          cs @ [Peeked 40 40 (encode_key_response md5 sample_key_response)])" for cs
    using await_key_response.simps(2) [of sample_lobby_services sample_lobby_socket 499 "replicate 40 0" "(1, cs)"]
    by (simp add: provider_sample del: await_key_response.simps)
  then show ?thesis
    by (simp add: gate_view_receive_def sample_armed_def RevanaConfigureDirectLobbyViewBootstrap_def sample_runtime_def
        send_bootstrap_def send_packet_def wipe_def write_log_def Let_def del: await_key_response.simps)
       (simp add: sample_lobby_socket_def wipe_def)
qed

lemma sample_observe:
  assumes "\<not> character_list_ready (lobby st)"
  shows "\<exists>st' cs'. observe_lobby_packet sample_lobby_services False sample_lobby_socket (st, 1, cs) = Some (st', 1, cs') \<and>
    character_list_ready (lobby st')"
proof -
  let ?l = "encode_character_list md5 []"
  have l: "length ?l = 32" by (simp add: encode_character_list_def seal_def length_md5)
  obtain r where r: "ParseCharacterList bcrypt_md5 ?l = Some (Inr r)" using sample_list_parses by blast
  have "peek_packet sample_lobby_socket (replicate 32 0) (1, cs) = Some (32, ?l, 1, cs @ [Peeked 32 32 ?l])" for cs
    by (simp add: peek_packet_def sample_lobby_socket_def l)
  with r l have "await_character_list sample_lobby_services sample_lobby_socket 500 (replicate 32 0) (1, cs)
      = Some (True, ?l, 1, cs @ [Peeked 32 32 ?l])" for cs
    using await_character_list.simps(2) [of sample_lobby_services sample_lobby_socket 499 "replicate 32 0" "(1, cs)"]
    by (simp add: provider_sample del: await_character_list.simps)
  moreover have "peek_packet sample_lobby_socket (replicate 12 0) (1, cs) = Some (12, take 12 ?l, 1, cs @ [Peeked 12 12 (take 12 ?l)])"
    by (simp add: peek_packet_def sample_lobby_socket_def l)
  ultimately show ?thesis
    using assms sample_list_header l
    by (simp add: observe_lobby_packet_def observe_character_list_def wipe_def write_log_def del: await_character_list.simps)
qed

theorem visible_lobby_is_authentic_witness:
  "\<exists>st' w' cs bs es. view_run sample_lobby_services (sample_flags\<lparr>kRestoreWorldLoginCharacterId := True\<rparr>)
     (sample_armed, 0, []) (st', w', cs) \<and>
     Peeked (length bs) (int (length bs)) bs \<in> set cs \<and> take (32 + 140 * length es) bs = encode_character_list md5 es"
proof -
  let ?ctx = "set_r_u64 sample_context 5 4"
  let ?flags = "sample_flags\<lparr>kRestoreWorldLoginCharacterId := True\<rparr>"
  obtain st1 cs1 where g: "gate_view_receive sample_lobby_services (Some sample_lobby_socket) (sample_armed, 0, []) = Some (st1, 1, cs1)"
    "bootstrap_port (bootstrap st1) = 54001" "\<not> hooks_enabled (trace st1)" "\<not> character_list_ready (lobby st1)"
    using sample_gate by blast
  obtain st' cs' where o: "observe_lobby_packet sample_lobby_services False sample_lobby_socket (st1, 1, cs1) = Some (st', 1, cs')"
    "character_list_ready (lobby st')" using sample_observe [OF g(4)] by blast
  have "lookup_peer sample_lobby_services a 0 = Some sample_lobby_socket" for a
    by (simp add: lookup_peer_def sample_lobby_services_def Let_def)
  with g o have h: "RevanaTraceFourByteSocketReceive sample_lobby_services ?flags ?ctx (sample_armed, 0, []) = Some (st', 1, cs')"
    by (simp add: RevanaTraceFourByteSocketReceive_def GuestTraceHooksEnabled_def Let_def sample_flags_def)
       (simp add: sample_lobby_socket_def)
  have run: "view_run sample_lobby_services ?flags (sample_armed, 0, []) (st', 1, cs')"
    by (rule view_run.Hook [OF view_run.Start h])
  from visible_lobby_is_authentic [OF sample_lobby_services_ok sample_armed_eq run o(2)] run
  show ?thesis by blast
qed

end
