(* ===== verification/Socket_Io.thy ===== *)
theory Socket_Io
  imports Revana_Prelude
begin

text \<open>
  The blocking socket routines shared by \<^verbatim>\<open>src/login/auth_client.cpp\<close> and \<^verbatim>\<open>src/login/lobby_client.cpp\<close>:
  connecting with a timeout, \<^verbatim>\<open>SendAll\<close>, \<^verbatim>\<open>ReceiveExact\<close> and \<^verbatim>\<open>ReceiveExactUntil\<close>.  Winsock, the steady
  clock and the stop token are outside the repository: they are the parameter \<open>winsock\<close>, functions
  on an abstract world \<open>'w\<close>.  The model keeps, beside that world, the list of the calls the program
  made with their arguments and results, so what was sent, and which handles were opened and closed,
  are statements about that list.

  A routine returns \<open>None\<close> when the program would access memory out of bounds or never return; the
  theorems under \<open>winsock_service\<close> and \<open>winsock_clock\<close> show that neither happens.
\<close>

section \<open>The operating system\<close>

text \<open>A socket address is the bytes of its \<^verbatim>\<open>sockaddr\<close>; \<^verbatim>\<open>ai_addrlen\<close> is their number.\<close>

record addrinfo =
  ai_family :: int
  ai_socktype :: int
  ai_protocol :: int
  ai_addr :: bytes

datatype sockopt = SO_RCVTIMEO | SO_SNDTIMEO

text \<open>
  \<open>sys_recv\<close>: \<open>None\<close> is \<^verbatim>\<open>SOCKET_ERROR\<close>, \<open>Some bs\<close> the \<open>length bs\<close> bytes received (none: the peer
  closed).  \<open>sys_send\<close>: the number of bytes accepted.  \<open>sys_select\<close>: the result and whether the socket
  is in the error set.  \<open>sys_so_error\<close>: success of \<^verbatim>\<open>getsockopt\<close> and the pending error.
\<close>

record 'w winsock =
  sys_startup :: "'w \<Rightarrow> bool \<times> 'w"
  sys_cleanup :: "'w \<Rightarrow> 'w"
  sys_getaddrinfo :: "bytes \<Rightarrow> bytes option \<Rightarrow> int \<Rightarrow> 'w \<Rightarrow> addrinfo list option \<times> 'w"
  sys_freeaddrinfo :: "'w \<Rightarrow> 'w"
  sys_socket :: "int \<Rightarrow> int \<Rightarrow> int \<Rightarrow> 'w \<Rightarrow> nat option \<times> 'w"
  sys_closesocket :: "nat \<Rightarrow> 'w \<Rightarrow> 'w"
  sys_ioctl_nonblocking :: "nat \<Rightarrow> bool \<Rightarrow> 'w \<Rightarrow> bool \<times> 'w"
  sys_connect :: "nat \<Rightarrow> bytes \<Rightarrow> 'w \<Rightarrow> bool \<times> 'w"
  sys_last_error :: "'w \<Rightarrow> int"
  sys_select :: "nat \<Rightarrow> nat \<Rightarrow> nat \<Rightarrow> 'w \<Rightarrow> (int \<times> bool) \<times> 'w"
  sys_so_error :: "nat \<Rightarrow> 'w \<Rightarrow> (bool \<times> int) \<times> 'w"
  sys_setsockopt :: "nat \<Rightarrow> sockopt \<Rightarrow> u32 \<Rightarrow> 'w \<Rightarrow> bool \<times> 'w"
  sys_send :: "nat \<Rightarrow> bytes \<Rightarrow> 'w \<Rightarrow> nat option \<times> 'w"
  sys_recv :: "nat \<Rightarrow> nat \<Rightarrow> 'w \<Rightarrow> bytes option \<times> 'w"
  sys_steady_clock :: "'w \<Rightarrow> int \<times> 'w"
  sys_stop_requested :: "'w \<Rightarrow> bool \<times> 'w"

abbreviation (input) WSAEWOULDBLOCK :: int where "WSAEWOULDBLOCK \<equiv> 10035"
abbreviation (input) WSAETIMEDOUT :: int where "WSAETIMEDOUT \<equiv> 10060"
abbreviation (input) AF_INET :: int where "AF_INET \<equiv> 2"
abbreviation (input) AF_UNSPEC :: int where "AF_UNSPEC \<equiv> 0"
abbreviation (input) SOCK_STREAM :: int where "SOCK_STREAM \<equiv> 1"
abbreviation (input) IPPROTO_TCP :: int where "IPPROTO_TCP \<equiv> 6"
abbreviation (input) INT_MAX :: nat where "INT_MAX \<equiv> 2147483647"

text \<open>
  The calls of the program; the last eleven are those of the TLS client.  \<open>AcquireCredentials\<close> records
  whether the program validates the certificate itself and the success, \<open>InitializeContext\<close> whether it is
  the first call, whether that made the context handle valid and whether the provider allocated a token,
  \<open>CertificateHash\<close> the hash it gave, \<open>DecryptMessage\<close> how many bytes it was handed.
\<close>

datatype net_call =
    WSAStartup bool
  | WSACleanup
  | GetAddrInfo bytes "bytes option" bool
  | FreeAddrInfo
  | OpenSocket "nat option"
  | CloseSocket nat
  | IoctlNonblocking nat bool
  | Connect nat bytes bool
  | Select nat
  | GetSoError nat
  | SetSockOpt nat sockopt u32
  | SendBytes nat bytes "nat option"
  | RecvBytes nat nat "bytes option"
  | SecureZeroMemory nat
  | AcquireCredentials bool bool
  | InitializeContext bool bool bool
  | CompleteAuthToken
  | FreeContextBuffer
  | QueryStreamSizes
  | CertificateHash "bytes option"
  | FreeCertificate
  | EncryptMessage bytes
  | DecryptMessage nat
  | DeleteContext
  | FreeCredentials

record 'w net =
  world :: 'w
  calls :: "net_call list"

definition called :: "net_call \<Rightarrow> 'w \<Rightarrow> 'w net \<Rightarrow> 'w net" where
  "called c w n = n\<lparr>world := w, calls := calls n @ [c]\<rparr>"

definition ioctlsocket :: "'w winsock \<Rightarrow> nat \<Rightarrow> bool \<Rightarrow> 'w net \<Rightarrow> bool \<times> 'w net" where
  "ioctlsocket ws s nb n =
     (case sys_ioctl_nonblocking ws s nb (world n) of (ok, w) \<Rightarrow> (ok, called (IoctlNonblocking s nb) w n))"

definition connect :: "'w winsock \<Rightarrow> nat \<Rightarrow> bytes \<Rightarrow> 'w net \<Rightarrow> bool \<times> 'w net" where
  "connect ws s address n =
     (case sys_connect ws s address (world n) of (ok, w) \<Rightarrow> (ok, called (Connect s address ok) w n))"

definition setsockopt :: "'w winsock \<Rightarrow> nat \<Rightarrow> sockopt \<Rightarrow> u32 \<Rightarrow> 'w net \<Rightarrow> bool \<times> 'w net" where
  "setsockopt ws s opt v n =
     (case sys_setsockopt ws s opt v (world n) of (ok, w) \<Rightarrow> (ok, called (SetSockOpt s opt v) w n))"

definition open_socket :: "'w winsock \<Rightarrow> int \<Rightarrow> int \<Rightarrow> int \<Rightarrow> 'w net \<Rightarrow> nat option \<times> 'w net" where
  "open_socket ws family kind protocol n =
     (case sys_socket ws family kind protocol (world n) of (s, w) \<Rightarrow> (s, called (OpenSocket s) w n))"

definition close_socket :: "'w winsock \<Rightarrow> nat \<Rightarrow> 'w net \<Rightarrow> 'w net" where
  "close_socket ws s n = called (CloseSocket s) (sys_closesocket ws s (world n)) n"

definition send :: "'w winsock \<Rightarrow> nat \<Rightarrow> bytes \<Rightarrow> 'w net \<Rightarrow> nat option \<times> 'w net" where
  "send ws s bs n = (case sys_send ws s bs (world n) of (k, w) \<Rightarrow> (k, called (SendBytes s bs k) w n))"

definition recv :: "'w winsock \<Rightarrow> nat \<Rightarrow> nat \<Rightarrow> 'w net \<Rightarrow> bytes option \<times> 'w net" where
  "recv ws s cap n = (case sys_recv ws s cap (world n) of (r, w) \<Rightarrow> (r, called (RecvBytes s cap r) w n))"

definition secure_zero :: "nat \<Rightarrow> 'w net \<Rightarrow> 'w net" where
  "secure_zero k n = called (SecureZeroMemory k) (world n) n"

definition stop_requested :: "'w winsock \<Rightarrow> 'w net \<Rightarrow> bool \<times> 'w net" where
  "stop_requested ws n = (case sys_stop_requested ws (world n) of (b, w) \<Rightarrow> (b, n\<lparr>world := w\<rparr>))"

definition steady_now :: "'w winsock \<Rightarrow> 'w net \<Rightarrow> int \<times> 'w net" where
  "steady_now ws n = (case sys_steady_clock ws (world n) of (t, w) \<Rightarrow> (t, n\<lparr>world := w\<rparr>))"

section \<open>Connecting\<close>

definition WaitForConnect :: "'w winsock \<Rightarrow> nat \<Rightarrow> u32 \<Rightarrow> 'w net \<Rightarrow> bool \<times> 'w net" where
  "WaitForConnect ws s timeout_ms n =
     (let tv_sec = unat (timeout_ms div 1000); tv_usec = unat (timeout_ms mod 1000 * 1000) in
      case sys_select ws s tv_sec tv_usec (world n) of ((selected, in_error_set), w) \<Rightarrow>
        let n = called (Select s) w n in
        if selected \<le> 0 \<or> in_error_set then (False, n)
        else case sys_so_error ws s (world n) of ((ok, error), w) \<Rightarrow>
               (ok \<and> error = 0, called (GetSoError s) w n))"

text \<open>\<^verbatim>\<open>ConnectSocket\<close> of the authentication client.\<close>

definition ConnectSocket :: "'w winsock \<Rightarrow> nat \<Rightarrow> bytes \<Rightarrow> u32 \<Rightarrow> 'w net \<Rightarrow> bool \<times> 'w net" where
  "ConnectSocket ws s address timeout_ms n =
     (case ioctlsocket ws s True n of
        (False, n) \<Rightarrow> (False, n)
      | (True, n) \<Rightarrow>
          let (result, n) = connect ws s address n;
              (connected, n) =
                (if result then (True, n)
                 else if sys_last_error ws (world n) = WSAEWOULDBLOCK then WaitForConnect ws s timeout_ms n
                 else (False, n))
          in case ioctlsocket ws s False n of
               (False, n) \<Rightarrow> (False, n)
             | (True, n) \<Rightarrow> (connected, n))"

text \<open>\<^verbatim>\<open>ConnectSocket\<close> of the lobby client, which also sets the timeouts of the connected socket.\<close>

definition ConnectSocket_lobby :: "'w winsock \<Rightarrow> nat \<Rightarrow> bytes \<Rightarrow> u32 \<Rightarrow> 'w net \<Rightarrow> bool \<times> 'w net" where
  "ConnectSocket_lobby ws s address timeout_ms n =
     (case ioctlsocket ws s True n of
        (False, n) \<Rightarrow> (False, n)
      | (True, n) \<Rightarrow>
          let (result, n) = connect ws s address n;
              (connected, n) =
                (if result then (True, n)
                 else if sys_last_error ws (world n) = WSAEWOULDBLOCK then WaitForConnect ws s timeout_ms n
                 else (False, n))
          in case ioctlsocket ws s False n of
               (False, n) \<Rightarrow> (False, n)
             | (True, n) \<Rightarrow>
                 if \<not> connected then (False, n)
                 else case setsockopt ws s SO_RCVTIMEO timeout_ms n of
                        (False, n) \<Rightarrow> (False, n)
                      | (True, n) \<Rightarrow> setsockopt ws s SO_SNDTIMEO timeout_ms n)"

section \<open>Streams\<close>

function SendAll :: "'w winsock \<Rightarrow> nat \<Rightarrow> bytes \<Rightarrow> 'w net \<Rightarrow> (bool \<times> 'w net) option" where
  "SendAll ws s bs n =
     (if bs = [] then Some (True, n)
      else
        let chunk_size = min (length bs) INT_MAX in
        case send ws s (take chunk_size bs) n of
          (None, n) \<Rightarrow> Some (False, n)
        | (Some sent, n) \<Rightarrow>
            if sent = 0 then Some (False, n)
            else if length bs < sent then None
            else SendAll ws s (drop sent bs) n)"
  by pat_completeness auto

termination by (relation "measure (\<lambda>(ws, s, bs, n). length bs)") auto

text \<open>
  A receive fills its span from the front; the result is the flag and the bytes stored so far.
\<close>

function ReceiveExact :: "'w winsock \<Rightarrow> nat \<Rightarrow> nat \<Rightarrow> 'w net \<Rightarrow> (bool \<times> bytes \<times> 'w net) option" where
  "ReceiveExact ws s wanted n =
     (if wanted = 0 then Some (True, [], n)
      else
        let chunk_size = min wanted INT_MAX in
        case recv ws s chunk_size n of
          (None, n) \<Rightarrow> Some (False, [], n)
        | (Some bs, n) \<Rightarrow>
            if bs = [] then Some (False, [], n)
            else if wanted < length bs then None
            else do {
              (ok, rest, n) \<leftarrow> ReceiveExact ws s (wanted - length bs) n;
              Some (ok, bs @ rest, n)
            })"
  by pat_completeness auto

termination by (relation "measure (\<lambda>(ws, s, wanted, n). wanted)") auto

declare SendAll.simps [simp del] ReceiveExact.simps [simp del]

datatype ReceiveWaitResult = kComplete | kCancelled | kTimedOut | kIoFailed

partial_function (option) receive_until_loop ::
  "'w winsock \<Rightarrow> nat \<Rightarrow> int \<Rightarrow> nat \<Rightarrow> 'w net \<Rightarrow> (ReceiveWaitResult \<times> bytes \<times> 'w net) option" where
  "receive_until_loop ws s deadline wanted n =
     (if wanted = 0 then Some (kComplete, [], n)
      else
        let (stop, n) = stop_requested ws n in
        if stop then Some (kCancelled, [], n)
        else
          let (now, n) = steady_now ws n in
          if deadline \<le> now then Some (kTimedOut, [], n)
          else
            let chunk_size = min wanted INT_MAX;
                (received, n) = recv ws s chunk_size n
            in case received of
                 Some bs \<Rightarrow>
                   if bs = [] then Some (kIoFailed, [], n)
                   else if wanted < length bs then None
                   else do {
                     (r, rest, n) \<leftarrow> receive_until_loop ws s deadline (wanted - length bs) n;
                     Some (r, bs @ rest, n)
                   }
               | None \<Rightarrow>
                   if sys_last_error ws (world n) \<noteq> WSAETIMEDOUT \<and>
                      sys_last_error ws (world n) \<noteq> WSAEWOULDBLOCK
                   then Some (kIoFailed, [], n)
                   else receive_until_loop ws s deadline wanted n)"

abbreviation (input) kPollTimeoutMs :: u32 where "kPollTimeoutMs \<equiv> 100"

text \<open>The steady clock counts nanoseconds.\<close>

definition ReceiveExactUntil ::
  "'w winsock \<Rightarrow> nat \<Rightarrow> nat \<Rightarrow> u32 \<Rightarrow> 'w net \<Rightarrow> (ReceiveWaitResult \<times> bytes \<times> 'w net) option" where
  "ReceiveExactUntil ws s wanted timeout_ms n =
     (case setsockopt ws s SO_RCVTIMEO kPollTimeoutMs n of
        (False, n) \<Rightarrow> Some (kIoFailed, [], n)
      | (True, n) \<Rightarrow>
          let (now, n) = steady_now ws n in
          receive_until_loop ws s (now + uint timeout_ms * 1000000) wanted n)"

section \<open>What a run did\<close>

fun sent_bytes :: "net_call list \<Rightarrow> bytes" where
  "sent_bytes [] = []"
| "sent_bytes (SendBytes s bs (Some k) # cs) = take k bs @ sent_bytes cs"
| "sent_bytes (c # cs) = sent_bytes cs"

fun received_bytes :: "net_call list \<Rightarrow> bytes" where
  "received_bytes [] = []"
| "received_bytes (RecvBytes s cap (Some bs) # cs) = bs @ received_bytes cs"
| "received_bytes (c # cs) = received_bytes cs"

text \<open>Handles opened and not closed again, in the order of opening; \<open>None\<close> for an unmatched close.\<close>

fun open_handles :: "net_call list \<Rightarrow> nat list \<Rightarrow> nat list option" where
  "open_handles [] hs = Some hs"
| "open_handles (OpenSocket (Some s) # cs) hs = open_handles cs (s # hs)"
| "open_handles (CloseSocket s # cs) hs = (if s \<in> set hs then open_handles cs (remove1 s hs) else None)"
| "open_handles (c # cs) hs = open_handles cs hs"

lemma sent_bytes_append [simp]: "sent_bytes (cs @ ds) = sent_bytes cs @ sent_bytes ds"
  by (induction cs rule: sent_bytes.induct) auto

lemma received_bytes_append [simp]: "received_bytes (cs @ ds) = received_bytes cs @ received_bytes ds"
  by (induction cs rule: received_bytes.induct) auto

lemma open_handles_append:
  "open_handles (cs @ ds) hs = do { hs \<leftarrow> open_handles cs hs; open_handles ds hs }"
  by (induction cs hs rule: open_handles.induct) auto

text \<open>The calls a stream operation makes on its socket.\<close>

fun stream_call :: "nat \<Rightarrow> net_call \<Rightarrow> bool" where
  "stream_call s (SendBytes t bs k) = (t = s)"
| "stream_call s (RecvBytes t cap r) = (t = s)"
| "stream_call s (SetSockOpt t opt v) = (t = s)"
| "stream_call s (IoctlNonblocking t nb) = (t = s)"
| "stream_call s (Connect t address ok) = (t = s)"
| "stream_call s (Select t) = (t = s)"
| "stream_call s (GetSoError t) = (t = s)"
| "stream_call s (SecureZeroMemory k) = True"
| "stream_call s c = False"

lemma open_handles_stream: "\<forall>c \<in> set cs. stream_call s c \<Longrightarrow> open_handles cs hs = Some hs"
proof (induction cs)
  case (Cons c cs)
  then show ?case by (cases c) auto
qed simp

lemma calls_called [simp]: "calls (called c w n) = calls n @ [c]" and world_called [simp]: "world (called c w n) = w"
  by (simp_all add: called_def)

section \<open>The calls of the stream operations\<close>

text \<open>
  \<open>made s n n' cs\<close>: between \<open>n\<close> and \<open>n'\<close> the program made the calls \<open>cs\<close>, all stream calls on \<open>s\<close>.
\<close>

definition made :: "nat \<Rightarrow> 'w net \<Rightarrow> 'w net \<Rightarrow> net_call list \<Rightarrow> bool" where
  "made s n n' cs \<longleftrightarrow> calls n' = calls n @ cs \<and> (\<forall>c \<in> set cs. stream_call s c)"

lemma made_refl [intro]: "made s n n []"
  by (simp add: made_def)

lemma made_trans: "made s n n' cs \<Longrightarrow> made s n' n'' ds \<Longrightarrow> made s n n'' (cs @ ds)"
  by (auto simp: made_def)

lemma made_called: "stream_call s c \<Longrightarrow> made s n (called c w n) [c]"
  by (simp add: made_def)

lemma made_Cons: "stream_call s c \<Longrightarrow> made s (called c w n) n' cs \<Longrightarrow> made s n n' (c # cs)"
  by (simp add: made_def)

section \<open>The contract of the operating system\<close>

locale winsock_service =
  fixes ws :: "'w winsock"
  assumes send_bound: "sys_send ws s bs w = (Some k, w') \<Longrightarrow> k \<le> length bs"
    and recv_bound: "sys_recv ws s cap w = (Some bs, w') \<Longrightarrow> length bs \<le> cap"
begin

lemma SendAll_returns: "SendAll ws s bs n \<noteq> None"
proof (induction bs arbitrary: n rule: length_induct)
  case (1 bs)
  show ?case
  proof (cases "bs = []")
    case False
    obtain r n' where snd: "send ws s (take (min (length bs) INT_MAX) bs) n = (r, n')"
      by (cases "send ws s (take (min (length bs) INT_MAX) bs) n")
    have "k \<le> length bs" if "r = Some k" for k
      using snd that send_bound [of s "take (min (length bs) INT_MAX) bs" "world n" k "world n'"]
      by (auto simp: send_def split: prod.splits)
    then show ?thesis
      using False snd "1.IH" by (subst SendAll.simps) (auto simp: Let_def split: option.split)
  qed (simp add: SendAll.simps)
qed

lemma ReceiveExact_returns: "ReceiveExact ws s wanted n \<noteq> None"
proof (induction wanted arbitrary: n rule: less_induct)
  case (less wanted)
  obtain r n' where rcv: "recv ws s (min wanted INT_MAX) n = (r, n')"
    by (cases "recv ws s (min wanted INT_MAX) n")
  have bound: "length bs \<le> wanted" if "r = Some bs" for bs
    using rcv that recv_bound [of s "min wanted INT_MAX" "world n" bs "world n'"]
    by (auto simp: recv_def split: prod.splits)
  have more: "ReceiveExact ws s (wanted - length bs) n' \<noteq> None" if "bs \<noteq> []" "wanted \<noteq> 0" for bs
    using that by (intro less.IH) simp
  show ?case
  proof (cases r)
    case (Some bs)
    then show ?thesis using rcv bound [of bs] more [of bs]
      by (subst ReceiveExact.simps) (auto simp: Let_def)
  qed (use rcv in \<open>subst ReceiveExact.simps; auto simp: Let_def\<close>)
qed

text \<open>
  What \<^verbatim>\<open>SendAll\<close> sent is a prefix of its bytes, all of them when it reports success; it receives
  nothing.
\<close>

lemma SendAll_calls:
  "SendAll ws s bs n = Some (ok, n') \<Longrightarrow>
     \<exists>cs. made s n n' cs \<and> received_bytes cs = [] \<and>
       (\<exists>rest. bs = sent_bytes cs @ rest \<and> (ok \<longleftrightarrow> rest = []))"
proof (induction bs arbitrary: n rule: length_induct)
  case (1 bs)
  show ?case
  proof (cases "bs = []")
    case True
    with 1 show ?thesis by (auto simp: SendAll.simps)
  next
    case False
    define chunk where "chunk = min (length bs) INT_MAX"
    obtain r n1 where snd: "send ws s (take chunk bs) n = (r, n1)" by (cases "send ws s (take chunk bs) n")
    then obtain w where n1: "n1 = called (SendBytes s (take chunk bs) r) w n"
      by (auto simp: send_def split: prod.splits)
    from False snd "1.prems" show ?thesis
    proof (cases "r = None \<or> r = Some 0")
      case True
      then have "ok = False" "n' = n1"
        using False snd "1.prems" by (auto simp: SendAll.simps Let_def chunk_def)
      then show ?thesis using True False n1
        by (intro exI [of _ "[SendBytes s (take chunk bs) r]"]) (auto intro: made_called)
    next
      case more: False
      then obtain k where k: "r = Some k" "k \<noteq> 0" by auto
      have rec: "SendAll ws s (drop k bs) n1 = Some (ok, n')" "k \<le> length bs"
        using False snd "1.prems" k by (auto simp: SendAll.simps [of ws s bs] Let_def chunk_def split: if_splits)
      have k': "k \<le> chunk"
        using snd k send_bound [of s "take chunk bs" "world n" k "world n1"]
        by (auto simp: send_def split: prod.splits)
      from "1.IH" k False have "SendAll ws s (drop k bs) n1 = Some (ok, n') \<longrightarrow>
        (\<exists>cs. made s n1 n' cs \<and> received_bytes cs = [] \<and>
          (\<exists>rest. drop k bs = sent_bytes cs @ rest \<and> (ok \<longleftrightarrow> rest = [])))" by simp
      with rec obtain cs rest where cs: "made s n1 n' cs" "received_bytes cs = []"
        "drop k bs = sent_bytes cs @ rest" "ok \<longleftrightarrow> rest = []" by blast
      have "bs = sent_bytes (SendBytes s (take chunk bs) r # cs) @ rest"
        using cs(3) k k' rec(2) append_take_drop_id [of k bs] by (simp add: min_def)
      moreover have "made s n n' (SendBytes s (take chunk bs) r # cs)"
        using cs(1) n1 by (auto intro: made_Cons)
      ultimately show ?thesis using cs k by (intro exI [of _ "SendBytes s (take chunk bs) r # cs"]) auto
    qed
  qed
qed

text \<open>What \<^verbatim>\<open>ReceiveExact\<close> received is what it stored; it sends nothing.\<close>

lemma ReceiveExact_calls:
  "ReceiveExact ws s wanted n = Some (ok, out, n') \<Longrightarrow>
     \<exists>cs. made s n n' cs \<and> sent_bytes cs = [] \<and> received_bytes cs = out \<and>
       length out \<le> wanted \<and> (ok \<longleftrightarrow> length out = wanted)"
proof (induction wanted arbitrary: n ok out rule: less_induct)
  case (less wanted)
  define chunk where "chunk = min wanted INT_MAX"
  obtain r n1 where rcv: "recv ws s chunk n = (r, n1)" by (cases "recv ws s chunk n")
  then obtain w where n1: "n1 = called (RecvBytes s chunk r) w n"
    by (auto simp: recv_def split: prod.splits)
  show ?case
  proof (cases "wanted = 0 \<or> r = None \<or> r = Some []")
    case True
    show ?thesis
    proof (cases "wanted = 0")
      case True
      then show ?thesis using less.prems by (auto simp: ReceiveExact.simps)
    next
      case False
      then have "ok = False" "out = []" "n' = n1"
        using True less.prems rcv by (auto simp: ReceiveExact.simps [of ws s wanted] Let_def chunk_def)
      then show ?thesis using True False n1
        by (intro exI [of _ "[RecvBytes s chunk r]"]) (auto simp: made_def)
    qed
  next
    case False
    then obtain bs where bs: "r = Some bs" "bs \<noteq> []" "wanted \<noteq> 0" by auto
    then obtain rest where rest: "ReceiveExact ws s (wanted - length bs) n1 = Some (ok, rest, n')"
      "out = bs @ rest" "length bs \<le> wanted"
      using less.prems rcv
      by (auto simp: ReceiveExact.simps [of ws s wanted] Let_def chunk_def split: if_splits bind_splits)
    with less.IH [OF _ rest(1)] bs obtain cs where cs: "made s n1 n' cs" "sent_bytes cs = []"
      "received_bytes cs = rest" "length rest \<le> wanted - length bs" "ok \<longleftrightarrow> length rest = wanted - length bs"
      by auto
    have "made s n n' (RecvBytes s chunk r # cs)" using cs(1) n1 by (auto intro: made_Cons)
    then show ?thesis using cs bs rest
      by (intro exI [of _ "RecvBytes s chunk r # cs"]) auto
  qed
qed

end

text \<open>
  The steady clock never goes back, and a receive that reports a timeout took time.
\<close>

locale winsock_clock = winsock_service ws for ws :: "'w winsock" +
  fixes ticks :: "'w \<Rightarrow> int"
  assumes clock_reads: "sys_steady_clock ws w = (t, w') \<Longrightarrow> t = ticks w \<and> ticks w \<le> ticks w'"
    and stop_ticks: "ticks w \<le> ticks (snd (sys_stop_requested ws w))"
    and recv_ticks: "ticks w \<le> ticks (snd (sys_recv ws s cap w))"
    and timeout_ticks: "sys_recv ws s cap w = (None, w') \<Longrightarrow>
          sys_last_error ws w' = WSAETIMEDOUT \<or> sys_last_error ws w' = WSAEWOULDBLOCK \<Longrightarrow> ticks w < ticks w'"
begin

lemma receive_until_loop_returns: "receive_until_loop ws s deadline wanted n \<noteq> None"
proof (induction "(wanted, nat (deadline - ticks (world n)))" arbitrary: wanted n
    rule: wf_induct_rule [OF wf_lex_prod [OF wf_less_than wf_less_than]])
  case 1
  note IH = this
  obtain stop n1 where st: "stop_requested ws n = (stop, n1)" by (cases "stop_requested ws n")
  obtain now n2 where nw: "steady_now ws n1 = (now, n2)" by (cases "steady_now ws n1")
  obtain r n3 where rc: "recv ws s (min wanted INT_MAX) n2 = (r, n3)"
    by (cases "recv ws s (min wanted INT_MAX) n2")
  have t1: "ticks (world n) \<le> ticks (world n1)"
    using st stop_ticks [of "world n"] by (auto simp: stop_requested_def split: prod.splits)
  have t2: "now = ticks (world n1)" "ticks (world n1) \<le> ticks (world n2)"
    using nw clock_reads [of "world n1"] by (auto simp: steady_now_def split: prod.splits)
  have t3: "ticks (world n2) \<le> ticks (world n3)"
    using rc recv_ticks [of "world n2" s "min wanted INT_MAX"] by (auto simp: recv_def split: prod.splits)
  have bound: "length bs \<le> wanted" if "r = Some bs" for bs
    using rc that recv_bound [of s "min wanted INT_MAX" "world n2" bs "world n3"]
    by (auto simp: recv_def split: prod.splits)
  have again: "receive_until_loop ws s deadline wanted n3 \<noteq> None"
    if "r = None" "now < deadline" "sys_last_error ws (world n3) = WSAETIMEDOUT \<or>
      sys_last_error ws (world n3) = WSAEWOULDBLOCK"
  proof (rule IH)
    have "ticks (world n2) < ticks (world n3)"
      using rc that timeout_ticks [of s "min wanted INT_MAX" "world n2" "world n3"]
      by (auto simp: recv_def split: prod.splits)
    then show "((wanted, nat (deadline - ticks (world n3))), wanted, nat (deadline - ticks (world n)))
        \<in> less_than <*lex*> less_than"
      using t1 t2 that(2) by simp
  qed
  have more: "receive_until_loop ws s deadline (wanted - length bs) n3 \<noteq> None"
    if "bs \<noteq> []" "wanted \<noteq> 0" for bs
    using that by (intro IH) auto
  show ?case
  proof (cases r)
    case None
    then show ?thesis using st nw rc again
      by (subst receive_until_loop.simps) (auto simp: Let_def)
  next
    case (Some bs)
    then show ?thesis using st nw rc bound [of bs] more [of bs]
      by (subst receive_until_loop.simps) (auto simp: Let_def)
  qed
qed

lemma ReceiveExactUntil_returns: "ReceiveExactUntil ws s wanted timeout_ms n \<noteq> None"
  using receive_until_loop_returns
  by (auto simp: ReceiveExactUntil_def split: prod.split bool.split)

end


section \<open>The calls of a receive with a deadline\<close>

definition receive_outcome ::
  "nat \<Rightarrow> nat \<Rightarrow> 'w net \<Rightarrow> ReceiveWaitResult \<times> bytes \<times> 'w net \<Rightarrow> bool" where
  "receive_outcome s wanted n y \<longleftrightarrow>
     (\<exists>cs. made s n (snd (snd y)) cs \<and> sent_bytes cs = [] \<and> received_bytes cs = fst (snd y) \<and>
        length (fst (snd y)) \<le> wanted \<and> (fst y = kComplete \<longleftrightarrow> length (fst (snd y)) = wanted))"

lemma receive_until_loop_calls:
  assumes "receive_until_loop ws s deadline wanted n = Some y"
  shows "receive_outcome s wanted n y"
proof (rule receive_until_loop.raw_induct [OF _ assms])
  fix loop :: "'w winsock \<Rightarrow> nat \<Rightarrow> int \<Rightarrow> nat \<Rightarrow> 'w net \<Rightarrow> (ReceiveWaitResult \<times> bytes \<times> 'w net) option"
    and ws s deadline wanted n y
  assume 1: "\<And>ws s deadline wanted n y.
      loop ws s deadline wanted n = Some y \<Longrightarrow> receive_outcome s wanted n y"
    and step: "(if wanted = 0 then Some (kComplete, [], n)
      else
        let (stop, n) = stop_requested ws n in
        if stop then Some (kCancelled, [], n)
        else
          let (now, n) = steady_now ws n in
          if deadline \<le> now then Some (kTimedOut, [], n)
          else
            let chunk_size = min wanted INT_MAX;
                (received, n) = recv ws s chunk_size n
            in case received of
                 Some bs \<Rightarrow>
                   if bs = [] then Some (kIoFailed, [], n)
                   else if wanted < length bs then None
                   else do {
                     (r, rest, n) \<leftarrow> loop ws s deadline (wanted - length bs) n;
                     Some (r, bs @ rest, n)
                   }
               | None \<Rightarrow>
                   if sys_last_error ws (world n) \<noteq> WSAETIMEDOUT \<and>
                      sys_last_error ws (world n) \<noteq> WSAEWOULDBLOCK
                   then Some (kIoFailed, [], n)
                   else loop ws s deadline wanted n) = Some y"
  obtain r out n' where y: "y = (r, out, n')" by (cases y)
  show "receive_outcome s wanted n y"
  proof (cases "wanted = 0")
    case True
    with step y show ?thesis by (auto simp: receive_outcome_def)
  next
    case False
    obtain stop n1 where st: "stop_requested ws n = (stop, n1)" by (cases "stop_requested ws n")
    obtain now n2 where nw: "steady_now ws n1 = (now, n2)" by (cases "steady_now ws n1")
    obtain rc n3 where rc: "recv ws s (min wanted INT_MAX) n2 = (rc, n3)"
      by (cases "recv ws s (min wanted INT_MAX) n2")
    have same: "calls n1 = calls n" "calls n2 = calls n"
      using st nw by (auto simp: stop_requested_def steady_now_def split: prod.splits)
    obtain w where n3: "n3 = called (RecvBytes s (min wanted INT_MAX) rc) w n2"
      using rc by (auto simp: recv_def split: prod.splits)
    note body = step [unfolded y st nw rc Let_def prod.case, simplified False if_False]
    let ?c = "RecvBytes s (min wanted INT_MAX) rc"
    have m3: "made s n n3 [?c]" using n3 same by (simp add: made_def)
    consider (early) "out = []" "r \<noteq> kComplete" "calls n' = calls n"
      | (failed) "out = []" "r \<noteq> kComplete" "n' = n3" "received_bytes [?c] = []"
      | (more) bs rest where "rc = Some bs" "bs \<noteq> []" "length bs \<le> wanted" "out = bs @ rest"
          "loop ws s deadline (wanted - length bs) n3 = Some (r, rest, n')"
      | (again) "rc = None" "loop ws s deadline wanted n3 = Some (r, out, n')"
      using body same by (auto split: if_splits option.splits bind_splits)
    then show ?thesis
    proof cases
      case early
      then show ?thesis unfolding receive_outcome_def y using False by (intro exI [of _ "[]"]) (simp add: made_def)
    next
      case failed
      then show ?thesis unfolding receive_outcome_def y using False m3 by (intro exI [of _ "[?c]"]) (cases rc; simp)
    next
      case more
      with 1 [OF more(5)] obtain cs where "made s n3 n' cs" "sent_bytes cs = []" "received_bytes cs = rest"
        "length rest \<le> wanted - length bs" "r = kComplete \<longleftrightarrow> length rest = wanted - length bs" by (auto simp: receive_outcome_def)
      then show ?thesis unfolding receive_outcome_def y using more m3 made_trans [OF m3]
        by (intro exI [of _ "[?c] @ cs"]) auto
    next
      case again
      with 1 [OF again(2)] obtain cs where "made s n3 n' cs" "sent_bytes cs = []" "received_bytes cs = out"
        "length out \<le> wanted" "r = kComplete \<longleftrightarrow> length out = wanted" by (auto simp: receive_outcome_def)
      then show ?thesis unfolding receive_outcome_def y using again made_trans [OF m3]
        by (intro exI [of _ "[?c] @ cs"]) auto
    qed
  qed
qed

lemma ReceiveExactUntil_calls:
  assumes "ReceiveExactUntil ws s wanted timeout_ms n = Some (r, out, n')"
  shows "\<exists>cs. made s n n' cs \<and> sent_bytes cs = [] \<and> received_bytes cs = out \<and>
       length out \<le> wanted \<and> (r = kComplete \<longrightarrow> length out = wanted) \<and>
       (0 < wanted \<longrightarrow> r \<noteq> kComplete \<longrightarrow> length out < wanted)"
proof -
  obtain ok n1 where so: "setsockopt ws s SO_RCVTIMEO kPollTimeoutMs n = (ok, n1)"
    by (cases "setsockopt ws s SO_RCVTIMEO kPollTimeoutMs n")
  then have m1: "made s n n1 [SetSockOpt s SO_RCVTIMEO kPollTimeoutMs]"
    by (auto simp: setsockopt_def made_def split: prod.splits)
  obtain now n2 where nw: "steady_now ws n1 = (now, n2)" by (cases "steady_now ws n1")
  show ?thesis
  proof (cases ok)
    case True
    with assms so nw have loop: "receive_until_loop ws s (now + uint timeout_ms * 1000000) wanted n2 = Some (r, out, n')"
      by (simp add: ReceiveExactUntil_def)
    have "made s n n2 [SetSockOpt s SO_RCVTIMEO kPollTimeoutMs]"
      using m1 nw by (auto simp: made_def steady_now_def split: prod.splits)
    note made_trans [OF this]
    with receive_until_loop_calls [OF loop, unfolded receive_outcome_def] show ?thesis
      by (elim exE conjE, intro exI [of _ "[SetSockOpt s SO_RCVTIMEO kPollTimeoutMs] @ _"]) auto
  next
    case False
    with assms so m1 show ?thesis
      by (intro exI [of _ "[SetSockOpt s SO_RCVTIMEO kPollTimeoutMs]"]) (auto simp: ReceiveExactUntil_def)
  qed
qed

section \<open>The calls of connecting\<close>

text \<open>Connecting sends and receives nothing and keeps the handle open.\<close>

definition quiet_on :: "nat \<Rightarrow> 'w net \<Rightarrow> 'w net \<Rightarrow> bool" where
  "quiet_on s n n' \<longleftrightarrow> (\<exists>cs. made s n n' cs \<and> sent_bytes cs = [] \<and> received_bytes cs = [])"

lemma quiet_on_refl [intro]: "quiet_on s n n"
  by (auto simp: quiet_on_def)

lemma quiet_on_trans [trans]: "quiet_on s n n' \<Longrightarrow> quiet_on s n' n'' \<Longrightarrow> quiet_on s n n''"
  unfolding quiet_on_def using made_trans by fastforce

lemma quiet_ioctl: "ioctlsocket ws s nb n = (ok, n') \<Longrightarrow> quiet_on s n n'"
  by (auto simp: ioctlsocket_def quiet_on_def split: prod.splits intro!: exI [of _ "[IoctlNonblocking s nb]"] made_called)

lemma quiet_connect: "connect ws s a n = (ok, n') \<Longrightarrow> quiet_on s n n'"
  by (auto simp: connect_def quiet_on_def split: prod.splits intro!: exI [of _ "[Connect s a ok]"] made_called)

lemma quiet_setsockopt: "setsockopt ws s opt v n = (ok, n') \<Longrightarrow> quiet_on s n n'"
  by (auto simp: setsockopt_def quiet_on_def split: prod.splits intro!: exI [of _ "[SetSockOpt s opt v]"] made_called)

lemma quiet_wait: "WaitForConnect ws s t n = (ok, n') \<Longrightarrow> quiet_on s n n'"
  by (auto simp: WaitForConnect_def quiet_on_def made_def Let_def split: prod.splits if_splits
      intro: exI [of _ "[Select s]"] exI [of _ "[Select s, GetSoError s]"])

lemmas quiet_steps = quiet_ioctl quiet_connect quiet_setsockopt quiet_wait

lemma quiet_ConnectSocket: "ConnectSocket ws s a t n = (ok, n') \<Longrightarrow> quiet_on s n n'"
  by (auto simp: ConnectSocket_def Let_def split: prod.splits bool.splits if_splits
      dest!: quiet_steps) (meson quiet_on_trans)+

lemma quiet_ConnectSocket_lobby: "ConnectSocket_lobby ws s a t n = (ok, n') \<Longrightarrow> quiet_on s n n'"
  by (auto simp: ConnectSocket_lobby_def Let_def split: prod.splits bool.splits if_splits
      dest!: quiet_steps) (meson quiet_on_trans)+

section \<open>A scripted peer\<close>

text \<open>
  A concrete operating system for the witnesses: one resolvable address, sockets that always
  connect, a peer that accepts everything and whose answers are a fixed byte string; once it is
  used up a receive times out after 100 milliseconds.
\<close>

record peer =
  incoming :: bytes
  clock_ns :: int
  stopped :: bool

definition scripted :: "peer winsock" where
  "scripted =
     \<lparr>sys_startup = Pair True, sys_cleanup = id,
      sys_getaddrinfo = (\<lambda>_ _ _ w.
        (Some [\<lparr>ai_family = AF_INET, ai_socktype = SOCK_STREAM, ai_protocol = IPPROTO_TCP,
                ai_addr = [2, 0, 0, 0, 127, 0, 0, 1, 0, 0, 0, 0, 0, 0, 0, 0]\<rparr>], w)),
      sys_freeaddrinfo = id, sys_socket = (\<lambda>_ _ _ w. (Some 1, w)), sys_closesocket = (\<lambda>_. id),
      sys_ioctl_nonblocking = (\<lambda>_ _. Pair True), sys_connect = (\<lambda>_ _. Pair True),
      sys_last_error = (\<lambda>_. WSAETIMEDOUT), sys_select = (\<lambda>_ _ _ w. ((1, False), w)),
      sys_so_error = (\<lambda>_ w. ((True, 0), w)), sys_setsockopt = (\<lambda>_ _ _. Pair True),
      sys_send = (\<lambda>_ bs w. (Some (length bs), w)),
      sys_recv = (\<lambda>_ cap w.
        if incoming w = [] then (None, w\<lparr>clock_ns := clock_ns w + 100000000\<rparr>)
        else (Some (take cap (incoming w)), w\<lparr>incoming := drop cap (incoming w)\<rparr>)),
      sys_steady_clock = (\<lambda>w. (clock_ns w, w)), sys_stop_requested = (\<lambda>w. (stopped w, w))\<rparr>"

interpretation scripted: winsock_clock scripted clock_ns
  by unfold_locales (auto simp: scripted_def split: if_splits)

text \<open>What the stream operations do against it, one call each.\<close>

lemma scripted_SendAll:
  assumes "bs \<noteq> []" "length bs \<le> INT_MAX"
  shows "SendAll scripted s bs n = Some (True, called (SendBytes s bs (Some (length bs))) (world n) n)"
  using assms by (subst SendAll.simps) (simp add: send_def scripted_def SendAll.simps)

lemma scripted_ReceiveExact:
  assumes "k \<noteq> 0" "k \<le> INT_MAX" "k \<le> length (incoming (world n))"
  shows "ReceiveExact scripted s k n =
    Some (True, take k (incoming (world n)), called (RecvBytes s k (Some (take k (incoming (world n)))))
      (world n\<lparr>incoming := drop k (incoming (world n))\<rparr>) n)"
proof -
  have "incoming (world n) \<noteq> []" using assms by auto
  then show ?thesis using assms
    by (subst ReceiveExact.simps) (auto simp: recv_def scripted_def ReceiveExact.simps min_def)
qed

lemma scripted_ReceiveExactUntil:
  assumes "k \<noteq> 0" "k \<le> INT_MAX" "k \<le> length (incoming (world n))" "\<not> stopped (world n)" "timeout_ms \<noteq> 0"
  shows "ReceiveExactUntil scripted s k timeout_ms n =
    Some (kComplete, take k (incoming (world n)),
      called (RecvBytes s k (Some (take k (incoming (world n)))))
        (world n\<lparr>incoming := drop k (incoming (world n))\<rparr>)
        (called (SetSockOpt s SO_RCVTIMEO kPollTimeoutMs) (world n) n))"
proof -
  have "incoming (world n) \<noteq> []" using assms by auto
  moreover have "0 < uint timeout_ms" using assms(5) by (simp add: word_neq_0_conv word_less_def)
  ultimately show ?thesis using assms
    by (simp add: ReceiveExactUntil_def setsockopt_def steady_now_def)
       (subst receive_until_loop.simps, auto simp: stop_requested_def steady_now_def recv_def scripted_def
          receive_until_loop.simps min_def called_def Let_def)
qed

end
