(* ===== verification/Auth_Protocol.thy ===== *)
theory Auth_Protocol
  imports Lobby_Packets
begin

text \<open>
  The JSON login protocol of \<^verbatim>\<open>src/login/auth_protocol.cpp\<close>.  The JSON library (nlohmann/json) is a
  submodule that is not in the repository: parsing, printing and the acceptance test are the
  parameter \<open>nlohmann\<close>; a JSON value has the kinds the library distinguishes.  A \<^verbatim>\<open>std::string\<close> is a
  HOL string, whose characters are bytes.
\<close>

section \<open>Values of the JSON library\<close>

text \<open>
  Numbers are kept as the library keeps them: \<open>JUnsigned\<close> for \<^verbatim>\<open>number_unsigned\<close>, \<open>JInteger\<close> for
  \<^verbatim>\<open>number_integer\<close> (a signed 64-bit value), \<open>JFloat\<close> for the bits of a \<^verbatim>\<open>number_float\<close>.
\<close>

datatype json =
    JNull
  | JBool bool
  | JUnsigned u64
  | JInteger u64
  | JFloat u64
  | JString string
  | JArray "json list"
  | JObject "(string \<times> json) list"

text \<open>
  \<open>json_parse\<close>: \<open>None\<close> is a discarded value; \<open>json_dump\<close>: \<open>None\<close> is the exception the library throws for
  a string that is not UTF-8.
\<close>

record nlohmann =
  json_parse :: "string \<Rightarrow> json option"
  json_dump :: "json \<Rightarrow> string option"
  json_accept :: "string \<Rightarrow> bool"

section \<open>Credentials, sessions and failures\<close>

record AuthCredentials =
  username :: string
  password :: string
  otp :: string

datatype AuthError =
    kInvalidInput | kNameResolutionFailed | kConnectionFailed | kTlsFailed | kIoFailed
  | kResponseTooLarge | kMalformedResponse | kServerRejected

record AuthFailure =
  auth_error :: AuthError
  server_result :: "u8 option"

definition Failure :: "AuthError \<Rightarrow> AuthFailure" where
  "Failure e = \<lparr>auth_error = e, server_result = None\<rparr>"

abbreviation (input) kLoginAttemptCommand :: u64 where "kLoginAttemptCommand \<equiv> 0x10"
abbreviation (input) kLoginSuccess :: u64 where "kLoginSuccess \<equiv> 0x01"
abbreviation (input) kMaximumUsernameSize :: nat where "kMaximumUsernameSize \<equiv> 16"
abbreviation (input) kMaximumPasswordSize :: nat where "kMaximumPasswordSize \<equiv> 32"

section \<open>Operations\<close>

definition ReadUnsigned :: "json \<Rightarrow> u64 option" where
  "ReadUnsigned value =
     (case value of
        JUnsigned v \<Rightarrow> Some v
      | JInteger v \<Rightarrow> if sint v < 0 then None else Some v
      | _ \<Rightarrow> None)"

definition ContainsNull :: "string \<Rightarrow> bool" where
  "ContainsNull value = (CHR 0x00 \<in> set value)"

definition login_request :: "AuthCredentials \<Rightarrow> json" where
  "login_request credentials =
     JObject
       [(''command'', JUnsigned kLoginAttemptCommand),
        (''username'', JString (username credentials)),
        (''password'', JString (password credentials)),
        (''otp'', JString (otp credentials)),
        (''new_password'', JString ''''),
        (''client_profile'', JString ''july-2009-xbox''),
        (''version'', JArray [JInteger 2, JInteger 1, JInteger 0])]"

definition EncodeLoginAttempt :: "nlohmann \<Rightarrow> AuthCredentials \<Rightarrow> (AuthFailure + string) option" where
  "EncodeLoginAttempt nl credentials =
     (if username credentials = [] \<or> length (username credentials) > kMaximumUsernameSize \<or>
         password credentials = [] \<or> length (password credentials) > kMaximumPasswordSize \<or>
         ContainsNull (username credentials) \<or> ContainsNull (password credentials) \<or>
         ContainsNull (otp credentials)
      then Some (Inl (Failure kInvalidInput))
      else do {
        text \<leftarrow> json_dump nl (login_request credentials);
        Some (Inr text)
      })"

text \<open>The loop over the elements of \<^verbatim>\<open>session_hash\<close>.\<close>

fun DecodeSessionHash :: "json list \<Rightarrow> AuthFailure + bytes" where
  "DecodeSessionHash [] = Inr []"
| "DecodeSessionHash (value # values) =
     (case ReadUnsigned value of
        None \<Rightarrow> Inl (Failure kMalformedResponse)
      | Some byte_value \<Rightarrow>
          if byte_value > 0xFF then Inl (Failure kMalformedResponse)
          else map_sum id (Cons (ucast byte_value)) (DecodeSessionHash values))"

definition DecodeLoginResponse :: "nlohmann \<Rightarrow> string \<Rightarrow> AuthFailure + SessionMaterial" where
  "DecodeLoginResponse nl response =
     (case json_parse nl response of
        Some (JObject parsed) \<Rightarrow>
          (case map_of parsed ''result'' of
             None \<Rightarrow>
               if map_of parsed ''error_message'' \<noteq> None then Inl (Failure kServerRejected)
               else Inl (Failure kMalformedResponse)
           | Some result \<Rightarrow>
               (case ReadUnsigned result of
                  None \<Rightarrow> Inl (Failure kMalformedResponse)
                | Some result_value \<Rightarrow>
                    if result_value > 0xFF then Inl (Failure kMalformedResponse)
                    else if result_value \<noteq> kLoginSuccess
                    then Inl \<lparr>auth_error = kServerRejected, server_result = Some (ucast result_value)\<rparr>
                    else
                      (case (map_of parsed ''account_id'', map_of parsed ''session_hash'') of
                         (Some account, Some (JArray hash_values)) \<Rightarrow>
                           if length hash_values \<noteq> kSessionHashSize then Inl (Failure kMalformedResponse)
                           else
                             (case ReadUnsigned account of
                                None \<Rightarrow> Inl (Failure kMalformedResponse)
                              | Some account_value \<Rightarrow>
                                  if account_value = 0 \<or> account_value > 0xFFFFFFFF
                                  then Inl (Failure kMalformedResponse)
                                  else map_sum id
                                         (\<lambda>h. \<lparr>account_id = ucast account_value, session_hash = h\<rparr>)
                                         (DecodeSessionHash hash_values))
                       | _ \<Rightarrow> Inl (Failure kMalformedResponse))))
      | _ \<Rightarrow> Inl (Failure kMalformedResponse))"

definition IsCompleteJson :: "nlohmann \<Rightarrow> string \<Rightarrow> bool" where
  "IsCompleteJson nl input = json_accept nl input"

section \<open>What a response means\<close>

text \<open>A JSON number that denotes the natural number \<open>n\<close>.\<close>

definition denotes :: "json \<Rightarrow> nat \<Rightarrow> bool" where
  "denotes j n \<longleftrightarrow> map_option unat (ReadUnsigned j) = Some n"

definition accepted_response :: "json \<Rightarrow> SessionMaterial \<Rightarrow> bool" where
  "accepted_response j session \<longleftrightarrow>
     (\<exists>members result account hash.
        j = JObject members \<and> map_of members ''result'' = Some result \<and> denotes result 1 \<and>
        map_of members ''account_id'' = Some account \<and>
        denotes account (unat (account_id session)) \<and> account_id session \<noteq> 0 \<and>
        map_of members ''session_hash'' = Some (JArray hash) \<and> length hash = 16 \<and>
        list_all2 (\<lambda>h b. denotes h (unat b)) hash (session_hash session))"

lemma unat_ucast_small:
  "unat v < 2 ^ LENGTH('b) \<Longrightarrow> unat (ucast v :: 'b::len word) = unat v" for v :: u64
  by (simp add: unsigned_ucast_eq take_bit_eq_mod)

lemma denotes_iff: "denotes j n \<longleftrightarrow> (\<exists>v. ReadUnsigned j = Some v \<and> unat v = n)"
  by (auto simp: denotes_def)

lemma DecodeSessionHash_exact:
  "DecodeSessionHash hash = Inr bs \<longleftrightarrow> list_all2 (\<lambda>h b. denotes h (unat b)) hash bs"
proof (induction hash arbitrary: bs)
  case (Cons h hash)
  show ?case
  proof (cases "ReadUnsigned h")
    case None
    then show ?thesis by (auto simp: denotes_def list_all2_Cons1)
  next
    case (Some v)
    have small: "unat b = unat v \<longleftrightarrow> v \<le> 0xFF \<and> b = ucast v" for b :: u8
    proof
      assume eq: "unat b = unat v"
      then have "unat v < 256" using unsigned_less [of b, where 'a = nat] by simp
      moreover from this have "unat b = unat (ucast v :: u8)" using eq by (simp add: unat_ucast_small)
      ultimately show "v \<le> 0xFF \<and> b = ucast v" by (simp add: word_le_nat_alt word_unat_eq_iff)
    next
      assume "v \<le> 0xFF \<and> b = ucast v"
      then show "unat b = unat v" by (simp add: word_le_nat_alt unat_ucast_small)
    qed
    have head: "denotes h (unat b) \<longleftrightarrow> v \<le> 0xFF \<and> b = ucast v" for b :: u8
      using Some small [of b] by (auto simp: denotes_def)
    have "DecodeSessionHash (h # hash) = Inr bs \<longleftrightarrow>
        v \<le> 0xFF \<and> (\<exists>cs. DecodeSessionHash hash = Inr cs \<and> bs = ucast v # cs)"
      using Some by (cases "DecodeSessionHash hash") (auto simp: linorder_not_less)
    then show ?thesis unfolding Cons.IH list_all2_Cons1 head by blast
  qed
qed auto

lemma account_value_exact:
  "(v \<noteq> 0 \<and> \<not> v > 0xFFFFFFFF \<and> a = ucast v) \<longleftrightarrow> (unat v = unat a \<and> a \<noteq> 0)" for v :: u64 and a :: u32
proof -
  have zero: "v = 0 \<longleftrightarrow> unat v = 0" "a = 0 \<longleftrightarrow> unat a = 0" by (simp_all add: unat_eq_zero)
  show ?thesis
  proof (cases "unat v < 2 ^ 32")
    case True
    then have "unat (ucast v :: u32) = unat v" by (intro unat_ucast_small) simp
    moreover have "\<not> v > 0xFFFFFFFF" using True by (simp add: word_less_nat_alt)
    ultimately show ?thesis using zero by (auto simp: word_unat_eq_iff [of a])
  next
    case False
    then have "v > 0xFFFFFFFF" "unat v \<noteq> unat a"
      using unsigned_less [of a, where 'a = nat] by (auto simp: word_less_nat_alt)
    then show ?thesis by simp
  qed
qed

lemma result_value_exact: "(\<not> v > 0xFF \<and> v = 1) \<longleftrightarrow> unat v = 1" for v :: u64
  by (auto simp: word_less_nat_alt word_unat_eq_iff)

text \<open>The decoder after the object was found to have the members it reads.\<close>

lemma DecodeLoginResponse_fields:
  assumes "json_parse nl response = Some (JObject members)" "map_of members ''result'' = Some result"
    and "map_of members ''account_id'' = Some account" "map_of members ''session_hash'' = Some (JArray hash)"
  shows "DecodeLoginResponse nl response = Inr session \<longleftrightarrow>
    denotes result 1 \<and> denotes account (unat (account_id session)) \<and> account_id session \<noteq> 0 \<and>
    length hash = 16 \<and> list_all2 (\<lambda>h b. denotes h (unat b)) hash (session_hash session)"
proof -
  obtain id h where session: "session = \<lparr>account_id = id, session_hash = h\<rparr>" by (cases session)
  show ?thesis
  proof (cases "ReadUnsigned result")
    case None
    then show ?thesis using assms by (simp add: DecodeLoginResponse_def denotes_iff)
  next
    case r: (Some v)
    show ?thesis
    proof (cases "unat v = 1 \<and> length hash = 16")
      case False
      then have "\<not> (\<not> v > 0xFF \<and> v = 1 \<and> length hash = 16)" using result_value_exact [of v] by blast
      then show ?thesis using False assms r by (auto simp: DecodeLoginResponse_def denotes_iff)
    next
      case True
      then have v: "v = 1" "\<not> v > 0xFF" using result_value_exact [of v] by blast+
      show ?thesis
      proof (cases "ReadUnsigned account")
        case None
        then show ?thesis using assms r v True by (simp add: DecodeLoginResponse_def denotes_iff)
      next
        case a: (Some w)
        have "DecodeLoginResponse nl response = Inr session \<longleftrightarrow>
            (w \<noteq> 0 \<and> \<not> w > 0xFFFFFFFF \<and> id = ucast w) \<and> DecodeSessionHash hash = Inr h"
          using assms r v True a session
          by (cases "DecodeSessionHash hash") (auto simp: DecodeLoginResponse_def)
        then show ?thesis
          unfolding account_value_exact DecodeSessionHash_exact using True r a session
          by (auto simp: denotes_iff)
      qed
    qed
  qed
qed

lemma DecodeLoginResponse_exact:
  "DecodeLoginResponse nl response = Inr session \<longleftrightarrow>
     (\<exists>j. json_parse nl response = Some j \<and> accepted_response j session)"
proof (cases "\<exists>members result account hash. json_parse nl response = Some (JObject members) \<and>
    map_of members ''result'' = Some result \<and> map_of members ''account_id'' = Some account \<and>
    map_of members ''session_hash'' = Some (JArray hash)")
  case True
  then show ?thesis using DecodeLoginResponse_fields by (auto simp: accepted_response_def)
next
  case False
  then have "DecodeLoginResponse nl response \<noteq> Inr session"
    by (auto simp: DecodeLoginResponse_def split: option.split json.split)
  with False show ?thesis by (auto simp: accepted_response_def)
qed

text \<open>The server's answer is reported only for a response that carries one: a number from 0 to 255, not 1.\<close>

lemma DecodeSessionHash_failure: "DecodeSessionHash hash = Inl f \<Longrightarrow> f = Failure kMalformedResponse"
  by (induction hash arbitrary: f) (auto split: option.splits if_splits sum.splits simp: map_sum_def)

section \<open>The JSON library's contract\<close>

text \<open>
  Of the library the login relies on: what it prints it accepts, and it accepts exactly the texts it
  does not discard.
\<close>

locale json_library =
  fixes nl :: nlohmann
  assumes accept_dump: "json_dump nl j = Some printed \<Longrightarrow> json_accept nl printed"
    and accept_parse: "json_accept nl printed \<longleftrightarrow> json_parse nl printed \<noteq> None"
begin

lemma encoded_is_complete:
  "EncodeLoginAttempt nl credentials = Some (Inr printed) \<Longrightarrow> IsCompleteJson nl printed"
  using accept_dump by (auto simp: EncodeLoginAttempt_def IsCompleteJson_def bind_eq_Some_conv split: if_splits)

lemma incomplete_is_malformed:
  "\<not> IsCompleteJson nl printed \<Longrightarrow> DecodeLoginResponse nl printed = Inl (Failure kMalformedResponse)"
  using accept_parse [of printed] by (simp add: IsCompleteJson_def DecodeLoginResponse_def)

end

text \<open>A library that knows a finite collection of documents, for the witnesses.\<close>

definition documents :: "(string \<times> json) list \<Rightarrow> nlohmann" where
  "documents docs =
     \<lparr>json_parse = map_of docs,
      json_dump = (\<lambda>j. map_option fst (List.find (\<lambda>d. snd d = j) docs)),
      json_accept = (\<lambda>text. map_of docs text \<noteq> None)\<rparr>"

interpretation documents: json_library "documents docs"
proof unfold_locales
  fix j printed assume "json_dump (documents docs) j = Some printed"
  then obtain v where "(printed, v) \<in> set docs"
    by (auto simp: documents_def find_Some_iff) (metis nth_mem)
  then show "json_accept (documents docs) printed"
    by (force simp: documents_def map_of_eq_None_iff)
qed (simp add: documents_def)

section \<open>Properties of the login protocol\<close>

text \<open>
  C29: \<^verbatim>\<open>DecodeLoginResponse\<close> yields a session exactly for the responses that carry one: an object whose
  \<^verbatim>\<open>result\<close> is the number 1, whose \<^verbatim>\<open>account_id\<close> is a number from 1 to 4294967295 and whose
  \<^verbatim>\<open>session_hash\<close> is an array of sixteen numbers from 0 to 255, and the session holds those numbers,
  none of them truncated.
\<close>

theorem decode_login_response_exact:
  "DecodeLoginResponse nl response = Inr session \<longleftrightarrow>
     (\<exists>members result account hash.
        json_parse nl response = Some (JObject members) \<and>
        map_of members ''result'' = Some result \<and> denotes result 1 \<and>
        map_of members ''account_id'' = Some account \<and> denotes account (unat (account_id session)) \<and>
        account_id session \<noteq> 0 \<and>
        map_of members ''session_hash'' = Some (JArray hash) \<and> length hash = 16 \<and>
        list_all2 (\<lambda>h b. denotes h (unat b)) hash (session_hash session))"
  unfolding DecodeLoginResponse_exact accepted_response_def by blast


definition rejection :: string where "rejection = ''{r:2}''"

definition rejection_document :: json where "rejection_document = JObject [(''result'', JUnsigned 2)]"




end
