(* ===== verification/Tls_Client.thy ===== *)
theory Tls_Client
  imports Rounds Socket_Io Auth_Protocol
begin

text \<open>
  The authentication client of \<^verbatim>\<open>src/login/auth_client.cpp\<close>: opening the socket, the Schannel
  handshake with the optional certificate pin, the encrypted request, and the reassembly of the JSON
  response.  Schannel and the Windows string conversion are the parameter \<open>schannel\<close>, functions on the
  same abstract world as Winsock.  As in the socket routines, \<open>None\<close> is an access out of bounds or a
  loop that never ends.
\<close>

section \<open>The providers\<close>

datatype SECURITY_STATUS =
    SEC_E_OK | SEC_I_CONTINUE_NEEDED | SEC_I_COMPLETE_NEEDED | SEC_I_COMPLETE_AND_CONTINUE
  | SEC_E_INCOMPLETE_MESSAGE | SEC_I_RENEGOTIATE | SEC_E_OTHER int

datatype buffer_type =
    SECBUFFER_EMPTY | SECBUFFER_DATA | SECBUFFER_TOKEN | SECBUFFER_EXTRA
  | SECBUFFER_STREAM_HEADER | SECBUFFER_STREAM_TRAILER | SECBUFFER_OTHER

text \<open>\<^verbatim>\<open>cbBuffer\<close> is the length of the contents.\<close>

record SecBuffer =
  BufferType :: buffer_type
  contents :: bytes

record StreamSizes =
  cbHeader :: nat
  cbTrailer :: nat
  cbMaximumMessage :: nat

text \<open>
  A call of \<^verbatim>\<open>InitializeSecurityContextW\<close>: its status, whether the context handle is valid after the first
  call, the token it allocated (\<open>None\<close>: a null pointer) and its second input buffer afterwards.
\<close>

record init_result =
  init_status :: SECURITY_STATUS
  context_valid :: bool
  token :: "bytes option"
  unconsumed :: SecBuffer

text \<open>
  \<open>ss_certificate_hash\<close>: success, the 32 bytes of \<^verbatim>\<open>actual\<close> and \<^verbatim>\<open>actual_size\<close>.  \<open>ss_encrypt\<close>: success and the
  header, data and trailer buffers.  \<open>ss_decrypt\<close>: the status, the four buffers and the input decrypted in
  place.  \<open>wide_size\<close> and \<open>wide_chars\<close> are the two uses of \<^verbatim>\<open>MultiByteToWideChar\<close>.
\<close>

record 'w schannel =
  ss_acquire :: "bool \<Rightarrow> 'w \<Rightarrow> bool \<times> 'w"
  ss_initialize :: "u16 list \<Rightarrow> bytes option \<Rightarrow> 'w \<Rightarrow> init_result \<times> 'w"
  ss_complete :: "'w \<Rightarrow> bool \<times> 'w"
  ss_stream_sizes :: "'w \<Rightarrow> StreamSizes option \<times> 'w"
  ss_remote_certificate :: "'w \<Rightarrow> bool \<times> 'w"
  ss_certificate_hash :: "'w \<Rightarrow> (bool \<times> bytes \<times> nat) \<times> 'w"
  ss_encrypt :: "StreamSizes \<Rightarrow> bytes \<Rightarrow> 'w \<Rightarrow> (bool \<times> bytes \<times> bytes \<times> bytes) \<times> 'w"
  ss_decrypt :: "bytes \<Rightarrow> 'w \<Rightarrow> (SECURITY_STATUS \<times> SecBuffer list \<times> bytes) \<times> 'w"
  ss_free :: "net_call \<Rightarrow> 'w \<Rightarrow> 'w"
  wide_size :: "bytes \<Rightarrow> int"
  wide_chars :: "bytes \<Rightarrow> int \<Rightarrow> int \<times> u16 list"

record AuthOptions =
  port :: u16
  auth_timeout_ms :: u32
  certificate_sha256 :: "bytes option"

text \<open>The members of \<^verbatim>\<open>TlsConnection\<close>.\<close>

record tls_connection =
  tls_socket :: nat
  credentials_ready :: bool
  context_ready :: bool
  stream_sizes :: StreamSizes
  pending_encrypted :: bytes
  tls_server_name :: "u16 list"

definition TlsConnection :: "nat \<Rightarrow> tls_connection" where
  "TlsConnection s =
     \<lparr>tls_socket = s, credentials_ready = False, context_ready = False,
      stream_sizes = \<lparr>cbHeader = 0, cbTrailer = 0, cbMaximumMessage = 0\<rparr>,
      pending_encrypted = [], tls_server_name = []\<rparr>"

abbreviation (input) kReceiveChunkSize :: nat where "kReceiveChunkSize \<equiv> 16 * 1024"
abbreviation (input) kMaximumEncryptedSize :: nat where "kMaximumEncryptedSize \<equiv> 1024 * 1024"
abbreviation (input) kMaximumResponseSize :: nat where "kMaximumResponseSize \<equiv> 16 * 1024"
abbreviation (input) ULONG_MAX :: nat where "ULONG_MAX \<equiv> 4294967295"

definition bytes_of_string :: "string \<Rightarrow> bytes" where
  "bytes_of_string s = map of_char s"

definition string_of_bytes :: "bytes \<Rightarrow> string" where
  "string_of_bytes bs = map (\<lambda>b. char_of (unat b)) bs"

section \<open>Opening the socket\<close>

text \<open>\<^verbatim>\<open>std::to_string\<close>.\<close>

fun decimal :: "nat \<Rightarrow> bytes" where
  "decimal n = (if n < 10 then [of_nat (48 + n)] else decimal (n div 10) @ [of_nat (48 + n mod 10)])"

declare decimal.simps [simp del]

text \<open>The loop over the addresses: the connected socket, if any.\<close>

fun OpenSocket_loop :: "'w winsock \<Rightarrow> addrinfo list \<Rightarrow> u32 \<Rightarrow> 'w net \<Rightarrow> nat option \<times> 'w net" where
  "OpenSocket_loop ws [] timeout n = (None, n)"
| "OpenSocket_loop ws (address # addresses) timeout n =
     (case open_socket ws (ai_family address) (ai_socktype address) (ai_protocol address) n of
        (None, n) \<Rightarrow> OpenSocket_loop ws addresses timeout n
      | (Some candidate, n) \<Rightarrow>
          (case ConnectSocket ws candidate (ai_addr address) timeout n of
             (False, n) \<Rightarrow> OpenSocket_loop ws addresses timeout (close_socket ws candidate n)
           | (True, n) \<Rightarrow>
               (case setsockopt ws candidate SO_RCVTIMEO timeout n of
                  (False, n) \<Rightarrow> OpenSocket_loop ws addresses timeout (close_socket ws candidate n)
                | (True, n) \<Rightarrow>
                    (case setsockopt ws candidate SO_SNDTIMEO timeout n of
                       (False, n) \<Rightarrow> OpenSocket_loop ws addresses timeout (close_socket ws candidate n)
                     | (True, n) \<Rightarrow> (Some candidate, n)))))"

definition OpenSocket_auth :: "'w winsock \<Rightarrow> string \<Rightarrow> u16 \<Rightarrow> u32 \<Rightarrow> 'w net \<Rightarrow> (AuthFailure + nat) \<times> 'w net" where
  "OpenSocket_auth ws host port_number timeout n =
     (let host_string = takeWhile (\<lambda>b. b \<noteq> 0) (bytes_of_string host);
          port_string = Some (decimal (unat port_number)) in
      case sys_getaddrinfo ws host_string port_string AF_UNSPEC (world n) of
        (None, w) \<Rightarrow> (Inl (Failure kNameResolutionFailed), called (GetAddrInfo host_string port_string False) w n)
      | (Some addresses, w) \<Rightarrow>
          let n = called (GetAddrInfo host_string port_string True) w n;
              (connected, n) = OpenSocket_loop ws addresses timeout n;
              n = called FreeAddrInfo (sys_freeaddrinfo ws (world n)) n
          in (case connected of
                None \<Rightarrow> (Inl (Failure kConnectionFailed), n)
              | Some s \<Rightarrow> (Inr s, n)))"

definition ToWide :: "'w schannel \<Rightarrow> string \<Rightarrow> AuthFailure + u16 list" where
  "ToWide ss input =
     (if input = [] \<or> length input > INT_MAX then Inl (Failure kInvalidInput)
      else
        let required = wide_size ss (bytes_of_string input) in
        if required \<le> 0 then Inl (Failure kInvalidInput)
        else case wide_chars ss (bytes_of_string input) required of
               (converted, output) \<Rightarrow>
                 if converted \<noteq> required then Inl (Failure kInvalidInput) else Inr output)"

section \<open>The handshake\<close>

definition NormalizeCompleteStatus :: "SECURITY_STATUS \<Rightarrow> SECURITY_STATUS" where
  "NormalizeCompleteStatus status =
     (if status = SEC_I_COMPLETE_NEEDED then SEC_E_OK
      else if status = SEC_I_COMPLETE_AND_CONTINUE then SEC_I_CONTINUE_NEEDED
      else status)"

text \<open>A call that releases a provider object.\<close>

definition release :: "'w schannel \<Rightarrow> net_call \<Rightarrow> 'w net \<Rightarrow> 'w net" where
  "release ss c n = called c (ss_free ss c (world n)) n"

definition free_token :: "'w schannel \<Rightarrow> bytes option \<Rightarrow> 'w net \<Rightarrow> 'w net" where
  "free_token ss tok n = (if tok \<noteq> None then release ss FreeContextBuffer n else n)"

definition CompleteAndSend ::
  "'w winsock \<Rightarrow> 'w schannel \<Rightarrow> nat \<Rightarrow> SECURITY_STATUS \<Rightarrow> bytes option \<Rightarrow> 'w net \<Rightarrow> (bool \<times> 'w net) option" where
  "CompleteAndSend ws ss s status tok n =
     (let (completed, n) =
        (if status = SEC_I_COMPLETE_NEEDED \<or> status = SEC_I_COMPLETE_AND_CONTINUE
         then (case ss_complete ss (world n) of (ok, w) \<Rightarrow> (ok, called CompleteAuthToken w n))
         else (True, n))
      in if \<not> completed then Some (False, free_token ss tok n)
         else do {
           (sent, n) \<leftarrow> (case tok of
                           Some bs \<Rightarrow> if bs \<noteq> [] then SendAll ws s bs n else Some (True, n)
                         | None \<Rightarrow> Some (True, n));
           Some (sent, free_token ss tok n)
         })"

definition PreserveExtra :: "bytes \<Rightarrow> SecBuffer \<Rightarrow> bytes option" where
  "PreserveExtra encrypted extra =
     (if BufferType extra \<noteq> SECBUFFER_EXTRA \<or> contents extra = [] then Some []
      else if length encrypted < length (contents extra) then None
      else Some (drop (length encrypted - length (contents extra)) encrypted))"

definition Receive :: "'w winsock \<Rightarrow> nat \<Rightarrow> bytes \<Rightarrow> 'w net \<Rightarrow> (bool \<times> bytes \<times> 'w net) option" where
  "Receive ws s encrypted n =
     (if length encrypted > kMaximumEncryptedSize - kReceiveChunkSize then Some (False, encrypted, n)
      else case recv ws s kReceiveChunkSize n of
             (None, n) \<Rightarrow> Some (False, encrypted, n)
           | (Some bs, n) \<Rightarrow>
               if bs = [] then Some (False, encrypted, n)
               else if length bs > kReceiveChunkSize then None
               else Some (True, encrypted @ bs, n))"

definition initialize_context ::
  "'w schannel \<Rightarrow> u16 list \<Rightarrow> bytes option \<Rightarrow> 'w net \<Rightarrow> init_result \<times> 'w net" where
  "initialize_context ss name input n =
     (case ss_initialize ss name input (world n) of
        (r, w) \<Rightarrow> (r, called (InitializeContext (input = None) (input = None \<and> context_valid r) (token r \<noteq> None)) w n))"

definition decrypt_message ::
  "'w schannel \<Rightarrow> bytes \<Rightarrow> 'w net \<Rightarrow> (SECURITY_STATUS \<times> SecBuffer list \<times> bytes) \<times> 'w net" where
  "decrypt_message ss encrypted n =
     (case ss_decrypt ss encrypted (world n) of (r, w) \<Rightarrow> (r, called (DecryptMessage (length encrypted)) w n))"

definition query_stream_sizes :: "'w schannel \<Rightarrow> 'w net \<Rightarrow> StreamSizes option \<times> 'w net" where
  "query_stream_sizes ss n =
     (case ss_stream_sizes ss (world n) of (z, w) \<Rightarrow> (z, called QueryStreamSizes w n))"

text \<open>One round of the loop in \<^verbatim>\<open>ContinueHandshake\<close>: to be continued with the encrypted bytes, or the result.\<close>

definition handshake_round ::
  "'w winsock \<Rightarrow> 'w schannel \<Rightarrow> tls_connection \<times> bytes \<times> 'w net
     \<Rightarrow> (tls_connection \<times> bytes \<times> 'w net + bool \<times> tls_connection \<times> 'w net) option" where
  "handshake_round ws ss = (\<lambda>(t, encrypted, n). do {
     (ready, encrypted, n) \<leftarrow>
       (if encrypted = [] then Receive ws (tls_socket t) encrypted n else Some (True, encrypted, n));
     if \<not> ready then Some (Inr (False, t, n))
     else
       let (r, n) = initialize_context ss (tls_server_name t) (Some encrypted) n in
       do {
         (sent, n) \<leftarrow> CompleteAndSend ws ss (tls_socket t) (init_status r) (token r) n;
         if \<not> sent then Some (Inr (False, t, n))
         else
           let status = NormalizeCompleteStatus (init_status r) in
           if status = SEC_E_INCOMPLETE_MESSAGE
           then do {
             (received, encrypted, n) \<leftarrow> Receive ws (tls_socket t) encrypted n;
             if \<not> received then Some (Inr (False, t, n)) else Some (Inl (t, encrypted, n))
           }
           else do {
             encrypted \<leftarrow> PreserveExtra encrypted (unconsumed r);
             if status = SEC_E_OK
             then
               let t = t\<lparr>pending_encrypted := encrypted\<rparr>;
                   (sizes, n) = query_stream_sizes ss n
               in (case sizes of
                     None \<Rightarrow> Some (Inr (False, t, n))
                   | Some z \<Rightarrow> Some (Inr (True, t\<lparr>stream_sizes := z\<rparr>, n)))
             else if status \<noteq> SEC_I_CONTINUE_NEEDED then Some (Inr (False, t, n))
             else Some (Inl (t, encrypted, n))
           }
       }
   })"

definition ContinueHandshake ::
  "'w winsock \<Rightarrow> 'w schannel \<Rightarrow> tls_connection \<Rightarrow> bytes \<Rightarrow> 'w net \<Rightarrow> (bool \<times> tls_connection \<times> 'w net) option" where
  "ContinueHandshake ws ss t encrypted n = rounds (handshake_round ws ss) (t, encrypted, n)"

definition ValidateCertificatePin :: "'w schannel \<Rightarrow> bytes \<Rightarrow> 'w net \<Rightarrow> bool \<times> 'w net" where
  "ValidateCertificatePin ss expected n =
     (case ss_remote_certificate ss (world n) of
        (False, w) \<Rightarrow> (False, n\<lparr>world := w\<rparr>)
      | (True, w) \<Rightarrow>
          (case ss_certificate_hash ss w of
             ((ok, actual, actual_size), w) \<Rightarrow>
               let n = called (CertificateHash (if ok \<and> actual_size = 32 then Some actual else None)) w n;
                   valid = (ok \<and> actual_size = 32 \<and> actual = expected)
               in (valid, release ss FreeCertificate n)))"

definition Handshake ::
  "'w winsock \<Rightarrow> 'w schannel \<Rightarrow> tls_connection \<Rightarrow> u16 list \<Rightarrow> bytes option \<Rightarrow> 'w net
     \<Rightarrow> (bool \<times> tls_connection \<times> 'w net) option" where
  "Handshake ws ss t server_name pin n =
     (let t = t\<lparr>tls_server_name := server_name\<rparr> in
      case ss_acquire ss (pin \<noteq> None) (world n) of
        (False, w) \<Rightarrow> Some (False, t, called (AcquireCredentials (pin \<noteq> None) False) w n)
      | (True, w) \<Rightarrow>
          let n = called (AcquireCredentials (pin \<noteq> None) True) w n;
              t = t\<lparr>credentials_ready := True\<rparr>;
              (r, n) = initialize_context ss server_name None n;
              t = t\<lparr>context_ready := context_valid r\<rparr>
          in do {
            (sent, n) \<leftarrow> CompleteAndSend ws ss (tls_socket t) (init_status r) (token r) n;
            if \<not> sent then Some (False, t, n)
            else if NormalizeCompleteStatus (init_status r) \<noteq> SEC_I_CONTINUE_NEEDED then Some (False, t, n)
            else do {
              (continued, t, n) \<leftarrow> ContinueHandshake ws ss t [] n;
              if \<not> continued then Some (False, t, n)
              else (case pin of
                      None \<Rightarrow> Some (True, t, n)
                    | Some expected \<Rightarrow>
                        (case ValidateCertificatePin ss expected n of (valid, n) \<Rightarrow> Some (valid, t, n)))
            }
          })"

section \<open>The exchange\<close>

definition Send_tls ::
  "'w winsock \<Rightarrow> 'w schannel \<Rightarrow> tls_connection \<Rightarrow> bytes \<Rightarrow> 'w net \<Rightarrow> (bool \<times> 'w net) option" where
  "Send_tls ws ss t plaintext n =
     (if plaintext = [] \<or> length plaintext > cbMaximumMessage (stream_sizes t) \<or> length plaintext > ULONG_MAX
      then Some (False, n)
      else
        let record_size = cbHeader (stream_sizes t) + length plaintext + cbTrailer (stream_sizes t) in
        case ss_encrypt ss (stream_sizes t) plaintext (world n) of
          ((ok, header, data, trailer), w) \<Rightarrow>
            let n = called (EncryptMessage plaintext) w n in
            if \<not> ok then Some (False, secure_zero record_size n)
            else do {
              (sent, n) \<leftarrow> SendAll ws (tls_socket t) header n;
              (sent, n) \<leftarrow> (if sent then SendAll ws (tls_socket t) data n else Some (False, n));
              (sent, n) \<leftarrow> (if sent then SendAll ws (tls_socket t) trailer n else Some (False, n));
              Some (sent, secure_zero record_size n)
            })"

text \<open>The last \<^verbatim>\<open>SECBUFFER_EXTRA\<close> buffer, and the data of a decrypted message.\<close>

definition extra_buffer :: "SecBuffer list \<Rightarrow> SecBuffer option" where
  "extra_buffer buffers = List.find (\<lambda>b. BufferType b = SECBUFFER_EXTRA) (rev buffers)"

definition message_data :: "SecBuffer list \<Rightarrow> bytes" where
  "message_data buffers = concat (map contents (filter (\<lambda>b. BufferType b = SECBUFFER_DATA) buffers))"

definition preserve_found :: "bytes \<Rightarrow> SecBuffer option \<Rightarrow> bytes option" where
  "preserve_found encrypted extra = (case extra of None \<Rightarrow> Some [] | Some e \<Rightarrow> PreserveExtra encrypted e)"

text \<open>One round of the loop in \<^verbatim>\<open>ReceiveJson\<close>.\<close>

definition receive_json_round ::
  "'w winsock \<Rightarrow> 'w schannel \<Rightarrow> nlohmann \<Rightarrow> tls_connection \<times> bytes \<times> string \<times> 'w net
     \<Rightarrow> (tls_connection \<times> bytes \<times> string \<times> 'w net + (AuthFailure + string) \<times> tls_connection \<times> 'w net) option" where
  "receive_json_round ws ss nl = (\<lambda>(t, encrypted, plaintext, n).
     if length plaintext > kMaximumResponseSize then Some (Inr (Inl (Failure kResponseTooLarge), t, n))
     else do {
       (ready, encrypted, n) \<leftarrow>
         (if encrypted = [] then Receive ws (tls_socket t) encrypted n else Some (True, encrypted, n));
       if \<not> ready
       then Some (Inr (Inl (Failure (if plaintext = [] then kIoFailed else kMalformedResponse)), t, n))
       else
         let ((status, buffers, encrypted), n) = decrypt_message ss encrypted n in
         if status = SEC_E_INCOMPLETE_MESSAGE
         then do {
           (received, encrypted, n) \<leftarrow> Receive ws (tls_socket t) encrypted n;
           if \<not> received then Some (Inr (Inl (Failure kIoFailed), t, n))
           else Some (Inl (t, encrypted, plaintext, n))
         }
         else if status = SEC_I_RENEGOTIATE
         then (case List.find (\<lambda>b. BufferType b = SECBUFFER_EXTRA) buffers of
                 None \<Rightarrow> Some (Inr (Inl (Failure kTlsFailed), t, n))
               | Some extra \<Rightarrow> do {
                   encrypted \<leftarrow> PreserveExtra encrypted extra;
                   (continued, t, n) \<leftarrow> ContinueHandshake ws ss t encrypted n;
                   if \<not> continued then Some (Inr (Inl (Failure kTlsFailed), t, n))
                   else Some (Inl (t\<lparr>pending_encrypted := []\<rparr>, pending_encrypted t, plaintext, n))
                 })
         else if status \<noteq> SEC_E_OK then Some (Inr (Inl (Failure kTlsFailed), t, n))
         else
           let plaintext = plaintext @ string_of_bytes (message_data buffers) in
           if length plaintext > kMaximumResponseSize then Some (Inr (Inl (Failure kResponseTooLarge), t, n))
           else if IsCompleteJson nl plaintext then Some (Inr (Inr plaintext, t, n))
           else do {
             encrypted \<leftarrow> preserve_found encrypted (extra_buffer buffers);
             Some (Inl (t, encrypted, plaintext, n))
           }
     })"

definition ReceiveJson ::
  "'w winsock \<Rightarrow> 'w schannel \<Rightarrow> nlohmann \<Rightarrow> tls_connection \<Rightarrow> 'w net
     \<Rightarrow> ((AuthFailure + string) \<times> tls_connection \<times> 'w net) option" where
  "ReceiveJson ws ss nl t n =
     rounds (receive_json_round ws ss nl) (t\<lparr>pending_encrypted := []\<rparr>, pending_encrypted t, [], n)"

text \<open>\<^verbatim>\<open>~TlsConnection\<close>, its socket member included.\<close>

definition destroy_connection :: "'w winsock \<Rightarrow> 'w schannel \<Rightarrow> tls_connection \<Rightarrow> 'w net \<Rightarrow> 'w net" where
  "destroy_connection ws ss t n =
     (let n = (if context_ready t then release ss DeleteContext n else n);
          n = (if credentials_ready t then release ss FreeCredentials n else n)
      in close_socket ws (tls_socket t) n)"

definition clear_string :: "string \<Rightarrow> 'w net \<Rightarrow> 'w net" where
  "clear_string s n = (if s = [] then n else secure_zero (length s) n)"

text \<open>The life of the connection: handshake, request, response.\<close>

definition tls_exchange ::
  "'w winsock \<Rightarrow> 'w schannel \<Rightarrow> nlohmann \<Rightarrow> nat \<Rightarrow> u16 list \<Rightarrow> bytes option \<Rightarrow> string \<Rightarrow> 'w net
     \<Rightarrow> ((AuthFailure + SessionMaterial) \<times> 'w net) option" where
  "tls_exchange ws ss nl s wide_host pin request n =
     do {
       (shaken, t, n) \<leftarrow> Handshake ws ss (TlsConnection s) wide_host pin n;
       if \<not> shaken then Some (Inl (Failure kTlsFailed), destroy_connection ws ss t n)
       else do {
         (sent, n) \<leftarrow> Send_tls ws ss t (bytes_of_string request) n;
         if \<not> sent then Some (Inl (Failure kIoFailed), destroy_connection ws ss t n)
         else do {
           (response, t, n) \<leftarrow> ReceiveJson ws ss nl t n;
           (case response of
              Inl e \<Rightarrow> Some (Inl e, destroy_connection ws ss t n)
            | Inr text \<Rightarrow>
                Some (DecodeLoginResponse nl text, destroy_connection ws ss t (clear_string text n)))
         }
       }
     }"

text \<open>What \<^verbatim>\<open>Authenticate\<close> does once Winsock is up.\<close>

definition login_session ::
  "'w winsock \<Rightarrow> 'w schannel \<Rightarrow> nlohmann \<Rightarrow> string \<Rightarrow> AuthOptions \<Rightarrow> string \<Rightarrow> 'w net
     \<Rightarrow> ((AuthFailure + SessionMaterial) \<times> 'w net) option" where
  "login_session ws ss nl host options request n =
     (case OpenSocket_auth ws host (port options) (auth_timeout_ms options) n of
        (Inl e, n) \<Rightarrow> Some (Inl e, n)
      | (Inr s, n) \<Rightarrow>
          (case ToWide ss host of
             Inl e \<Rightarrow> Some (Inl e, close_socket ws s n)
           | Inr wide_host \<Rightarrow>
               tls_exchange ws ss nl s wide_host (certificate_sha256 options) request n))"

definition Authenticate ::
  "'w winsock \<Rightarrow> 'w schannel \<Rightarrow> nlohmann \<Rightarrow> string \<Rightarrow> AuthCredentials \<Rightarrow> AuthOptions \<Rightarrow> 'w net
     \<Rightarrow> ((AuthFailure + SessionMaterial) \<times> 'w net) option" where
  "Authenticate ws ss nl host credentials options n =
     (if host = [] \<or> port options = 0 \<or> auth_timeout_ms options = 0
      then Some (Inl (Failure kInvalidInput), n)
      else do {
        encoded \<leftarrow> EncodeLoginAttempt nl credentials;
        (case encoded of
           Inl e \<Rightarrow> Some (Inl e, n)
         | Inr request \<Rightarrow> do {
             (r, n) \<leftarrow>
               (case sys_startup ws (world n) of
                  (False, w) \<Rightarrow> Some (Inl (Failure kConnectionFailed), called (WSAStartup False) w n)
                | (True, w) \<Rightarrow> do {
                    (r, n) \<leftarrow> login_session ws ss nl host options request (called (WSAStartup True) w n);
                    Some (r, called WSACleanup (sys_cleanup ws (world n)) n)
                  });
             Some (r, clear_string request n)
           })
      })"

end
