(* ===== verification/Bridge_Settings.thy ===== *)
theory Bridge_Settings
  imports Tls_Client
begin

text \<open>
  The settings of the lobby bridge, \<^verbatim>\<open>src/runtime/lobby_bridge.cpp\<close>: environment variables, ports, the
  certificate pin and the client version.  \<open>dupenv\<close> stands for the C runtime's \<^verbatim>\<open>_dupenv_s\<close>: whether
  it failed, and the value it copied.
\<close>

type_synonym dupenv = "string \<Rightarrow> bool \<times> string option"

text \<open>\<^verbatim>\<open>size\<close> counts the terminator.\<close>

definition ReadEnvironment :: "dupenv \<Rightarrow> string \<Rightarrow> string option" where
  "ReadEnvironment dupenv name =
     (case dupenv name of
        (False, Some v) \<Rightarrow> (let sz = length v + 1 in if sz \<le> 1 then None else Some (take (sz - 1) v))
      | _ \<Rightarrow> None)"

section \<open>Numbers\<close>

text \<open>\<^verbatim>\<open>std::from_chars\<close> for \<^verbatim>\<open>uint32_t\<close>: the longest run of digits, and how many there are.\<close>

datatype from_chars_result = Invalid_Argument | Result_Out_Of_Range nat | Parsed u32 nat

definition digit_value :: "char \<Rightarrow> nat" where
  "digit_value c =
     (let n = of_char c in
      if 48 \<le> n \<and> n \<le> 57 then n - 48
      else if 65 \<le> n \<and> n \<le> 90 then n - 55
      else if 97 \<le> n \<and> n \<le> 122 then n - 87
      else 255)"

definition digits_value :: "nat \<Rightarrow> string \<Rightarrow> nat" where
  "digits_value base s = foldl (\<lambda>v c. base * v + digit_value c) 0 s"

definition from_chars :: "nat \<Rightarrow> string \<Rightarrow> from_chars_result" where
  "from_chars base s =
     (let digits = takeWhile (\<lambda>c. digit_value c < base) s; v = digits_value base digits in
      if digits = [] then Invalid_Argument
      else if v \<ge> 2 ^ 32 then Result_Out_Of_Range (length digits)
      else Parsed (of_nat v) (length digits))"

definition ParsePort :: "string option \<Rightarrow> u16 \<Rightarrow> u16 option" where
  "ParsePort v fallback =
     (case v of
        None \<Rightarrow> Some fallback
      | Some s \<Rightarrow>
          (case from_chars 10 s of
             Parsed parsed ptr \<Rightarrow>
               if ptr \<noteq> length s \<or> parsed = 0 \<or> parsed > 0xFFFF then None else Some (ucast parsed)
           | _ \<Rightarrow> None))"

text \<open>The loop over the pin from byte \<open>i\<close>, \<open>n\<close> bytes left.\<close>

fun pin_loop :: "string \<Rightarrow> nat \<Rightarrow> nat \<Rightarrow> bytes option" where
  "pin_loop s i 0 = Some []"
| "pin_loop s i (Suc n) =
     (case from_chars 16 (take 2 (drop (i * 2) s)) of
        Parsed byte ptr \<Rightarrow>
          if ptr \<noteq> 2 then None
          else do { rest \<leftarrow> pin_loop s (i + 1) n; Some (ucast byte # rest) }
      | _ \<Rightarrow> None)"

abbreviation (input) kCertificateSha256Size :: nat where "kCertificateSha256Size \<equiv> 32"

definition ParseCertificatePin :: "string option \<Rightarrow> bytes option" where
  "ParseCertificatePin v =
     (case v of
        None \<Rightarrow> Some (replicate kCertificateSha256Size 0)
      | Some s \<Rightarrow> if length s \<noteq> kCertificateSha256Size * 2 then None else pin_loop s 0 kCertificateSha256Size)"

definition valid_client_version :: "string \<Rightarrow> bool" where
  "valid_client_version s \<longleftrightarrow> length s = 10 \<and> list_all (\<lambda>c. 0x20 \<le> (of_char c :: nat) \<and> (of_char c :: nat) \<le> 0x7E) s"

section \<open>What the parsers accept\<close>

lemma ParsePort_word:
  assumes "v < 2 ^ 32"
  shows "\<not> ((of_nat v :: u32) = 0 \<or> (of_nat v :: u32) > 0xFFFF) \<and> (ucast (of_nat v :: u32) :: u16) = p \<longleftrightarrow>
    v = unat p \<and> p \<noteq> 0"
proof -
  have u: "unat (of_nat v :: u32) = v" using assms by (simp add: unat_of_nat)
  have "(of_nat v :: u32) = 0 \<longleftrightarrow> v = 0" using u by (simp add: word_unat_eq_iff)
  moreover have "(of_nat v :: u32) > 0xFFFF \<longleftrightarrow> v > 65535" using u by (simp add: word_less_nat_alt)
  moreover have "(ucast (of_nat v :: u32) :: u16) = of_nat v" by (metis of_nat_unat u)
  then have "unat (ucast (of_nat v :: u32) :: u16) = v mod 65536" by (simp add: unat_of_nat)
  then have "(ucast (of_nat v :: u32) :: u16) = p \<longleftrightarrow> v mod 65536 = unat p" by (metis word_unat_eq_iff)
  moreover have "unat p < 65536" using unsigned_less [of p, where 'a = nat] by simp
  moreover have "p \<noteq> 0 \<longleftrightarrow> unat p \<noteq> 0" by (simp add: unat_eq_0)
  ultimately show ?thesis by auto
qed

lemma from_chars_whole:
  assumes "s \<noteq> []" "\<forall>c \<in> set s. digit_value c < base"
  shows "from_chars base s =
    (if digits_value base s \<ge> 2 ^ 32 then Result_Out_Of_Range (length s)
     else Parsed (of_nat (digits_value base s)) (length s))"
proof -
  have all: "takeWhile (\<lambda>c. digit_value c < base) s = s" using assms(2) by (simp add: takeWhile_eq_all_conv)
  show ?thesis unfolding from_chars_def Let_def all using assms(1) by simp
qed

lemma from_chars_part:
  assumes "from_chars base s = Parsed v n" "n = length s"
  shows "s \<noteq> []" "\<forall>c \<in> set s. digit_value c < base"
proof -
  from assms(1) have n: "n = length (takeWhile (\<lambda>c. digit_value c < base) s)"
    and "takeWhile (\<lambda>c. digit_value c < base) s \<noteq> []"
    by (auto simp: from_chars_def Let_def split: if_splits)
  then show "s \<noteq> []" by auto
  from n assms(2) have "takeWhile (\<lambda>c. digit_value c < base) s = s" by (metis takeWhile_eq_take take_all order_refl)
  then show "\<forall>c \<in> set s. digit_value c < base" by (simp add: takeWhile_eq_all_conv)
qed

lemma ParsePort_iff:
  "ParsePort (Some s) fallback = Some p \<longleftrightarrow>
     s \<noteq> [] \<and> (\<forall>c \<in> set s. digit_value c < 10) \<and> digits_value 10 s = unat p \<and> p \<noteq> 0"
proof (cases "s \<noteq> [] \<and> (\<forall>c \<in> set s. digit_value c < 10)")
  case True
  then have parse: "from_chars 10 s = (if digits_value 10 s \<ge> 2 ^ 32 then Result_Out_Of_Range (length s)
      else Parsed (of_nat (digits_value 10 s)) (length s))" by (intro from_chars_whole) auto
  show ?thesis
  proof (cases "digits_value 10 s \<ge> 2 ^ 32")
    case large: True
    moreover have "unat p < 2 ^ 16" using unsigned_less [of p, where 'a = nat] by simp
    ultimately show ?thesis unfolding ParsePort_def option.case parse by simp
  next
    case False
    then have "ParsePort (Some s) fallback = Some p \<longleftrightarrow> \<not> ((of_nat (digits_value 10 s) :: u32) = 0 \<or>
        (of_nat (digits_value 10 s) :: u32) > 0xFFFF) \<and> (ucast (of_nat (digits_value 10 s) :: u32) :: u16) = p"
      unfolding ParsePort_def option.case parse by simp
    with True ParsePort_word [of "digits_value 10 s" p] False show ?thesis by auto
  qed
next
  case False
  then have "ParsePort (Some s) fallback \<noteq> Some p"
    using from_chars_part [of 10 s] by (auto simp: ParsePort_def split: from_chars_result.splits)
  with False show ?thesis by auto
qed

lemma ParsePort_default: "ParsePort None fallback = Some fallback"
  by (simp add: ParsePort_def)

lemma ParsePort_nonzero: "ParsePort v fallback = Some p \<Longrightarrow> fallback \<noteq> 0 \<Longrightarrow> p \<noteq> 0"
  by (cases v) (auto simp: ParsePort_default ParsePort_iff)

lemma from_chars_byte:
  fixes b :: u8
  assumes "length s = 2"
  shows "(\<exists>v. from_chars 16 s = Parsed v 2 \<and> ucast v = b) \<longleftrightarrow>
    (\<forall>c \<in> set s. digit_value c < 16) \<and> b = of_nat (digits_value 16 s)"
proof (cases "\<forall>c \<in> set s. digit_value c < 16")
  case True
  have "length s = Suc (Suc 0)" using assms by simp
  then obtain c d where s: "s = [c, d]" by (auto simp: length_Suc_conv)
  with True have "digit_value c < 16" "digit_value d < 16" by simp_all
  with s have l: "digits_value 16 s < 256" by (simp add: digits_value_def)
  then have parse: "from_chars 16 s = Parsed (of_nat (digits_value 16 s)) 2"
    using from_chars_whole [of s 16] True s assms by simp
  have u32: "unat (of_nat (digits_value 16 s) :: u32) = digits_value 16 s" using l by (simp add: unat_of_nat)
  have "ucast (of_nat (digits_value 16 s) :: u32) = (of_nat (digits_value 16 s) :: u8)"
    by (metis of_nat_unat u32)
  with parse True show ?thesis by auto
next
  case False
  then show ?thesis using from_chars_part [of 16 s] assms by auto
qed

definition hex_byte_at :: "string \<Rightarrow> nat \<Rightarrow> u8" where
  "hex_byte_at s i = of_nat (digits_value 16 (take 2 (drop (i * 2) s)))"

lemma pin_loop_eq:
  assumes "length s = (i + n) * 2"
  shows "pin_loop s i n =
    (if \<forall>c \<in> set (drop (i * 2) s). digit_value c < 16 then Some (map (hex_byte_at s) [i..<i + n]) else None)"
  using assms
proof (induction n arbitrary: i)
  case (Suc n)
  let ?hex = "\<lambda>cs. \<forall>c \<in> set cs. digit_value c < 16"
  define pair where "pair = take 2 (drop (i * 2) s)"
  have l: "length pair = 2" using Suc.prems by (simp add: pair_def)
  have "drop (i * 2) s = pair @ drop ((i + 1) * 2) s"
    unfolding pair_def by (metis append_take_drop_id drop_drop add.commute distrib_right mult_1)
  then have all: "?hex (drop (i * 2) s) \<longleftrightarrow> ?hex pair \<and> ?hex (drop ((i + 1) * 2) s)" by auto
  have IH: "pin_loop s (i + 1) n = (if ?hex (drop ((i + 1) * 2) s) then Some (map (hex_byte_at s) [i + 1..<i + 1 + n]) else None)"
    by (rule Suc.IH) (use Suc.prems in simp)
  have upt: "[i..<i + Suc n] = i # [i + 1..<i + 1 + n]" by (simp add: upt_conv_Cons)
  show ?case
  proof (cases "?hex pair")
    case True
    with from_chars_byte [OF l, of "hex_byte_at s i"] obtain v where
      v: "from_chars 16 pair = Parsed v 2" "ucast v = hex_byte_at s i" by (auto simp: hex_byte_at_def pair_def)
    then have "pin_loop s i (Suc n) = do { rest \<leftarrow> pin_loop s (i + 1) n; Some (hex_byte_at s i # rest) }"
      by (simp add: pair_def)
    then show ?thesis unfolding all IH upt using True by simp
  next
    case False
    then have "from_chars 16 pair \<noteq> Parsed v 2" for v using from_chars_byte [OF l, of "ucast v"] by blast
    then have "pin_loop s i (Suc n) = None" by (auto simp: pair_def split: from_chars_result.split)
    with False show ?thesis unfolding all by auto
  qed
qed simp

text \<open>A pin is 64 hexadecimal digits, in either case, two for each byte.\<close>

lemma ParseCertificatePin_iff:
  "ParseCertificatePin (Some s) = Some pin \<longleftrightarrow>
     length s = 64 \<and> length pin = 32 \<and>
     (\<forall>i < 32. digit_value (s ! (2 * i)) < 16 \<and> digit_value (s ! (2 * i + 1)) < 16 \<and>
        unat (pin ! i) = 16 * digit_value (s ! (2 * i)) + digit_value (s ! (2 * i + 1)))"
proof (cases "length s = 64")
  case True
  have pair: "take 2 (drop (i * 2) s) = [s ! (2 * i), s ! (2 * i + 1)]" if "i < 32" for i
    using that True by (intro nth_equalityI) (auto simp: less_Suc_eq numeral_2_eq_2 mult.commute)
  have hex: "hex_byte_at s i = pin ! i \<longleftrightarrow> unat (pin ! i) = 16 * digit_value (s ! (2 * i)) + digit_value (s ! (2 * i + 1))"
    if "i < 32" "digit_value (s ! (2 * i)) < 16" "digit_value (s ! (2 * i + 1)) < 16" for i
  proof -
    have "digits_value 16 [s ! (2 * i), s ! (2 * i + 1)] < 256" using that by (simp add: digits_value_def)
    then have "unat (hex_byte_at s i) = digits_value 16 [s ! (2 * i), s ! (2 * i + 1)]"
      unfolding hex_byte_at_def pair [OF that(1)] by (intro unat_of_nat_small) simp
    then show ?thesis by (simp add: word_unat_eq_iff digits_value_def eq_commute)
  qed
  have all: "(\<forall>c \<in> set s. digit_value c < 16) \<longleftrightarrow>
      (\<forall>i < 32. digit_value (s ! (2 * i)) < 16 \<and> digit_value (s ! (2 * i + 1)) < 16)" (is "?l \<longleftrightarrow> ?r")
  proof
    assume r: ?r
    have "digit_value (s ! j) < 16" if "j < 64" for j
      using r [rule_format, of "j div 2"] that by (cases "even j") (auto elim!: evenE oddE)
    with True show ?l by (auto simp: in_set_conv_nth)
  qed (use True in auto)
  have loop: "ParseCertificatePin (Some s) =
      (if \<forall>c \<in> set s. digit_value c < 16 then Some (map (hex_byte_at s) [0..<32]) else None)"
    using True pin_loop_eq [of s 0 32] by (simp add: ParseCertificatePin_def)
  have "map (hex_byte_at s) [0..<32] = pin \<longleftrightarrow> length pin = 32 \<and> (\<forall>i < 32. hex_byte_at s i = pin ! i)"
    by (auto simp: list_eq_iff_nth_eq)
  then show ?thesis unfolding loop all using True hex by auto
next
  case False
  then show ?thesis by (simp add: ParseCertificatePin_def)
qed

lemma ParseCertificatePin_length: "ParseCertificatePin v = Some pin \<Longrightarrow> length pin = 32"
  by (cases v) (auto simp: ParseCertificatePin_iff, auto simp: ParseCertificatePin_def)

section \<open>Properties of the settings\<close>

text \<open>
  C36: a port is accepted exactly when it is written in decimal digits only and is 1 to 65535, whatever
  the default, and a certificate pin exactly when it is 64 hexadecimal digits, each byte being the value
  of its two digits; the parsers never read outside the text.
\<close>

theorem lobby_settings_exact:
  "(ParsePort (Some s) fallback = Some p \<longleftrightarrow>
      s \<noteq> [] \<and> list_all (\<lambda>c. digit_value c < 10) s \<and> digits_value 10 s = unat p \<and> p \<noteq> 0) \<and>
   (ParseCertificatePin (Some s) = Some pin \<longleftrightarrow>
      length s = 64 \<and> length pin = 32 \<and>
      list_all (\<lambda>i. digit_value (s ! (2 * i)) < 16 \<and> digit_value (s ! (2 * i + 1)) < 16 \<and>
        unat (pin ! i) = 16 * digit_value (s ! (2 * i)) + digit_value (s ! (2 * i + 1))) [0..<32])"
  unfolding ParsePort_iff ParseCertificatePin_iff by (auto simp: list_all_iff)

end
