(* ===== verification/Lobby_Client.thy ===== *)
theory Lobby_Client
  imports Socket_Io Lobby_Packets "HOL-Library.Sublist"
begin

text \<open>
  The lobby data session of \<^verbatim>\<open>src/login/lobby_client.cpp\<close>: resolving the server, opening the data
  socket, and \<^verbatim>\<open>CoordinateCharacterLoginData\<close>, which binds the session, requests the account, waits
  for the guest's character selection and hands over the map session key.  The property theorems
  relate every outcome to what was sent and received and to the handles left open.
\<close>

section \<open>Options, failures and results\<close>

record LobbyOptions =
  data_port :: u16
  view_port :: u16
  timeout_ms :: u32
  selection_timeout_ms :: u32

datatype LobbyStage =
    kInput | kResolve | kConnect | kDataBind | kViewLogin | kViewCharacterRequest | kDataTrigger
  | kDataAccountRequest | kDataCharacterList | kViewCharacterList | kDataSelectionTrigger
  | kDataSelectionRequest

datatype LobbyError =
    kInvalidInput | kNameResolutionFailed | kConnectionFailed | kIoFailed | kResponseTooLarge
  | kUnexpectedResponse | kMalformedResponse | kCancelled | kTimedOut

record LobbyFailure =
  lobby_error :: LobbyError
  lobby_stage :: LobbyStage
  parse_error :: "ParseError option"

record DataCharacterLoginResult =
  character_slot_count :: u8

definition Failure :: "LobbyError \<Rightarrow> LobbyStage \<Rightarrow> LobbyFailure" where
  "Failure e s = \<lparr>lobby_error = e, lobby_stage = s, parse_error = None\<rparr>"

section \<open>Resolving and connecting\<close>

text \<open>\<^verbatim>\<open>sockaddr_in\<close> is 16 bytes: family, port in network order, address, padding.\<close>

abbreviation (input) sockaddr_in_size :: nat where "sockaddr_in_size \<equiv> 16"

definition c_str :: "bytes \<Rightarrow> bytes" where
  "c_str bs = takeWhile (\<lambda>b. b \<noteq> 0) bs"

definition set_sin_port :: "bytes \<Rightarrow> u16 \<Rightarrow> bytes" where
  "set_sin_port address port = take 2 address @ [ucast (drop_bit 8 port), ucast port] @ drop 4 address"

definition ToIpv4Address :: "bytes \<Rightarrow> bytes option" where
  "ToIpv4Address address = sub_range address 4 4"

definition ResolveIpv4 :: "'w winsock \<Rightarrow> bytes \<Rightarrow> 'w net \<Rightarrow> (LobbyFailure + bytes list) \<times> 'w net" where
  "ResolveIpv4 ws host n =
     (case sys_getaddrinfo ws (c_str host) None AF_INET (world n) of
        (None, w) \<Rightarrow> (Inl (Failure kNameResolutionFailed kResolve), called (GetAddrInfo (c_str host) None False) w n)
      | (Some addresses, w) \<Rightarrow>
          let n = called (GetAddrInfo (c_str host) None True) w n;
              result = map ai_addr (filter (\<lambda>a. length (ai_addr a) = sockaddr_in_size) addresses);
              n = called FreeAddrInfo (sys_freeaddrinfo ws (world n)) n
          in if result = [] then (Inl (Failure kNameResolutionFailed kResolve), n) else (Inr result, n))"

fun OpenDataSocket ::
  "'w winsock \<Rightarrow> bytes list \<Rightarrow> LobbyOptions \<Rightarrow> 'w net \<Rightarrow> (LobbyFailure + nat \<times> bytes) \<times> 'w net" where
  "OpenDataSocket ws [] options n = (Inl (Failure kConnectionFailed kConnect), n)"
| "OpenDataSocket ws (a # as) options n =
     (let address = set_sin_port a (data_port options) in
      case open_socket ws AF_INET SOCK_STREAM IPPROTO_TCP n of
        (None, n) \<Rightarrow> OpenDataSocket ws as options n
      | (Some data, n) \<Rightarrow>
          (case ConnectSocket_lobby ws data address (timeout_ms options) n of
             (True, n) \<Rightarrow> (Inr (data, address), n)
           | (False, n) \<Rightarrow> OpenDataSocket ws as options (close_socket ws data n)))"

section \<open>The exchange\<close>

abbreviation (input) kDataTriggerSize :: nat where "kDataTriggerSize \<equiv> 5"
abbreviation (input) kLoaderCharacterListSize :: nat where "kLoaderCharacterListSize \<equiv> 0x148"

text \<open>A scope with a \<^verbatim>\<open>SensitiveArray\<close>: its bytes are cleared when the scope is left.\<close>

definition with_sensitive ::
  "bytes \<Rightarrow> (bytes \<Rightarrow> 'w net \<Rightarrow> ('r \<times> 'w net) option) \<Rightarrow> 'w net \<Rightarrow> ('r \<times> 'w net) option" where
  "with_sensitive bs body n = do { (r, n) \<leftarrow> body bs n; Some (r, secure_zero (length bs) n) }"

text \<open>A buffer after a receive stored \<open>out\<close> at its front.\<close>

definition stored :: "bytes \<Rightarrow> bytes \<Rightarrow> bytes" where
  "stored out buffer = out @ drop (length out) buffer"

definition data_trigger_is :: "u8 \<Rightarrow> bytes \<Rightarrow> bool" where
  "data_trigger_is b trigger = (case trigger of [] \<Rightarrow> False | x # xs \<Rightarrow> x = b \<and> list_all (\<lambda>v. v = 0) xs)"

definition selection_error :: "ReceiveWaitResult \<Rightarrow> LobbyError" where
  "selection_error r =
     (if r = ReceiveWaitResult.kCancelled then kCancelled
      else if r = ReceiveWaitResult.kTimedOut then kTimedOut else kIoFailed)"

text \<open>From the selection trigger to the end.\<close>

definition SelectionPhase ::
  "'w winsock \<Rightarrow> nat \<Rightarrow> bytes \<Rightarrow> LobbyOptions \<Rightarrow> DataCharacterLoginResult \<Rightarrow> 'w net
     \<Rightarrow> ((LobbyFailure + DataCharacterLoginResult) \<times> 'w net) option" where
  "SelectionPhase ws s map_session_key options result n =
     do {
       (r, received, n) \<leftarrow> ReceiveExactUntil ws s kDataTriggerSize (selection_timeout_ms options) n;
       if r \<noteq> kComplete then Some (Inl (Failure (selection_error r) kDataSelectionTrigger), n)
       else if \<not> data_trigger_is 2 (stored received (replicate kDataTriggerSize 0))
       then Some (Inl (Failure kUnexpectedResponse kDataSelectionTrigger), n)
       else do {
         selection_request \<leftarrow> MakeDataSelectionRequest map_session_key;
         with_sensitive selection_request (\<lambda>request n. do {
           (ok, n) \<leftarrow> SendAll ws s request n;
           if \<not> ok then Some (Inl (Failure kIoFailed kDataSelectionRequest), n) else Some (Inr result, n)
         }) n
       }
     }"

text \<open>From the account request to the end.\<close>

definition AccountPhase ::
  "'w winsock \<Rightarrow> nat \<Rightarrow> bytes \<Rightarrow> SessionMaterial \<Rightarrow> bytes \<Rightarrow> LobbyOptions \<Rightarrow> 'w net
     \<Rightarrow> ((LobbyFailure + DataCharacterLoginResult) \<times> 'w net) option" where
  "AccountPhase ws s address session map_session_key options n =
     do {
       server_address \<leftarrow> ToIpv4Address address;
       account_request \<leftarrow> MakeDataAccountRequest session server_address;
       with_sensitive account_request (\<lambda>request n. do {
         (ok, n) \<leftarrow> SendAll ws s request n;
         if \<not> ok then Some (Inl (Failure kIoFailed kDataAccountRequest), n)
         else do {
           (ok, received, n) \<leftarrow> ReceiveExact ws s kLoaderCharacterListSize n;
           let loader_list = stored received (replicate kLoaderCharacterListSize 0);
           if \<not> ok
           then Some (Inl (Failure kIoFailed kDataCharacterList), secure_zero (length loader_list) n)
           else do {
             command \<leftarrow> at_index loader_list 0;
             slots \<leftarrow> at_index loader_list 1;
             let n = secure_zero (length loader_list) n;
             if command \<noteq> 0x03 \<or> slots > 16
             then Some (Inl (Failure kUnexpectedResponse kDataCharacterList), n)
             else SelectionPhase ws s map_session_key options \<lparr>character_slot_count = slots\<rparr> n
           }
         }
       }) n
     }"

text \<open>Everything on the connected data socket.\<close>

definition DataExchange ::
  "'w winsock \<Rightarrow> nat \<Rightarrow> bytes \<Rightarrow> SessionMaterial \<Rightarrow> bytes \<Rightarrow> LobbyOptions \<Rightarrow> 'w net
     \<Rightarrow> ((LobbyFailure + DataCharacterLoginResult) \<times> 'w net) option" where
  "DataExchange ws s address session map_session_key options n =
     do {
       data_bind \<leftarrow> MakeDataBind (session_hash session);
       with_sensitive data_bind (\<lambda>request n. do {
         (ok, n) \<leftarrow> SendAll ws s request n;
         if \<not> ok then Some (Inl (Failure kIoFailed kDataBind), n)
         else do {
           (ok, received, n) \<leftarrow> ReceiveExact ws s kDataTriggerSize n;
           if \<not> ok then Some (Inl (Failure kIoFailed kDataTrigger), n)
           else if \<not> data_trigger_is 1 (stored received (replicate kDataTriggerSize 0))
           then Some (Inl (Failure kUnexpectedResponse kDataTrigger), n)
           else AccountPhase ws s address session map_session_key options n
         }
       }) n
     }"

definition CoordinateCharacterLoginData ::
  "'w winsock \<Rightarrow> bytes \<Rightarrow> SessionMaterial \<Rightarrow> bytes \<Rightarrow> LobbyOptions \<Rightarrow> 'w net
     \<Rightarrow> ((LobbyFailure + DataCharacterLoginResult) \<times> 'w net) option" where
  "CoordinateCharacterLoginData ws host session map_session_key options n =
     (let hash_valid = list_ex (\<lambda>v. v \<noteq> 0) (session_hash session);
          map_key_valid = list_ex (\<lambda>v. v \<noteq> 0) map_session_key
      in if host = [] \<or> account_id session = 0 \<or> \<not> hash_valid \<or> \<not> map_key_valid \<or>
            data_port options = 0 \<or> timeout_ms options = 0 \<or> selection_timeout_ms options = 0
         then Some (Inl (Failure kInvalidInput kInput), n)
         else case sys_startup ws (world n) of
                (False, w) \<Rightarrow> Some (Inl (Failure kConnectionFailed kConnect), called (WSAStartup False) w n)
              | (True, w) \<Rightarrow> do {
                  let n = called (WSAStartup True) w n;
                  (r, n) \<leftarrow>
                    (case ResolveIpv4 ws host n of
                       (Inl e, n) \<Rightarrow> Some (Inl e, n)
                     | (Inr addresses, n) \<Rightarrow>
                         (case OpenDataSocket ws addresses options n of
                            (Inl e, n) \<Rightarrow> Some (Inl e, n)
                          | (Inr (s, address), n) \<Rightarrow> do {
                              (r, n) \<leftarrow> DataExchange ws s address session map_session_key options n;
                              Some (r, close_socket ws s n)
                            }));
                  Some (r, called WSACleanup (sys_cleanup ws (world n)) n)
                })"

section \<open>The specification of the exchange\<close>

definition selection_image :: "bytes \<Rightarrow> bytes" where
  "selection_image key = 0xA2 # key @ replicate 7 0"

definition bind_image :: "SessionMaterial \<Rightarrow> bytes" where
  "bind_image session = 0xFE # replicate 11 0 @ session_hash session"

definition account_image :: "SessionMaterial \<Rightarrow> bytes \<Rightarrow> bytes" where
  "account_image session address =
     0xA1 # le32_bytes (account_id session) @ take 4 (drop 4 address) @ replicate 3 0 @ session_hash session"

definition trigger_image :: "u8 \<Rightarrow> bytes" where
  "trigger_image b = [b, 0, 0, 0, 0]"

text \<open>
  The outcome \<open>r\<close> of the phases after the character list, given what was sent and received.
\<close>

definition selection_outcome ::
  "bytes \<Rightarrow> DataCharacterLoginResult \<Rightarrow> LobbyFailure + DataCharacterLoginResult \<Rightarrow> bytes \<Rightarrow> bytes \<Rightarrow> bool" where
  "selection_outcome key result r sent got \<longleftrightarrow>
     (case r of
        Inr ok \<Rightarrow> ok = result \<and> sent = selection_image key \<and> got = trigger_image 2
      | Inl f \<Rightarrow>
          (lobby_stage f = kDataSelectionTrigger \<and> sent = [] \<and> got \<noteq> trigger_image 2 \<or>
           lobby_stage f = kDataSelectionRequest \<and> lobby_error f = kIoFailed \<and> got = trigger_image 2 \<and>
             strict_prefix sent (selection_image key)))"

definition account_outcome ::
  "bytes \<Rightarrow> bytes \<Rightarrow> LobbyFailure + DataCharacterLoginResult \<Rightarrow> bytes \<Rightarrow> bytes \<Rightarrow> bool" where
  "account_outcome request key r sent got \<longleftrightarrow>
     (\<exists>sent' got' slots ls. sent = request @ sent' \<and> got = ls @ got' \<and> length ls = 0x148 \<and>
        ls ! 0 = 3 \<and> ls ! 1 = slots \<and> slots \<le> 16 \<and>
        selection_outcome key \<lparr>character_slot_count = slots\<rparr> r sent' got') \<or>
     (\<exists>f. r = Inl f \<and>
        (lobby_stage f = kDataAccountRequest \<and> lobby_error f = kIoFailed \<and> got = [] \<and> strict_prefix sent request \<or>
         lobby_stage f = kDataCharacterList \<and> sent = request \<and>
           (length got < 0x148 \<or> length got = 0x148 \<and> (got ! 0 \<noteq> 3 \<or> 16 < got ! 1))))"

definition exchange_outcome ::
  "bytes \<Rightarrow> bytes \<Rightarrow> bytes \<Rightarrow> LobbyFailure + DataCharacterLoginResult \<Rightarrow> bytes \<Rightarrow> bytes \<Rightarrow> bool" where
  "exchange_outcome greeting request key r sent got \<longleftrightarrow>
     (\<exists>sent' got'. sent = greeting @ sent' \<and> got = trigger_image 1 @ got' \<and>
        account_outcome request key r sent' got') \<or>
     (\<exists>f. r = Inl f \<and>
        (lobby_stage f = kDataBind \<and> lobby_error f = kIoFailed \<and> got = [] \<and> strict_prefix sent greeting \<or>
         lobby_stage f = kDataTrigger \<and> sent = greeting \<and> got \<noteq> trigger_image 1))"

lemma account_outcome_later:
  "length ls = 0x148 \<Longrightarrow> ls ! 0 = 3 \<Longrightarrow> ls ! 1 \<le> 16 \<Longrightarrow>
     selection_outcome key \<lparr>character_slot_count = ls ! 1\<rparr> r sent got \<Longrightarrow>
     account_outcome request key r (request @ sent) (ls @ got)"
  unfolding account_outcome_def by blast

lemma exchange_outcome_later:
  "account_outcome request key r sent got \<Longrightarrow>
     exchange_outcome greeting request key r (greeting @ sent) (trigger_image 1 @ got)"
  unfolding exchange_outcome_def by blast

section \<open>The phases meet the specification\<close>

text \<open>\<open>meets P s n m\<close>: the computation returns, made stream calls only, and its transcript satisfies \<open>P\<close>.\<close>

definition meets ::
  "('r \<Rightarrow> bytes \<Rightarrow> bytes \<Rightarrow> bool) \<Rightarrow> nat \<Rightarrow> 'w net \<Rightarrow> ('r \<times> 'w net) option \<Rightarrow> bool" where
  "meets P s n m \<longleftrightarrow>
     (\<exists>r n' cs. m = Some (r, n') \<and> made s n n' cs \<and> P r (sent_bytes cs) (received_bytes cs))"

lemma meets_return: "P r [] [] \<Longrightarrow> meets P s n (Some (r, n))"
  by (auto simp: meets_def made_def intro!: exI [of _ "[]"])

lemma meets_after:
  assumes "made s n n1 cs" "meets (\<lambda>r sent got. P r (sent_bytes cs @ sent) (received_bytes cs @ got)) s n1 m"
  shows "meets P s n m"
  using assms made_trans [OF assms(1)] unfolding meets_def by (metis received_bytes_append sent_bytes_append)

lemma meets_zero: "meets P s n m \<Longrightarrow> meets P s n (do { (r, n) \<leftarrow> m; Some (r, secure_zero k n) })"
  unfolding meets_def secure_zero_def
  by (fastforce simp: made_def intro!: exI [of _ "_ @ [SecureZeroMemory k]"])

lemma meets_with_sensitive: "meets P s n (body bs n) \<Longrightarrow> meets P s n (with_sensitive bs body n)"
  unfolding with_sensitive_def by (rule meets_zero)

lemma data_trigger_is_iff:
  "data_trigger_is b (stored received (replicate 5 0)) \<longleftrightarrow> received = trigger_image b"
  if "length received = 5"
  using that
  by (auto simp: data_trigger_is_def stored_def trigger_image_def length_Suc_conv numeral_eq_Suc split: list.splits)

context winsock_service
begin

lemma meets_SendAll:
  assumes "\<And>n1. meets (\<lambda>r sent got. P r (bs @ sent) got) s n1 (ok n1)"
    and "\<And>sent n1. strict_prefix sent bs \<Longrightarrow> meets (\<lambda>r sent' got. P r (sent @ sent') got) s n1 (failed n1)"
  shows "meets P s n (do { (b, n) \<leftarrow> SendAll ws s bs n; if \<not> b then failed n else ok n })"
proof -
  obtain b n1 where snd: "SendAll ws s bs n = Some (b, n1)" using SendAll_returns by fastforce
  from SendAll_calls [OF this] obtain cs rest where cs: "made s n n1 cs" "received_bytes cs = []"
    "bs = sent_bytes cs @ rest" "b \<longleftrightarrow> rest = []" by blast
  show ?thesis
  proof (cases b)
    case True
    with cs have "sent_bytes cs = bs" by simp
    with meets_after [OF cs(1), of P "ok n1"] assms(1) [of n1] cs(2) True snd show ?thesis by simp
  next
    case False
    with cs have "strict_prefix (sent_bytes cs) bs" by (auto simp: strict_prefix_def)
    with meets_after [OF cs(1), of P "failed n1"] assms(2) [of "sent_bytes cs" n1] cs(2) False snd
    show ?thesis by simp
  qed
qed

lemma meets_ReceiveExact:
  assumes "\<And>out n1. length out = k \<Longrightarrow> meets (\<lambda>r sent got. P r sent (out @ got)) s n1 (ok out n1)"
    and "\<And>out n1. length out < k \<Longrightarrow> meets (\<lambda>r sent got. P r sent (out @ got)) s n1 (failed out n1)"
  shows "meets P s n (do { (b, out, n) \<leftarrow> ReceiveExact ws s k n; if \<not> b then failed out n else ok out n })"
proof -
  obtain b out n1 where rcv: "ReceiveExact ws s k n = Some (b, out, n1)" using ReceiveExact_returns by fastforce
  from ReceiveExact_calls [OF this] obtain cs where cs: "made s n n1 cs" "sent_bytes cs = []"
    "received_bytes cs = out" "length out \<le> k" "b \<longleftrightarrow> length out = k" by blast
  show ?thesis
  proof (cases b)
    case True
    with meets_after [OF cs(1), of P "ok out n1"] assms(1) [of out n1] cs rcv show ?thesis by simp
  next
    case False
    with meets_after [OF cs(1), of P "failed out n1"] assms(2) [of out n1] cs rcv show ?thesis by simp
  qed
qed

end

lemma meets_zero_first: "meets P s (secure_zero k n) m \<Longrightarrow> meets P s n m"
  using meets_after [of s n "secure_zero k n" "[SecureZeroMemory k]" P m]
  by (simp add: made_def secure_zero_def)

lemma meets_weaken: "meets P s n m \<Longrightarrow> (\<And>r sent got. P r sent got \<Longrightarrow> Q r sent got) \<Longrightarrow> meets Q s n m"
  unfolding meets_def by blast

lemma stored_full: "length out = length buffer \<Longrightarrow> stored out buffer = out"
  by (simp add: stored_def)

lemma selection_image_eq: "length key = 20 \<Longrightarrow> MakeDataSelectionRequest key = Some (selection_image key)"
  by (simp add: MakeDataSelectionRequest_bytes selection_image_def)

lemma account_image_eq:
  "length (session_hash session) = 16 \<Longrightarrow> 8 \<le> length address \<Longrightarrow>
     do { ip \<leftarrow> ToIpv4Address address; MakeDataAccountRequest session ip } = Some (account_image session address)"
  by (simp add: ToIpv4Address_def sub_range_def MakeDataAccountRequest_bytes account_image_def)

lemma bind_image_eq:
  "length (session_hash session) = 16 \<Longrightarrow> MakeDataBind (session_hash session) = Some (bind_image session)"
  by (simp add: MakeDataBind_bytes bind_image_def)

context winsock_clock
begin

lemma SelectionPhase_meets:
  assumes "length key = 20"
  shows "meets (selection_outcome key result) s n (SelectionPhase ws s key options result n)"
proof -
  obtain r out n1 where rcv: "ReceiveExactUntil ws s 5 (selection_timeout_ms options) n = Some (r, out, n1)"
    using ReceiveExactUntil_returns by fastforce
  from ReceiveExactUntil_calls [OF this] obtain cs where cs: "made s n n1 cs" "sent_bytes cs = []"
    "received_bytes cs = out" "r = kComplete \<longrightarrow> length out = 5" "r \<noteq> kComplete \<longrightarrow> length out < 5"
    by auto
  have early: "meets (selection_outcome key result) s n (Some (Inl (Failure e kDataSelectionTrigger), n1))"
    if "out \<noteq> trigger_image 2" for e
    using that cs
    by (intro meets_after [OF cs(1)] meets_return) (simp add: selection_outcome_def Failure_def)
  show ?thesis
  proof (cases "r = kComplete \<and> out = trigger_image 2")
    case True
    then have trig: "data_trigger_is 2 (stored out (replicate 5 0))"
      by (simp add: data_trigger_is_iff trigger_image_def)
    have "meets (selection_outcome key result) s n (with_sensitive (selection_image key) (\<lambda>request n. do {
           (ok, n) \<leftarrow> SendAll ws s request n;
           if \<not> ok then Some (Inl (Failure kIoFailed kDataSelectionRequest), n) else Some (Inr result, n)
         }) n1)"
    proof (intro meets_after [OF cs(1)] meets_with_sensitive meets_SendAll meets_return)
    qed (use True cs in \<open>auto simp: selection_outcome_def Failure_def\<close>)
    then show ?thesis using rcv True trig
      by (simp add: SelectionPhase_def selection_image_eq [OF assms])
  next
    case False
    have "out \<noteq> trigger_image 2" if "r \<noteq> kComplete" using that cs by (auto simp: trigger_image_def)
    then show ?thesis using rcv False early cs data_trigger_is_iff [of out 2]
      by (auto simp: SelectionPhase_def)
  qed
qed

lemma AccountPhase_meets:
  assumes "length key = 20" "length (session_hash session) = 16" "8 \<le> length address"
  shows "meets (account_outcome (account_image session address) key) s n
           (AccountPhase ws s address session key options n)"
proof -
  define image where "image = account_image session address"
  note outcome = account_outcome_def Failure_def
  have lst: "meets (\<lambda>r sent got. account_outcome image key r (image @ sent) (ls @ got)) s n1
      (do {
         command \<leftarrow> at_index ls 0;
         slots \<leftarrow> at_index ls 1;
         let n = secure_zero (length ls) n1;
         if command \<noteq> 0x03 \<or> slots > 16
         then Some (Inl (Failure kUnexpectedResponse kDataCharacterList), n)
         else SelectionPhase ws s key options \<lparr>character_slot_count = slots\<rparr> n
       })" if ls: "length ls = 0x148" for ls n1
  proof -
    have ix: "at_index ls 0 = Some (ls ! 0)" "at_index ls 1 = Some (ls ! 1)" using ls by (simp_all add: at_index_def)
    show ?thesis
    proof (cases "ls ! 0 \<noteq> 3 \<or> ls ! 1 > 16")
      case True
      have "meets (\<lambda>r sent got. account_outcome image key r (image @ sent) (ls @ got)) s n1
          (Some (Inl (Failure kUnexpectedResponse kDataCharacterList), secure_zero (length ls) n1))"
        by (rule meets_zero_first, rule meets_return) (use True ls in \<open>auto simp: outcome\<close>)
      then show ?thesis using True ix by (simp add: Let_def)
    next
      case False
      have "meets (\<lambda>r sent got. account_outcome image key r (image @ sent) (ls @ got)) s n1
          (SelectionPhase ws s key options \<lparr>character_slot_count = ls ! 1\<rparr> (secure_zero (length ls) n1))"
        by (rule meets_zero_first, rule meets_weaken, rule SelectionPhase_meets [OF assms(1)],
            rule account_outcome_later) (use False ls in \<open>auto simp: linorder_not_less\<close>)
      then show ?thesis using False ix by (simp add: Let_def)
    qed
  qed
  have "meets (account_outcome image key) s n (with_sensitive image (\<lambda>request n. do {
         (ok, n) \<leftarrow> SendAll ws s request n;
         if \<not> ok then Some (Inl (Failure kIoFailed kDataAccountRequest), n)
         else do {
           (ok, received, n) \<leftarrow> ReceiveExact ws s kLoaderCharacterListSize n;
           let loader_list = stored received (replicate kLoaderCharacterListSize 0);
           if \<not> ok
           then Some (Inl (Failure kIoFailed kDataCharacterList), secure_zero (length loader_list) n)
           else do {
             command \<leftarrow> at_index loader_list 0;
             slots \<leftarrow> at_index loader_list 1;
             let n = secure_zero (length loader_list) n;
             if command \<noteq> 0x03 \<or> slots > 16
             then Some (Inl (Failure kUnexpectedResponse kDataCharacterList), n)
             else SelectionPhase ws s key options \<lparr>character_slot_count = slots\<rparr> n
           }
         }
       }) n)"
    unfolding Let_def
  proof (intro meets_with_sensitive meets_SendAll meets_ReceiveExact)
    fix n1 n2 and out :: bytes assume len: "length out = 0x148"
    then have full: "stored out (replicate 0x148 0) = out" by (simp add: stored_full)
    show "meets (\<lambda>r sent got. account_outcome image key r (image @ sent) (out @ got)) s n2
      (do {
         command \<leftarrow> at_index (stored out (replicate 0x148 0)) 0;
         slots \<leftarrow> at_index (stored out (replicate 0x148 0)) 1;
         if command \<noteq> 0x03 \<or> slots > 16
         then Some (Inl (Failure kUnexpectedResponse kDataCharacterList),
           secure_zero (length (stored out (replicate 0x148 0))) n2)
         else SelectionPhase ws s key options \<lparr>character_slot_count = slots\<rparr>
           (secure_zero (length (stored out (replicate 0x148 0))) n2)
       })" using lst [OF len, of n2] unfolding full Let_def by simp
  qed ((rule meets_return | rule meets_zero_first, rule meets_return), auto simp: outcome)+
  then show ?thesis
    using account_image_eq [OF assms(2,3)] unfolding image_def [symmetric]
    by (auto simp: AccountPhase_def bind_eq_Some_conv)
qed

lemma DataExchange_meets:
  assumes "length key = 20" "length (session_hash session) = 16" "8 \<le> length address"
  shows "meets (exchange_outcome (bind_image session) (account_image session address) key) s n
           (DataExchange ws s address session key options n)"
proof -
  define greeting request where "greeting = bind_image session" and "request = account_image session address"
  have "meets (exchange_outcome greeting request key) s n (with_sensitive greeting (\<lambda>bs n. do {
         (ok, n) \<leftarrow> SendAll ws s bs n;
         if \<not> ok then Some (Inl (Failure kIoFailed kDataBind), n)
         else do {
           (ok, received, n) \<leftarrow> ReceiveExact ws s kDataTriggerSize n;
           if \<not> ok then Some (Inl (Failure kIoFailed kDataTrigger), n)
           else if \<not> data_trigger_is 1 (stored received (replicate kDataTriggerSize 0))
           then Some (Inl (Failure kUnexpectedResponse kDataTrigger), n)
           else AccountPhase ws s address session key options n
         }
       }) n)"
  proof (intro meets_with_sensitive meets_SendAll meets_ReceiveExact)
    fix n1 n2 and out :: bytes assume "length out = 5"
    then show "meets (\<lambda>r sent got. exchange_outcome greeting request key r (greeting @ sent) (out @ got)) s n2
      (if \<not> data_trigger_is 1 (stored out (replicate kDataTriggerSize 0))
       then Some (Inl (Failure kUnexpectedResponse kDataTrigger), n2)
       else AccountPhase ws s address session key options n2)"
      unfolding data_trigger_is_iff [OF \<open>length out = 5\<close>]
      using AccountPhase_meets [OF assms, of s n2 options, folded request_def]
      by (auto intro!: meets_return elim!: meets_weaken exchange_outcome_later
          simp: exchange_outcome_def [of greeting request key "Inl _"] Failure_def)
  qed (rule meets_return, auto simp: exchange_outcome_def Failure_def trigger_image_def)+
  then show ?thesis
    unfolding DataExchange_def bind_image_eq [OF assms(2)] greeting_def request_def by simp
qed

end

section \<open>The handles of a run\<close>

text \<open>Calls between two points, and what they do to the open handles.\<close>

definition handles_after :: "'w net \<Rightarrow> 'w net \<Rightarrow> nat list \<Rightarrow> nat list \<Rightarrow> net_call list \<Rightarrow> bool" where
  "handles_after n n' hs hs' cs \<longleftrightarrow> calls n' = calls n @ cs \<and> open_handles cs hs = Some hs'"

lemma handles_trans:
  "handles_after n n' hs hs' cs \<Longrightarrow> handles_after n' n'' hs' hs'' ds \<Longrightarrow> handles_after n n'' hs hs'' (cs @ ds)"
  by (simp add: handles_after_def open_handles_append)

lemma made_handles: "made s n n' cs \<Longrightarrow> handles_after n n' hs hs cs"
  by (auto simp: made_def handles_after_def intro: open_handles_stream)

lemma OpenDataSocket_calls:
  assumes "OpenDataSocket ws as options n = (r, n')" "\<forall>a \<in> set as. length a = 16"
  shows "\<exists>cs. handles_after n n' hs (case r of Inr (s, _) \<Rightarrow> s # hs | Inl _ \<Rightarrow> hs) cs \<and>
    sent_bytes cs = [] \<and> received_bytes cs = [] \<and>
    (case r of Inl f \<Rightarrow> f = Failure kConnectionFailed kConnect
     | Inr (_, address) \<Rightarrow> \<exists>a \<in> set as. address = set_sin_port a (data_port options))"
  using assms
proof (induction as arbitrary: n)
  case Nil
  then show ?case by (auto simp: handles_after_def intro!: exI [of _ "[]"])
next
  case (Cons a as)
  let ?address = "set_sin_port a (data_port options)"
  obtain so n1 where so: "open_socket ws AF_INET SOCK_STREAM IPPROTO_TCP n = (so, n1)"
    by (cases "open_socket ws AF_INET SOCK_STREAM IPPROTO_TCP n")
  then have n1: "calls n1 = calls n @ [OpenSocket so]" by (auto simp: open_socket_def split: prod.splits)
  show ?case
  proof (cases so)
    case None
    then have step: "handles_after n n1 hs hs [OpenSocket so]" using n1 by (simp add: handles_after_def)
    from None Cons.prems(1) so have "OpenDataSocket ws as options n1 = (r, n')" by simp
    from Cons.IH [OF this] Cons.prems(2) obtain ds where
      "handles_after n1 n' hs (case r of Inr (s, _) \<Rightarrow> s # hs | Inl _ \<Rightarrow> hs) ds"
      "sent_bytes ds = []" "received_bytes ds = []"
      "case r of Inl f \<Rightarrow> f = Failure kConnectionFailed kConnect
       | Inr (_, address) \<Rightarrow> \<exists>a \<in> set as. address = set_sin_port a (data_port options)" by auto
    then show ?thesis using handles_trans [OF step] None
      by (intro exI [of _ "[OpenSocket so] @ ds"]) (auto split: sum.splits)
  next
    case (Some s)
    obtain ok n2 where cn: "ConnectSocket_lobby ws s ?address (timeout_ms options) n1 = (ok, n2)"
      by (cases "ConnectSocket_lobby ws s ?address (timeout_ms options) n1")
    then obtain cs where cs: "made s n1 n2 cs" "sent_bytes cs = []" "received_bytes cs = []"
      using quiet_ConnectSocket_lobby unfolding quiet_on_def by blast
    have opened: "handles_after n n2 hs (s # hs) ([OpenSocket so] @ cs)"
      using n1 Some by (intro handles_trans [OF _ made_handles [OF cs(1)]]) (simp add: handles_after_def)
    show ?thesis
    proof (cases ok)
      case True
      with Cons.prems so Some cn opened cs show ?thesis
        by (intro exI [of _ "[OpenSocket so] @ cs"]) auto
    next
      case False
      have "handles_after n2 (close_socket ws s n2) (s # hs) hs [CloseSocket s]"
        by (simp add: handles_after_def close_socket_def)
      note closed = handles_trans [OF opened this]
      from False Cons.prems so Some cn
      have rec: "OpenDataSocket ws as options (close_socket ws s n2) = (r, n')" by simp
      from Cons.IH [OF this] Cons.prems(2) obtain ds where
        "handles_after (close_socket ws s n2) n' hs (case r of Inr (s, _) \<Rightarrow> s # hs | Inl _ \<Rightarrow> hs) ds"
        "sent_bytes ds = []" "received_bytes ds = []"
        "case r of Inl f \<Rightarrow> f = Failure kConnectionFailed kConnect
         | Inr (_, address) \<Rightarrow> \<exists>a \<in> set as. address = set_sin_port a (data_port options)" by auto
      then show ?thesis using handles_trans [OF closed] cs Some
        by (intro exI [of _ "(([OpenSocket so] @ cs) @ [CloseSocket s]) @ ds"]) (auto split: sum.splits)
    qed
  qed
qed

section \<open>The whole login\<close>

lemma ResolveIpv4_calls:
  assumes "ResolveIpv4 ws host n = (r, n')"
  shows "\<exists>cs. handles_after n n' hs hs cs \<and> sent_bytes cs = [] \<and> received_bytes cs = [] \<and>
    (case r of Inl f \<Rightarrow> f = Failure kNameResolutionFailed kResolve
     | Inr as \<Rightarrow> as \<noteq> [] \<and> (\<forall>a \<in> set as. length a = 16))"
proof (cases "fst (sys_getaddrinfo ws (c_str host) None AF_INET (world n))")
  case None
  with assms show ?thesis
    by (auto simp: ResolveIpv4_def handles_after_def split: prod.splits
        intro!: exI [of _ "[GetAddrInfo (c_str host) None False]"])
next
  case (Some as)
  with assms show ?thesis
    by (auto simp: ResolveIpv4_def handles_after_def Let_def split: prod.splits if_splits
        intro!: exI [of _ "[GetAddrInfo (c_str host) None True, FreeAddrInfo]"])
qed

text \<open>What the login did, from its result and its calls.\<close>

definition login_outcome ::
  "SessionMaterial \<Rightarrow> bytes \<Rightarrow> LobbyFailure + DataCharacterLoginResult \<Rightarrow> net_call list \<Rightarrow> bool" where
  "login_outcome session key r cs \<longleftrightarrow>
     (r = Inl (Failure kInvalidInput kInput) \<and> cs = []) \<or>
     (r = Inl (Failure kConnectionFailed kConnect) \<and> cs = [WSAStartup False]) \<or>
     (\<exists>ds. cs = WSAStartup True # ds @ [WSACleanup] \<and> open_handles ds [] = Some [] \<and>
        (sent_bytes ds = [] \<and> received_bytes ds = [] \<and>
           r \<in> {Inl (Failure kNameResolutionFailed kResolve), Inl (Failure kConnectionFailed kConnect)} \<or>
         (\<exists>address. length address = 16 \<and>
            exchange_outcome (bind_image session) (account_image session address) key r
              (sent_bytes ds) (received_bytes ds))))"

lemma length_set_sin_port: "length a = 16 \<Longrightarrow> length (set_sin_port a port) = 16"
  by (simp add: set_sin_port_def)

context winsock_clock
begin

lemma connected_login:
  assumes "length key = 20" "length (session_hash session) = 16"
  shows "\<exists>r n' ds.
    (case ResolveIpv4 ws host n of
       (Inl e, n) \<Rightarrow> Some (Inl e, n)
     | (Inr addresses, n) \<Rightarrow>
         (case OpenDataSocket ws addresses options n of
            (Inl e, n) \<Rightarrow> Some (Inl e, n)
          | (Inr (s, address), n) \<Rightarrow> do {
              (r, n) \<leftarrow> DataExchange ws s address session key options n;
              Some (r, close_socket ws s n)
            })) = Some (r, n') \<and> handles_after n n' [] [] ds \<and>
    (sent_bytes ds = [] \<and> received_bytes ds = [] \<and>
       r \<in> {Inl (Failure kNameResolutionFailed kResolve), Inl (Failure kConnectionFailed kConnect)} \<or>
     (\<exists>address. length address = 16 \<and>
        exchange_outcome (bind_image session) (account_image session address) key r
          (sent_bytes ds) (received_bytes ds)))"
proof -
  obtain ra n1 where ra: "ResolveIpv4 ws host n = (ra, n1)" by (cases "ResolveIpv4 ws host n")
  obtain cs where cs: "handles_after n n1 [] [] cs" "sent_bytes cs = []" "received_bytes cs = []"
    "case ra of Inl f \<Rightarrow> f = Failure kNameResolutionFailed kResolve
     | Inr as \<Rightarrow> as \<noteq> [] \<and> (\<forall>a \<in> set as. length a = 16)"
    using ResolveIpv4_calls [OF ra, of "[]"] by blast
  show ?thesis
  proof (cases ra)
    case (Inl f)
    with ra cs show ?thesis by (intro exI [of _ "Inl f"] exI [of _ n1] exI [of _ cs]) simp
  next
    case (Inr as)
    obtain rs n2 where rs: "OpenDataSocket ws as options n1 = (rs, n2)" by (cases "OpenDataSocket ws as options n1")
    obtain ds where ds: "handles_after n1 n2 [] (case rs of Inr (s, _) \<Rightarrow> [s] | Inl _ \<Rightarrow> []) ds"
      "sent_bytes ds = []" "received_bytes ds = []"
      "case rs of Inl f \<Rightarrow> f = Failure kConnectionFailed kConnect
       | Inr (_, address) \<Rightarrow> \<exists>a \<in> set as. address = set_sin_port a (data_port options)"
      using OpenDataSocket_calls [OF rs, of "[]"] Inr cs(4) by auto
    note opened = handles_trans [OF cs(1) ds(1)]
    show ?thesis
    proof (cases rs)
      case (Inl f)
      with ra Inr rs cs ds opened show ?thesis
        by (intro exI [of _ "Inl f"] exI [of _ n2] exI [of _ "cs @ ds"]) simp
    next
      case ok: (Inr sa)
      obtain s address where sa: "sa = (s, address)" by (cases sa)
      have len: "length address = 16" using ok sa Inr cs(4) ds(4) length_set_sin_port by auto
      then obtain r n3 es where es: "DataExchange ws s address session key options n2 = Some (r, n3)"
        "made s n2 n3 es" "exchange_outcome (bind_image session) (account_image session address) key r
           (sent_bytes es) (received_bytes es)"
        using DataExchange_meets [OF assms, of address s n2 options] unfolding meets_def by auto
      have "handles_after n3 (close_socket ws s n3) [s] [] [CloseSocket s]"
        by (simp add: handles_after_def close_socket_def)
      from handles_trans [OF handles_trans [OF opened] this, of es] ok sa made_handles [OF es(2)]
      have "handles_after n (close_socket ws s n3) [] [] (((cs @ ds) @ es) @ [CloseSocket s])" by simp
      with ra Inr rs ok sa es len cs ds show ?thesis
        by (intro exI [of _ r] exI [of _ "close_socket ws s n3"]
            exI [of _ "((cs @ ds) @ es) @ [CloseSocket s]"]) auto
    qed
  qed
qed

lemma login_meets:
  assumes "length key = 20" "length (session_hash session) = 16"
  shows "\<exists>r n' cs. CoordinateCharacterLoginData ws host session key options n = Some (r, n') \<and>
    calls n' = calls n @ cs \<and> login_outcome session key r cs"
proof -
  obtain ok w where start: "sys_startup ws (world n) = (ok, w)" by (cases "sys_startup ws (world n)")
  define valid where "valid \<longleftrightarrow> \<not> (host = [] \<or> account_id session = 0 \<or>
      \<not> list_ex (\<lambda>v. v \<noteq> 0) (session_hash session) \<or> \<not> list_ex (\<lambda>v. v \<noteq> 0) key \<or>
      data_port options = 0 \<or> timeout_ms options = 0 \<or> selection_timeout_ms options = 0)"
  consider "\<not> valid" | "valid" "\<not> ok" | "valid" ok by blast
  then show ?thesis
  proof cases
    case 1
    then show ?thesis
      by (intro exI [of _ "Inl (Failure kInvalidInput kInput)"] exI [of _ n] exI [of _ "[]"])
         (simp add: CoordinateCharacterLoginData_def valid_def login_outcome_def Let_def)
  next
    case 2
    with start show ?thesis
      by (intro exI [of _ "Inl (Failure kConnectionFailed kConnect)"]
          exI [of _ "called (WSAStartup False) w n"] exI [of _ "[WSAStartup False]"])
         (simp add: CoordinateCharacterLoginData_def valid_def login_outcome_def Let_def)
  next
    case 3
    let ?n = "called (WSAStartup True) w n"
    from connected_login [OF assms, where host = host and n = ?n and options = options] obtain r n' ds where
      body: "(case ResolveIpv4 ws host ?n of
         (Inl e, n) \<Rightarrow> Some (Inl e, n)
       | (Inr addresses, n) \<Rightarrow>
           (case OpenDataSocket ws addresses options n of
              (Inl e, n) \<Rightarrow> Some (Inl e, n)
            | (Inr (s, address), n) \<Rightarrow> do {
                (r, n) \<leftarrow> DataExchange ws s address session key options n;
                Some (r, close_socket ws s n)
              })) = Some (r, n')"
      and out: "handles_after ?n n' [] [] ds" "sent_bytes ds = [] \<and> received_bytes ds = [] \<and>
           r \<in> {Inl (Failure kNameResolutionFailed kResolve), Inl (Failure kConnectionFailed kConnect)} \<or>
         (\<exists>address. length address = 16 \<and>
            exchange_outcome (bind_image session) (account_image session address) key r
              (sent_bytes ds) (received_bytes ds))" by blast
    have "CoordinateCharacterLoginData ws host session key options n =
        Some (r, called WSACleanup (sys_cleanup ws (world n')) n')"
      using 3 start body by (simp add: CoordinateCharacterLoginData_def valid_def Let_def)
    with out show ?thesis
      by (intro exI [of _ r] exI [of _ "called WSACleanup (sys_cleanup ws (world n')) n'"]
          exI [of _ "WSAStartup True # ds @ [WSACleanup]"])
         (auto simp: login_outcome_def handles_after_def)
  qed
qed

end

section \<open>Properties of the lobby login\<close>

lemma exchange_key_release:
  assumes "exchange_outcome greeting request key r sent got" "length greeting = 28" "length request = 28"
    and "56 < length sent"
  shows "take 56 sent = greeting @ request \<and> prefix (drop 56 sent) (selection_image key) \<and>
    (\<exists>ls. got = trigger_image 1 @ ls @ trigger_image 2 \<and> length ls = 0x148 \<and> ls ! 0 = 3 \<and> ls ! 1 \<le> 16)"
proof -
  have short: "length xs < 28" if "strict_prefix xs ys" "length ys = 28" for xs ys :: bytes
    using that prefix_length_less by fastforce
  from assms obtain sent1 got1 where 1: "sent = greeting @ sent1" "got = trigger_image 1 @ got1"
    "account_outcome request key r sent1 got1" "28 < length sent1"
    using short [of sent greeting] by (auto simp: exchange_outcome_def)
  with assms(3) obtain sent2 got2 ls where 2: "sent1 = request @ sent2" "got1 = ls @ got2" "length ls = 0x148"
    "ls ! 0 = 3" "ls ! 1 \<le> 16" "selection_outcome key \<lparr>character_slot_count = ls ! 1\<rparr> r sent2 got2" "sent2 \<noteq> []"
    using short [of sent1 request] by (auto simp: account_outcome_def)
  then have "got2 = trigger_image 2" "prefix sent2 (selection_image key)"
    by (auto simp: selection_outcome_def strict_prefix_def split: sum.splits)
  with 1 2 assms(2,3) show ?thesis by auto
qed

lemma length_images:
  "length (session_hash session) = 16 \<Longrightarrow> length (bind_image session) = 28"
  "length (session_hash session) = 16 \<Longrightarrow> length address = 16 \<Longrightarrow> length (account_image session address) = 28"
  by (simp_all add: bind_image_def account_image_def)

text \<open>A login against the scripted peer, which runs to its end.\<close>

definition sample_session :: SessionMaterial where
  "sample_session = \<lparr>account_id = 1000, session_hash = replicate 16 7\<rparr>"

definition sample_options :: LobbyOptions where
  "sample_options = \<lparr>data_port = 54230, view_port = 54001, timeout_ms = 10000, selection_timeout_ms = 300000\<rparr>"

definition sample_list :: bytes where
  "sample_list = [3, 2] @ replicate 326 0"

definition sample_peer :: "peer net" where
  "sample_peer =
     \<lparr>world = \<lparr>incoming = trigger_image 1 @ sample_list @ trigger_image 2,
               clock_ns = 0, stopped = False\<rparr>, calls = []\<rparr>"

lemma sample_exchange:
  fixes n :: "peer net"
  assumes "incoming (world n) = trigger_image 1 @ sample_list @ trigger_image 2" "\<not> stopped (world n)"
    and "sent_bytes (calls n) = []" "length address = 16"
  shows "\<exists>n'. DataExchange scripted s address sample_session (replicate 20 5) sample_options n =
    Some (Inr \<lparr>character_slot_count = 2\<rparr>, n') \<and> length (sent_bytes (calls n')) = 84"
proof -
  let ?key = "replicate 20 (5 :: u8)"
  have len: "length (bind_image sample_session) = 28" "length (account_image sample_session address) = 28"
    "length (selection_image ?key) = 28"
    using assms(4) by (simp_all add: bind_image_def account_image_def selection_image_def sample_session_def)
  then have ne: "bind_image sample_session \<noteq> []" "account_image sample_session address \<noteq> []"
    "selection_image ?key \<noteq> []" by auto
  have lst: "length sample_list = 0x148" "at_index sample_list 0 = Some 3" "at_index sample_list 1 = Some 2"
    by (simp_all add: sample_list_def at_index_def)
  have trig: "length (trigger_image b) = 5" "data_trigger_is b (stored (trigger_image b) (replicate 5 0))" for b
    using data_trigger_is_iff [of "trigger_image b" b] by (simp_all add: trigger_image_def)
  have full: "stored sample_list (replicate 0x148 0) = sample_list" using lst by (simp add: stored_full)
  have t: "timeout_ms sample_options \<noteq> 0" "selection_timeout_ms sample_options \<noteq> 0"
    by (simp_all add: sample_options_def)
  note images = bind_image_eq [of sample_session] selection_image_eq [of ?key]
  obtain ip where ip: "ToIpv4Address address = Some ip"
    "MakeDataAccountRequest sample_session ip = Some (account_image sample_session address)"
    using account_image_eq [of sample_session address] assms(4)
    by (auto simp: sample_session_def bind_eq_Some_conv)
  have sel: "\<exists>n'. SelectionPhase scripted s ?key sample_options r n1 = Some (Inr r, n') \<and>
      length (sent_bytes (calls n')) = length (sent_bytes (calls n1)) + 28"
    if "incoming (world n1) = trigger_image 2" "\<not> stopped (world n1)" for n1 r
    using that trig len ne t images
    by (simp add: SelectionPhase_def with_sensitive_def scripted_ReceiveExactUntil scripted_SendAll secure_zero_def)
  have acc: "\<exists>n'. AccountPhase scripted s address sample_session ?key sample_options n1 =
      Some (Inr \<lparr>character_slot_count = 2\<rparr>, n') \<and> length (sent_bytes (calls n')) = length (sent_bytes (calls n1)) + 56"
    if "incoming (world n1) = sample_list @ trigger_image 2" "\<not> stopped (world n1)" for n1
  proof -
    define n2 where "n2 = secure_zero 0x148 (called (RecvBytes s 0x148 (Some sample_list))
        (world n1\<lparr>incoming := trigger_image 2\<rparr>)
        (called (SendBytes s (account_image sample_session address) (Some 28)) (world n1) n1))"
    have "incoming (world n2) = trigger_image 2" "\<not> stopped (world n2)"
      "length (sent_bytes (calls n2)) = length (sent_bytes (calls n1)) + 28"
      using that len by (simp_all add: n2_def secure_zero_def)
    with sel [of n2 "\<lparr>character_slot_count = 2\<rparr>"] obtain n' where
      "SelectionPhase scripted s ?key sample_options \<lparr>character_slot_count = 2\<rparr> n2 =
         Some (Inr \<lparr>character_slot_count = 2\<rparr>, n')"
      "length (sent_bytes (calls n')) = length (sent_bytes (calls n1)) + 56" by auto
    then show ?thesis
      using that len ne lst full ip
      by (simp add: AccountPhase_def with_sensitive_def scripted_SendAll scripted_ReceiveExact Let_def
          n2_def [symmetric] secure_zero_def [of 28])
  qed
  define n2 where "n2 = called (RecvBytes s 5 (Some (trigger_image 1)))
        (world n\<lparr>incoming := sample_list @ trigger_image 2\<rparr>)
        (called (SendBytes s (bind_image sample_session) (Some 28)) (world n) n)"
  have "\<exists>n'. AccountPhase scripted s address sample_session ?key sample_options n2 =
      Some (Inr \<lparr>character_slot_count = 2\<rparr>, n') \<and> length (sent_bytes (calls n')) = 84"
    using acc [of n2] assms len by (auto simp: n2_def)
  then show ?thesis
    using assms trig len ne images
    by (auto simp: DataExchange_def with_sensitive_def scripted_SendAll scripted_ReceiveExact
        n2_def [symmetric] secure_zero_def sample_session_def [THEN arg_cong, of session_hash])
qed

lemma sample_login:
  "\<exists>n'. CoordinateCharacterLoginData scripted [0x68] sample_session (replicate 20 5) sample_options sample_peer
     = Some (Inr \<lparr>character_slot_count = 2\<rparr>, n') \<and> length (sent_bytes (calls n')) = 84"
proof -
  define a :: bytes where "a = [2, 0, 0, 0, 127, 0, 0, 1, 0, 0, 0, 0, 0, 0, 0, 0]"
  let ?start = "called (WSAStartup True) (world sample_peer) sample_peer"
  obtain n0 where r: "ResolveIpv4 scripted [0x68] ?start = (Inr [a], n0)"
    and n0: "world n0 = world sample_peer" "sent_bytes (calls n0) = []"
    by (simp add: ResolveIpv4_def scripted_def a_def sample_peer_def Let_def)
  obtain n1 where o: "OpenDataSocket scripted [a] sample_options n0 = (Inr (1, set_sin_port a 54230), n1)"
    and n1: "world n1 = world sample_peer" "sent_bytes (calls n1) = []"
    using n0 by (simp add: scripted_def open_socket_def ConnectSocket_lobby_def ioctlsocket_def
        connect_def setsockopt_def sample_options_def Let_def)
  have p: "incoming (world n1) = trigger_image 1 @ sample_list @ trigger_image 2" "\<not> stopped (world n1)"
    using n1 by (simp_all add: sample_peer_def)
  have "length (set_sin_port a 54230) = 16" by (simp add: a_def set_sin_port_def)
  from sample_exchange [OF p n1(2) this, of 1] obtain n2 where n2:
    "DataExchange scripted 1 (set_sin_port a 54230) sample_session (replicate 20 5) sample_options n1 =
       Some (Inr \<lparr>character_slot_count = 2\<rparr>, n2)" "length (sent_bytes (calls n2)) = 84" by blast
  have "sys_startup scripted (world sample_peer) = (True, world sample_peer)" by (simp add: scripted_def)
  moreover have "list_ex (\<lambda>v. v \<noteq> 0) (session_hash sample_session)" "account_id sample_session \<noteq> 0"
    "list_ex (\<lambda>v. v \<noteq> 0) (replicate 20 (5 :: u8))"
    by (simp_all add: sample_session_def list_ex_iff)
  moreover have "data_port sample_options \<noteq> 0" "timeout_ms sample_options \<noteq> 0"
    "selection_timeout_ms sample_options \<noteq> 0" by (simp_all add: sample_options_def)
  ultimately show ?thesis
    unfolding CoordinateCharacterLoginData_def Let_def using r o n2 by (simp add: close_socket_def)
qed

text \<open>
  C8: against every server and every failure of the operating system the data login returns; its
  result, the stage it names, the bytes it sent and received, the handles it closed and the Winsock
  startup it undid are related as the protocol prescribes: nothing is sent before the connection,
  each failure names the stage whose message was cut short or refused, and success means that the
  three requests were sent whole around the two triggers and a character list of at most 16 slots.
\<close>

theorem coordinate_login_outcome:
  assumes "winsock_clock ws ticks" "length key = 20" "length (session_hash session) = 16"
  shows "\<exists>r n' cs. CoordinateCharacterLoginData ws host session key options n = Some (r, n') \<and>
    calls n' = calls n @ cs \<and> login_outcome session key r cs"
  by (rule winsock_clock.login_meets [OF assms])

theorem coordinate_login_outcome_witness:
  "\<exists>r n' cs. CoordinateCharacterLoginData scripted [0x68] sample_session (replicate 20 5) sample_options sample_peer
       = Some (r, n') \<and> calls n' = calls sample_peer @ cs \<and> login_outcome sample_session (replicate 20 5) r cs"
  by (rule coordinate_login_outcome [OF scripted.winsock_clock_axioms]) (simp_all add: sample_session_def)

text \<open>
  C12: the map session key leaves the machine only after the server accepted the session and the guest
  selected a character: whenever more than the 56 bytes of the first two requests were sent, both
  triggers and a well-formed character list had been received, and what follows is a prefix of the
  selection request.
\<close>

theorem map_key_released_after_selection:
  assumes "winsock_clock ws ticks" "length key = 20" "length (session_hash session) = 16"
    and "CoordinateCharacterLoginData ws host session key options n = Some (r, n')"
    and "calls n' = calls n @ cs" "56 < length (sent_bytes cs)"
  shows "\<exists>address ls. take 56 (sent_bytes cs) = bind_image session @ account_image session address \<and>
    prefix (drop 56 (sent_bytes cs)) (selection_image key) \<and>
    received_bytes cs = trigger_image 1 @ ls @ trigger_image 2 \<and>
    length ls = 0x148 \<and> ls ! 0 = 3 \<and> ls ! 1 \<le> 16"
proof -
  have "login_outcome session key r cs"
    using winsock_clock.login_meets [OF assms(1-3), of host options n] assms(4,5) by auto
  then obtain ds address where ds: "cs = WSAStartup True # ds @ [WSACleanup]" "length address = 16"
    "exchange_outcome (bind_image session) (account_image session address) key r (sent_bytes ds) (received_bytes ds)"
    using assms(6) by (auto simp: login_outcome_def)
  show ?thesis
    using exchange_key_release [OF ds(3) length_images(1) length_images(2)] ds(1,2) assms(3,6) by auto
qed

theorem map_key_released_after_selection_witness:
  "\<exists>n' cs address ls. CoordinateCharacterLoginData scripted [0x68] sample_session (replicate 20 5) sample_options
       sample_peer = Some (Inr \<lparr>character_slot_count = 2\<rparr>, n') \<and> calls n' = cs \<and>
     take 56 (sent_bytes cs) = bind_image sample_session @ account_image sample_session address \<and>
     received_bytes cs = trigger_image 1 @ ls @ trigger_image 2"
proof -
  obtain n' where n': "CoordinateCharacterLoginData scripted [0x68] sample_session (replicate 20 5) sample_options
      sample_peer = Some (Inr \<lparr>character_slot_count = 2\<rparr>, n')" "length (sent_bytes (calls n')) = 84"
    using sample_login by blast
  have "calls n' = calls sample_peer @ calls n'" by (simp add: sample_peer_def)
  from map_key_released_after_selection [OF scripted.winsock_clock_axioms _ _ n'(1) this] n' show ?thesis
    by (auto simp: sample_session_def)
qed

end
