(* ===== verification/Tls_Resources.thy ===== *)
theory Tls_Resources
  imports Tls_Client "HOL-Library.Multiset"
begin

text \<open>
  What the authentication client holds and what it reveals, read off the calls it made: every
  provider object it acquired is released once and only while held, and nothing is encrypted before
  the certificate is checked.
\<close>

section \<open>The ledger\<close>

datatype resource = Winsock | Addresses | Socket nat | Credentials | Context | Token | Certificate

fun acquires :: "net_call \<Rightarrow> resource multiset" where
  "acquires (WSAStartup True) = {#Winsock#}"
| "acquires (GetAddrInfo host service True) = {#Addresses#}"
| "acquires (OpenSocket (Some s)) = {#Socket s#}"
| "acquires (AcquireCredentials manual True) = {#Credentials#}"
| "acquires (InitializeContext first valid allocated) =
     (if valid then {#Context#} else {#}) + (if allocated then {#Token#} else {#})"
| "acquires (CertificateHash h) = {#Certificate#}"
| "acquires c = {#}"

fun releases :: "net_call \<Rightarrow> resource multiset" where
  "releases WSACleanup = {#Winsock#}"
| "releases FreeAddrInfo = {#Addresses#}"
| "releases (CloseSocket s) = {#Socket s#}"
| "releases FreeCredentials = {#Credentials#}"
| "releases DeleteContext = {#Context#}"
| "releases FreeContextBuffer = {#Token#}"
| "releases FreeCertificate = {#Certificate#}"
| "releases c = {#}"

text \<open>What is held after the calls; \<open>None\<close> when something was released that was not held.\<close>

fun ledger :: "net_call list \<Rightarrow> resource multiset \<Rightarrow> resource multiset option" where
  "ledger [] held = Some held"
| "ledger (c # cs) held = (if releases c \<subseteq># held then ledger cs (held - releases c + acquires c) else None)"

lemma ledger_append: "ledger (cs @ ds) held = do { held \<leftarrow> ledger cs held; ledger ds held }"
  by (induction cs arbitrary: held) auto

text \<open>The plaintexts handed to \<^verbatim>\<open>EncryptMessage\<close>.\<close>

fun plaintext_of :: "net_call \<Rightarrow> bytes list" where
  "plaintext_of (EncryptMessage bs) = [bs]"
| "plaintext_of c = []"

definition plaintexts :: "net_call list \<Rightarrow> bytes list" where
  "plaintexts cs = concat (map plaintext_of cs)"

lemma plaintexts_simps [simp]:
  "plaintexts [] = []" "plaintexts (c # cs) = plaintext_of c @ plaintexts cs"
  "plaintexts (cs @ ds) = plaintexts cs @ plaintexts ds"
  by (simp_all add: plaintexts_def)

text \<open>
  \<open>transfers A B n n' cs\<close>: between \<open>n\<close> and \<open>n'\<close> the program made the calls \<open>cs\<close>, and holding \<open>A\<close> before
  it holds \<open>B\<close> after, whatever else it holds.
\<close>

definition transfers ::
  "resource multiset \<Rightarrow> resource multiset \<Rightarrow> 'w net \<Rightarrow> 'w net \<Rightarrow> net_call list \<Rightarrow> bool" where
  "transfers A B n n' cs \<longleftrightarrow>
     calls n' = calls n @ cs \<and> (\<forall>held. ledger cs (held + A) = Some (held + B))"

lemma transfers_refl: "transfers A A n n []"
  by (simp add: transfers_def)

lemma transfers_trans [trans]:
  "transfers A B n n' cs \<Longrightarrow> transfers B C n' n'' ds \<Longrightarrow> transfers A C n n'' (cs @ ds)"
  by (simp add: transfers_def ledger_append)

lemma transfers_frame: "transfers A B n n' cs \<Longrightarrow> transfers (A + C) (B + C) n n' cs"
  unfolding transfers_def by (metis add.assoc add.commute)

lemma transfers_neutral: "transfers {#} {#} n n' cs \<Longrightarrow> transfers A A n n' cs"
  using transfers_frame [of "{#}" "{#}" n n' cs A] by simp

lemma transfers_called:
  assumes "releases c \<subseteq># A" "B = A - releases c + acquires c"
  shows "transfers A B n (called c w n) [c]"
proof -
  from assms(1) obtain D where A: "A = releases c + D" by (auto simp: subset_mset.le_iff_add)
  have "held + A - releases c + acquires c = held + B" for held
    using assms(2) by (simp add: A add.assoc [symmetric] add.commute [of held])
  then show ?thesis by (simp add: transfers_def A)
qed

lemma ledger_stream: "\<forall>c \<in> set cs. stream_call s c \<Longrightarrow> ledger cs held = Some held"
proof (induction cs arbitrary: held)
  case (Cons c cs)
  then show ?case by (cases c) auto
qed simp

lemma plaintexts_stream: "\<forall>c \<in> set cs. stream_call s c \<Longrightarrow> plaintexts cs = []"
proof (induction cs)
  case (Cons c cs)
  then show ?case by (cases c) auto
qed simp

lemma made_transfers: "made s n n' cs \<Longrightarrow> transfers A A n n' cs \<and> plaintexts cs = []"
  by (auto simp: made_def transfers_def ledger_stream plaintexts_stream)

text \<open>The common case: provider calls that encrypt nothing.\<close>

definition silent :: "resource multiset \<Rightarrow> resource multiset \<Rightarrow> 'w net \<Rightarrow> 'w net \<Rightarrow> bool" where
  "silent A B n n' \<longleftrightarrow> (\<exists>cs. transfers A B n n' cs \<and> plaintexts cs = [])"

lemma silent_refl [intro, simp]: "silent A A n n"
  using transfers_refl by (force simp: silent_def)

lemma silent_trans [trans]: "silent A B n n' \<Longrightarrow> silent B C n' n'' \<Longrightarrow> silent A C n n''"
  unfolding silent_def using transfers_trans by (metis append_Nil plaintexts_simps(3))

lemma silent_neutral: "silent {#} {#} n n' \<Longrightarrow> silent A A n n'"
  unfolding silent_def using transfers_neutral by blast

lemma silent_frame: "silent A B n n' \<Longrightarrow> silent (A + C) (B + C) n n'"
  unfolding silent_def using transfers_frame by blast

lemma silent_called:
  "releases c \<subseteq># A \<Longrightarrow> B = A - releases c + acquires c \<Longrightarrow> plaintext_of c = [] \<Longrightarrow> silent A B n (called c w n)"
  unfolding silent_def using transfers_called [of c A B n w] by (intro exI [of _ "[c]"]) simp

lemma silent_made: "made s n n' cs \<Longrightarrow> silent A A n n'"
  unfolding silent_def using made_transfers by blast

section \<open>The operations of the client on the ledger\<close>

lemma SendAll_silent: "SendAll ws s bs n = Some (ok, n') \<Longrightarrow> silent A A n n'"
proof (induction ws s bs n arbitrary: ok n' rule: SendAll.induct)
  case (1 ws s bs n)
  obtain r n1 where snd: "send ws s (take (min (length bs) INT_MAX) bs) n = (r, n1)"
    by (cases "send ws s (take (min (length bs) INT_MAX) bs) n")
  then have first: "silent A A n n1" by (auto simp: send_def intro!: silent_called split: prod.splits)
  from 1(2) snd consider "n' = n" | "n' = n1"
    | k where "r = Some k" "k \<noteq> 0" "k \<le> length bs" "bs \<noteq> []" "SendAll ws s (drop k bs) n1 = Some (ok, n')"
    by (subst (asm) SendAll.simps) (auto simp: Let_def not_less split: if_splits option.splits)
  then show ?case
  proof cases
    case 3
    with 1(1) snd have "silent A A n1 n'" by auto
    with first show ?thesis by (rule silent_trans)
  qed (use first in auto)
qed

lemma Receive_silent: "Receive ws s encrypted n = Some (ok, encrypted', n') \<Longrightarrow> silent A A n n'"
  by (auto simp: Receive_def recv_def intro!: silent_called split: if_splits prod.splits option.splits)

definition allocated :: "bytes option \<Rightarrow> resource multiset" where
  "allocated tok = (if tok = None then {#} else {#Token#})"

lemma free_token_silent: "silent (A + allocated tok) A n (free_token ss tok n)"
  by (auto simp: free_token_def allocated_def release_def intro!: silent_called)

lemma CompleteAndSend_cases:
  assumes "CompleteAndSend ws ss s status tok n = Some (ok, n')"
  obtains n1 where "n1 = n \<or> n1 = called CompleteAuthToken (snd (ss_complete ss (world n))) n"
    "n' = free_token ss tok n1 \<or>
       (\<exists>bs ok n2. tok = Some bs \<and> SendAll ws s bs n1 = Some (ok, n2) \<and> n' = free_token ss tok n2)"
proof -
  define c where "c = (if status = SEC_I_COMPLETE_NEEDED \<or> status = SEC_I_COMPLETE_AND_CONTINUE
         then (case ss_complete ss (world n) of (ok, w) \<Rightarrow> (ok, called CompleteAuthToken w n))
         else (True, n))"
  obtain completed n1 where c1: "c = (completed, n1)" by (cases c)
  show thesis
  proof (rule that [of n1])
    show "n1 = n \<or> n1 = called CompleteAuthToken (snd (ss_complete ss (world n))) n"
      using c1 unfolding c_def by (auto split: if_splits prod.splits)
    show "n' = free_token ss tok n1 \<or>
       (\<exists>bs ok n2. tok = Some bs \<and> SendAll ws s bs n1 = Some (ok, n2) \<and> n' = free_token ss tok n2)"
      using assms c1 unfolding CompleteAndSend_def c_def [symmetric]
      by (auto simp: bind_eq_Some_conv split: if_splits option.splits)
  qed
qed

lemma CompleteAndSend_silent:
  assumes "CompleteAndSend ws ss s status tok n = Some (ok, n')"
  shows "silent (A + allocated tok) A n n'"
  using CompleteAndSend_cases [OF assms]
proof cases
  case (1 n1)
  have "silent (A + allocated tok) (A + allocated tok) n n1" using 1(1) by (auto intro!: silent_called)
  also have "silent (A + allocated tok) A n1 n'"
    using 1(2) by (auto intro: silent_trans [OF SendAll_silent free_token_silent] free_token_silent)
  finally show ?thesis .
qed

lemma initialize_context_silent:
  "initialize_context ss name (Some input) n = (r, n') \<Longrightarrow> silent A (A + allocated (token r)) n n'"
  by (auto simp: initialize_context_def allocated_def intro!: silent_called split: prod.splits)

lemma decrypt_message_silent: "decrypt_message ss encrypted n = (r, n') \<Longrightarrow> silent A A n n'"
  by (auto simp: decrypt_message_def intro!: silent_called split: prod.splits)

lemma query_stream_sizes_silent: "query_stream_sizes ss n = (r, n') \<Longrightarrow> silent A A n n'"
  by (auto simp: query_stream_sizes_def intro!: silent_called split: prod.splits)

lemma free_silent: "acquires c = {#} \<Longrightarrow> plaintext_of c = [] \<Longrightarrow> silent (A + releases c) A n (release ss c n)"
  unfolding release_def by (rule silent_called) simp_all

lemmas silent_steps = SendAll_silent Receive_silent initialize_context_silent CompleteAndSend_silent
  decrypt_message_silent query_stream_sizes_silent

text \<open>What the loops leave of the connection: its socket and its handles.\<close>

definition same_handles :: "tls_connection \<Rightarrow> tls_connection \<Rightarrow> bool" where
  "same_handles t t' \<longleftrightarrow> tls_socket t' = tls_socket t \<and>
     credentials_ready t' = credentials_ready t \<and> context_ready t' = context_ready t"

lemma same_handles_simps [simp]:
  "same_handles t t" "same_handles t (t'\<lparr>pending_encrypted := e\<rparr>) = same_handles t t'"
  "same_handles t (t'\<lparr>stream_sizes := z\<rparr>) = same_handles t t'"
  "same_handles (t\<lparr>pending_encrypted := e\<rparr>) t' = same_handles t t'"
  by (simp_all add: same_handles_def)

lemma same_handles_trans: "same_handles t t' \<Longrightarrow> same_handles t' t'' \<Longrightarrow> same_handles t t''"
  by (simp add: same_handles_def)

text \<open>One round of the handshake, broken into its calls.\<close>

lemma handshake_round_cases:
  assumes "handshake_round ws ss (t, encrypted, n) = Some x"
  obtains (unread) encrypted' n1 where "Receive ws (tls_socket t) encrypted n = Some (False, encrypted', n1)"
      "x = Inr (False, t, n1)"
    | (unsent) encrypted1 n1 r n2 n3 where
      "encrypted = [] \<and> Receive ws (tls_socket t) encrypted n = Some (True, encrypted1, n1) \<or>
         encrypted \<noteq> [] \<and> encrypted1 = encrypted \<and> n1 = n"
      "initialize_context ss (tls_server_name t) (Some encrypted1) n1 = (r, n2)"
      "CompleteAndSend ws ss (tls_socket t) (init_status r) (token r) n2 = Some (False, n3)"
      "x = Inr (False, t, n3)"
    | (incomplete) encrypted1 n1 r n2 n3 received encrypted2 n4 where
      "encrypted = [] \<and> Receive ws (tls_socket t) encrypted n = Some (True, encrypted1, n1) \<or>
         encrypted \<noteq> [] \<and> encrypted1 = encrypted \<and> n1 = n"
      "initialize_context ss (tls_server_name t) (Some encrypted1) n1 = (r, n2)"
      "CompleteAndSend ws ss (tls_socket t) (init_status r) (token r) n2 = Some (True, n3)"
      "Receive ws (tls_socket t) encrypted1 n3 = Some (received, encrypted2, n4)"
      "x = (if received then Inl (t, encrypted2, n4) else Inr (False, t, n4))"
    | (consumed) encrypted1 n1 r n2 n3 encrypted2 where
      "encrypted = [] \<and> Receive ws (tls_socket t) encrypted n = Some (True, encrypted1, n1) \<or>
         encrypted \<noteq> [] \<and> encrypted1 = encrypted \<and> n1 = n"
      "initialize_context ss (tls_server_name t) (Some encrypted1) n1 = (r, n2)"
      "CompleteAndSend ws ss (tls_socket t) (init_status r) (token r) n2 = Some (True, n3)"
      "PreserveExtra encrypted1 (unconsumed r) = Some encrypted2"
      "NormalizeCompleteStatus (init_status r) = SEC_E_OK \<and>
         (\<exists>sizes n4 b. query_stream_sizes ss n3 = (sizes, n4) \<and> (b \<longleftrightarrow> sizes \<noteq> None) \<and>
          x = Inr (b, (case sizes of None \<Rightarrow> t\<lparr>pending_encrypted := encrypted2\<rparr>
            | Some z \<Rightarrow> t\<lparr>pending_encrypted := encrypted2, stream_sizes := z\<rparr>), n4)) \<or>
       x = Inr (False, t, n3) \<or>
       NormalizeCompleteStatus (init_status r) = SEC_I_CONTINUE_NEEDED \<and> x = Inl (t, encrypted2, n3)"
proof -
  from assms obtain ready encrypted1 n1 where
    start: "(if encrypted = [] then Receive ws (tls_socket t) encrypted n else Some (True, encrypted, n)) =
      Some (ready, encrypted1, n1)"
    unfolding handshake_round_def prod.case
    by (cases "if encrypted = [] then Receive ws (tls_socket t) encrypted n else Some (True, encrypted, n)") auto
  show thesis
  proof (cases ready)
    case False
    with start have "Receive ws (tls_socket t) encrypted n = Some (False, encrypted1, n1)"
      by (auto split: if_splits)
    moreover have "x = Inr (False, t, n1)"
      using assms start False unfolding handshake_round_def prod.case start by simp
    ultimately show thesis by (rule unread)
  next
    case True
    have from_start: "encrypted = [] \<and> Receive ws (tls_socket t) encrypted n = Some (True, encrypted1, n1) \<or>
         encrypted \<noteq> [] \<and> encrypted1 = encrypted \<and> n1 = n"
      using start True by (auto split: if_splits)
    obtain r n2 where init: "initialize_context ss (tls_server_name t) (Some encrypted1) n1 = (r, n2)"
      by (cases "initialize_context ss (tls_server_name t) (Some encrypted1) n1")
    note body = assms [unfolded handshake_round_def prod.case start Option.bind.simps
        Let_def init, simplified True, simplified]
    from body obtain sent n3 where sent: "CompleteAndSend ws ss (tls_socket t) (init_status r) (token r) n2 = Some (sent, n3)"
      by (cases "CompleteAndSend ws ss (tls_socket t) (init_status r) (token r) n2") auto
    show thesis
    proof (cases sent)
      case False
      with body sent have "x = Inr (False, t, n3)" by simp
      from unsent [OF from_start init _ this] sent False show thesis by simp
    next
      case True
      note body = body [unfolded sent, simplified True, simplified]
      show thesis
      proof (cases "NormalizeCompleteStatus (init_status r) = SEC_E_INCOMPLETE_MESSAGE")
        case inc: True
        from body inc obtain received encrypted2 n4 where
          "Receive ws (tls_socket t) encrypted1 n3 = Some (received, encrypted2, n4)"
          "x = (if received then Inl (t, encrypted2, n4) else Inr (False, t, n4))"
          by (cases "Receive ws (tls_socket t) encrypted1 n3") (auto split: if_splits)
        from incomplete [OF from_start init sent [simplified True] this] show thesis .
      next
        case False
        with body obtain encrypted2 where pres: "PreserveExtra encrypted1 (unconsumed r) = Some encrypted2"
          by (auto simp: bind_eq_Some_conv)
        show thesis
          by (rule consumed [OF from_start init sent [simplified True] pres])
             (use body False pres in \<open>auto split: if_splits option.splits prod.splits\<close>)
      qed
    qed
  qed
qed

lemma start_silent:
  "encrypted = [] \<and> Receive ws s encrypted n = Some (True, encrypted1, n1) \<or>
     encrypted \<noteq> [] \<and> encrypted1 = encrypted \<and> n1 = n \<Longrightarrow> silent A A n n1"
  using Receive_silent by blast

lemma ContinueHandshake_silent:
  assumes "ContinueHandshake ws ss t encrypted n = Some (ok, t', n')"
  shows "silent A A n n' \<and> same_handles t t'"
proof -
  define Q where "Q = (\<lambda>y :: bool \<times> tls_connection \<times> 'a net. silent A A n (snd (snd y)) \<and> same_handles t (fst (snd y)))"
  define I where "I = (\<lambda>s :: tls_connection \<times> bytes \<times> 'a net. silent A A n (snd (snd s)) \<and> same_handles t (fst s))"
  have outcome: "case x of Inl s \<Rightarrow> I s | Inr y \<Rightarrow> Q y"
    if I: "I (t0, e, n0)" and round: "handshake_round ws ss (t0, e, n0) = Some x" for t0 e n0 x
  proof -
    have A: "silent A A n n0" and t0: "same_handles t t0" using I by (auto simp: I_def)
    note to = silent_trans [OF A]
    from round show ?thesis
    proof (cases rule: handshake_round_cases)
      case unread
      with t0 to [OF Receive_silent] show ?thesis by (auto simp: Q_def)
    next
      case (unsent e1 n1 r n2 n3)
      with to [OF silent_trans [OF start_silent silent_trans [OF initialize_context_silent CompleteAndSend_silent]]] t0
      show ?thesis by (auto simp: Q_def)
    next
      case (incomplete e1 n1 r n2 n3 received e2 n4)
      have "silent A A n n4"
        by (rule to [OF silent_trans [OF start_silent silent_trans [OF initialize_context_silent
              silent_trans [OF CompleteAndSend_silent Receive_silent]]], OF incomplete(1-4)])
      with incomplete t0 show ?thesis by (auto simp: Q_def I_def)
    next
      case (consumed e1 n1 r n2 n3 e2)
      have "silent A A n n3"
        by (rule to [OF silent_trans [OF start_silent silent_trans [OF initialize_context_silent
              CompleteAndSend_silent]], OF consumed(1-3)])
      with consumed(5) t0 silent_trans [OF this query_stream_sizes_silent] show ?thesis
        by (auto simp: Q_def I_def split: option.splits)
    qed
  qed
  have "Q (ok, t', n')"
    by (rule rounds_invariant [where I = I, OF assms [unfolded ContinueHandshake_def]])
       (use outcome in \<open>force simp: I_def\<close>)+
  then show ?thesis by (simp add: Q_def)
qed

lemma receive_json_round_cases:
  assumes "receive_json_round ws ss nl (t, encrypted, plaintext, n) = Some x"
  obtains (oversized) "16384 < length plaintext" "x = Inr (Inl (Failure kResponseTooLarge), t, n)"
    | (unread) encrypted' n1 e where "Receive ws (tls_socket t) encrypted n = Some (False, encrypted', n1)"
      "x = Inr (Inl e, t, n1)"
    | (failed) encrypted1 n1 r n2 e where
      "encrypted = [] \<and> Receive ws (tls_socket t) encrypted n = Some (True, encrypted1, n1) \<or>
         encrypted \<noteq> [] \<and> encrypted1 = encrypted \<and> n1 = n"
      "decrypt_message ss encrypted1 n1 = (r, n2)" "x = Inr (Inl e, t, n2)"
    | (incomplete) encrypted1 n1 buffers encrypted2 n2 received encrypted3 n3 where
      "encrypted = [] \<and> Receive ws (tls_socket t) encrypted n = Some (True, encrypted1, n1) \<or>
         encrypted \<noteq> [] \<and> encrypted1 = encrypted \<and> n1 = n"
      "decrypt_message ss encrypted1 n1 = ((SEC_E_INCOMPLETE_MESSAGE, buffers, encrypted2), n2)"
      "Receive ws (tls_socket t) encrypted2 n2 = Some (received, encrypted3, n3)"
      "x = (if received then Inl (t, encrypted3, plaintext, n3) else Inr (Inl (Failure kIoFailed), t, n3))"
    | (renegotiate) encrypted1 n1 buffers encrypted2 n2 extra encrypted3 continued t' n3 where
      "encrypted = [] \<and> Receive ws (tls_socket t) encrypted n = Some (True, encrypted1, n1) \<or>
         encrypted \<noteq> [] \<and> encrypted1 = encrypted \<and> n1 = n"
      "decrypt_message ss encrypted1 n1 = ((SEC_I_RENEGOTIATE, buffers, encrypted2), n2)"
      "extra \<in> set buffers" "PreserveExtra encrypted2 extra = Some encrypted3"
      "ContinueHandshake ws ss t encrypted3 n2 = Some (continued, t', n3)"
      "x = (if continued then Inl (t'\<lparr>pending_encrypted := []\<rparr>, pending_encrypted t', plaintext, n3)
            else Inr (Inl (Failure kTlsFailed), t', n3))"
    | (complete) encrypted1 n1 buffers encrypted2 n2 joined where
      "encrypted = [] \<and> Receive ws (tls_socket t) encrypted n = Some (True, encrypted1, n1) \<or>
         encrypted \<noteq> [] \<and> encrypted1 = encrypted \<and> n1 = n"
      "decrypt_message ss encrypted1 n1 = ((SEC_E_OK, buffers, encrypted2), n2)"
      "joined = plaintext @ string_of_bytes (message_data buffers)"
      "length joined \<le> 16384" "IsCompleteJson nl joined" "x = Inr (Inr joined, t, n2)"
    | (more) encrypted1 n1 buffers encrypted2 n2 encrypted3 joined where
      "encrypted = [] \<and> Receive ws (tls_socket t) encrypted n = Some (True, encrypted1, n1) \<or>
         encrypted \<noteq> [] \<and> encrypted1 = encrypted \<and> n1 = n"
      "decrypt_message ss encrypted1 n1 = ((SEC_E_OK, buffers, encrypted2), n2)"
      "joined = plaintext @ string_of_bytes (message_data buffers)"
      "preserve_found encrypted2 (extra_buffer buffers) = Some encrypted3" "x = Inl (t, encrypted3, joined, n2)"
      "length joined \<le> 16384"
proof (cases "16384 < length plaintext")
  case True
  with assms show thesis by (intro oversized) (auto simp: receive_json_round_def)
next
  case fits: False
  with assms obtain ready encrypted1 n1 where
    start: "(if encrypted = [] then Receive ws (tls_socket t) encrypted n else Some (True, encrypted, n)) =
      Some (ready, encrypted1, n1)"
    unfolding receive_json_round_def prod.case
    by (cases "if encrypted = [] then Receive ws (tls_socket t) encrypted n else Some (True, encrypted, n)") auto
  show thesis
  proof (cases ready)
    case False
    with start have "Receive ws (tls_socket t) encrypted n = Some (False, encrypted1, n1)"
      by (auto split: if_splits)
    moreover have "x = Inr (Inl (Failure (if plaintext = [] then kIoFailed else kMalformedResponse)), t, n1)"
      using assms start False \<open>\<not> 16384 < length plaintext\<close> unfolding receive_json_round_def prod.case start by simp
    ultimately show thesis by (rule unread)
  next
    case ready: True
    have from_start: "encrypted = [] \<and> Receive ws (tls_socket t) encrypted n = Some (True, encrypted1, n1) \<or>
         encrypted \<noteq> [] \<and> encrypted1 = encrypted \<and> n1 = n"
      using start ready by (auto split: if_splits)
    obtain status buffers encrypted2 n2 where dec: "decrypt_message ss encrypted1 n1 = ((status, buffers, encrypted2), n2)"
      by (metis prod.exhaust)
    note body = assms [unfolded receive_json_round_def prod.case start Option.bind.simps Let_def dec,
        simplified, simplified ready fits, simplified]
    consider (inc) "status = SEC_E_INCOMPLETE_MESSAGE" | (ren) "status = SEC_I_RENEGOTIATE" | (ok) "status = SEC_E_OK"
      | (bad) "status \<notin> {SEC_E_INCOMPLETE_MESSAGE, SEC_I_RENEGOTIATE, SEC_E_OK}" by blast
    then show thesis
    proof cases
      case inc
      from body inc obtain received encrypted3 n3 where
        "Receive ws (tls_socket t) encrypted2 n2 = Some (received, encrypted3, n3)"
        "x = (if received then Inl (t, encrypted3, plaintext, n3) else Inr (Inl (Failure kIoFailed), t, n3))"
        by (cases "Receive ws (tls_socket t) encrypted2 n2") (auto split: if_splits)
      from incomplete [OF from_start dec [unfolded inc] this] show thesis .
    next
      case ren
      show thesis
      proof (cases "List.find (\<lambda>b. BufferType b = SECBUFFER_EXTRA) buffers")
        case None
        from failed [OF from_start dec, of "Failure kTlsFailed"] body ren None show thesis by simp
      next
        case (Some extra)
        then have mem: "extra \<in> set buffers" by (auto simp: find_Some_iff)
        from body ren Some obtain encrypted3 continued t' n3 where
          "PreserveExtra encrypted2 extra = Some encrypted3"
          "ContinueHandshake ws ss t encrypted3 n2 = Some (continued, t', n3)"
          "x = (if continued then Inl (t'\<lparr>pending_encrypted := []\<rparr>, pending_encrypted t', plaintext, n3)
            else Inr (Inl (Failure kTlsFailed), t', n3))"
          by (cases "PreserveExtra encrypted2 extra"; cases "ContinueHandshake ws ss t (the (PreserveExtra encrypted2 extra)) n2")
             (auto split: if_splits)
        from renegotiate [OF from_start dec [unfolded ren] mem this] show thesis .
      qed
    next
      case ok
      define joined where "joined = plaintext @ string_of_bytes (message_data buffers)"
      show thesis
      proof (cases "16384 < length joined")
        case True
        from failed [OF from_start dec, of "Failure kResponseTooLarge"] body ok True show thesis by (simp add: joined_def)
      next
        case short: False
        show thesis
        proof (cases "IsCompleteJson nl joined")
          case True
          from complete [OF from_start dec [unfolded ok] joined_def] body ok short True show thesis by (simp add: joined_def)
        next
          case False
          from body ok short False obtain encrypted3 where
            "preserve_found encrypted2 (extra_buffer buffers) = Some encrypted3" "x = Inl (t, encrypted3, joined, n2)"
            by (cases "preserve_found encrypted2 (extra_buffer buffers)") (auto simp: joined_def)
          from more [OF from_start dec [unfolded ok] joined_def this] short show thesis by simp
        qed
      qed
    next
      case bad
      from failed [OF from_start dec, of "Failure kTlsFailed"] body bad show thesis by auto
    qed
  qed
qed

lemma ReceiveJson_silent:
  assumes "ReceiveJson ws ss nl t n = Some (response, t', n')"
  shows "silent A A n n' \<and> same_handles t t' \<and>
    (\<forall>received. response = Inr received \<longrightarrow> length received \<le> 16384 \<and> IsCompleteJson nl received)"
proof -
  define Q where "Q = (\<lambda>y :: (AuthFailure + string) \<times> tls_connection \<times> 'a net.
    silent A A n (snd (snd y)) \<and> same_handles t (fst (snd y)) \<and>
    (\<forall>received. fst y = Inr received \<longrightarrow> length received \<le> 16384 \<and> IsCompleteJson nl received))"
  define I where "I = (\<lambda>s :: tls_connection \<times> bytes \<times> string \<times> 'a net.
    silent A A n (snd (snd (snd s))) \<and> same_handles t (fst s))"
  have outcome: "case x of Inl s \<Rightarrow> I s | Inr y \<Rightarrow> Q y"
    if I: "I (t0, e, p, n0)" and round: "receive_json_round ws ss nl (t0, e, p, n0) = Some x" for t0 e p n0 x
  proof -
    have A: "silent A A n n0" and t0: "same_handles t t0" using I by (auto simp: I_def)
    note to = silent_trans [OF A] and then_decrypt = silent_trans [OF start_silent decrypt_message_silent]
    from round show ?thesis
    proof (cases rule: receive_json_round_cases)
      case (unread e1 n1 f)
      with t0 to [OF Receive_silent] show ?thesis by (auto simp: Q_def)
    next
      case (failed e1 n1 r n2 f)
      with t0 to [OF then_decrypt] show ?thesis by (auto simp: Q_def)
    next
      case (incomplete e1 n1 buffers e2 n2 received e3 n3)
      with t0 to [OF silent_trans [OF then_decrypt Receive_silent]] show ?thesis by (auto simp: Q_def I_def)
    next
      case (renegotiate e1 n1 buffers e2 n2 extra e3 continued t1 n3)
      from ContinueHandshake_silent [OF renegotiate(5)] have shaken: "silent A A n2 n3" "same_handles t0 t1" by blast+
      have "silent A A n n3" by (rule to [OF silent_trans [OF then_decrypt [OF renegotiate(1,2)] shaken(1)]])
      moreover have "same_handles t t1" using same_handles_trans [OF t0 shaken(2)] .
      ultimately show ?thesis using renegotiate(6) by (auto simp: Q_def I_def)
    next
      case (complete e1 n1 buffers e2 n2 joined)
      with t0 to [OF then_decrypt] show ?thesis by (auto simp: Q_def)
    next
      case (more e1 n1 buffers e2 n2 e3 joined)
      with t0 to [OF then_decrypt] show ?thesis by (auto simp: I_def)
    qed (use A t0 in \<open>auto simp: Q_def\<close>)
  qed
  have "Q (response, t', n')"
    by (rule rounds_invariant [where I = I, OF assms [unfolded ReceiveJson_def]])
       (use outcome in \<open>force simp: I_def\<close>)+
  then show ?thesis by (simp add: Q_def)
qed

lemma silentE:
  assumes "silent A B n n'"
  obtains cs where "transfers A B n n' cs" "plaintexts cs = []"
  using assms by (auto simp: silent_def)

definition handles_of :: "tls_connection \<Rightarrow> resource multiset" where
  "handles_of t = (if context_ready t then {#Context#} else {#}) + (if credentials_ready t then {#Credentials#} else {#})"

lemma handles_of_same: "same_handles t t' \<Longrightarrow> handles_of t' = handles_of t"
  by (simp add: handles_of_def same_handles_def)

lemma ValidateCertificatePin_silent:
  assumes "ValidateCertificatePin ss expected n = (ok, n')"
  obtains cs where "transfers A A n n' cs" "plaintexts cs = []"
    "ok \<Longrightarrow> CertificateHash (Some expected) \<in> set cs"
proof -
  from assms consider "\<not> ok" "calls n' = calls n"
    | hash where "calls n' = calls n @ [CertificateHash hash, FreeCertificate]"
        "ok \<Longrightarrow> hash = Some expected"
    by (auto simp: ValidateCertificatePin_def release_def Let_def split: prod.splits bool.splits if_splits)
  then show thesis
  proof cases
    case 1
    then show thesis by (intro that [of "[]"]) (simp_all add: transfers_def)
  next
    case 2
    then show thesis by (intro that [of "[CertificateHash hash, FreeCertificate]"]) (simp_all add: transfers_def)
  qed
qed

lemma initialize_first_silent:
  "initialize_context ss name None n = (r, n') \<Longrightarrow>
     silent A (A + (if context_valid r then {#Context#} else {#}) + allocated (token r)) n n'"
  by (auto simp: initialize_context_def allocated_def intro!: silent_called split: prod.splits)

text \<open>
  The handshake ends with the handles the connection has, and with a pin it succeeds only when the
  provider reported that hash for the certificate of the server.
\<close>

lemma Handshake_transfers:
  assumes "Handshake ws ss t name pin n = Some (ok, t', n')"
    and fresh: "\<not> credentials_ready t" "\<not> context_ready t"
  obtains cs where "transfers {#} (handles_of t') n n' cs" "plaintexts cs = []" "tls_socket t' = tls_socket t"
    "\<And>expected. ok \<Longrightarrow> pin = Some expected \<Longrightarrow> CertificateHash (Some expected) \<in> set cs"
    "ok \<Longrightarrow> AcquireCredentials (pin \<noteq> None) True \<in> set cs"
proof -
  obtain acquired w where acq: "ss_acquire ss (pin \<noteq> None) (world n) = (acquired, w)"
    by (cases "ss_acquire ss (pin \<noteq> None) (world n)")
  define c where "c = AcquireCredentials (pin \<noteq> None) acquired"
  show thesis
  proof (cases acquired)
    case False
    with assms acq have "ok = False" "t' = t\<lparr>tls_server_name := name\<rparr>" "n' = called c w n"
      by (auto simp: Handshake_def c_def Let_def)
    with fresh show thesis
      by (intro that [of "[c]"]) (auto simp: c_def False handles_of_def intro!: transfers_called)
  next
    case True
    define n1 where "n1 = called c w n"
    obtain r n2 where init: "initialize_context ss name None n1 = (r, n2)" by (metis prod.exhaust)
    define t1 where "t1 = t\<lparr>tls_server_name := name, credentials_ready := True, context_ready := context_valid r\<rparr>"
    have t1: "handles_of t1 = {#Credentials#} + (if context_valid r then {#Context#} else {#})" "tls_socket t1 = tls_socket t"
      by (auto simp: handles_of_def t1_def)
    have n1: "called (AcquireCredentials (pin \<noteq> None) True) w n = n1" by (simp add: n1_def c_def True)
    note body = assms(1) [unfolded Handshake_def Let_def acq [simplified True] prod.case bool.case n1 init,
        simplified, folded t1_def]
    have sent_socket: "tls_socket t1 = tls_socket t" by (simp add: t1_def)
    from body obtain sent n3 where sent:
      "CompleteAndSend ws ss (tls_socket t) (init_status r) (token r) n2 = Some (sent, n3)"
      by (cases "CompleteAndSend ws ss (tls_socket t) (init_status r) (token r) n2") auto
    have "transfers {#} {#Credentials#} n n1 [c]"
      unfolding n1_def by (rule transfers_called) (simp_all add: c_def True)
    moreover have "silent {#Credentials#} (handles_of t1) n1 n3"
      unfolding t1(1) by (rule silent_trans [OF initialize_first_silent [OF init] CompleteAndSend_silent [OF sent]])
    ultimately obtain cs1 where cs1: "transfers {#} (handles_of t1) n n3 (c # cs1)" "plaintexts cs1 = []"
      using transfers_trans by (force elim: silentE)
    have quiet: "plaintexts (c # cs1 @ ds) = plaintexts ds" for ds using cs1(2) by (simp add: c_def)
    from body sent consider (early) "ok = False" "t' = t1" "n' = n3"
      | (late) continued t2 n4 where "ContinueHandshake ws ss t1 [] n3 = Some (continued, t2, n4)" "t' = t2"
        "\<not> continued \<and> \<not> ok \<and> n' = n4 \<or> continued \<and> ok \<and> pin = None \<and> n' = n4 \<or>
         continued \<and> (\<exists>expected. pin = Some expected \<and> ValidateCertificatePin ss expected n4 = (ok, n'))"
      by (auto simp: bind_eq_Some_conv split: if_splits option.splits prod.splits)
    then show thesis
    proof cases
      case early
      with cs1 t1 quiet [of "[]"] show thesis by (intro that [of "c # cs1"]) auto
    next
      case late
      from ContinueHandshake_silent [where A = "handles_of t1", OF late(1)]
      have "silent (handles_of t1) (handles_of t1) n3 n4" and same: "same_handles t1 t2" by simp_all
      then have "silent (handles_of t1) (handles_of t2) n3 n4" unfolding handles_of_same [OF same] by blast
      have socket: "tls_socket t2 = tls_socket t" using same sent_socket by (simp add: same_handles_def)
      from silentE [OF \<open>silent (handles_of t1) (handles_of t2) n3 n4\<close>] obtain cs2 where
        cs2: "transfers (handles_of t1) (handles_of t2) n3 n4 cs2" "plaintexts cs2 = []" .
      note before = transfers_trans [OF cs1(1) cs2(1)]
      show thesis
      proof (cases "continued \<and> pin \<noteq> None")
        case True
        with late(3) obtain expected where pin: "pin = Some expected" "ValidateCertificatePin ss expected n4 = (ok, n')"
          by auto
        from ValidateCertificatePin_silent [OF pin(2), of "handles_of t2"] obtain cs3 where
          cs3: "transfers (handles_of t2) (handles_of t2) n4 n' cs3" "plaintexts cs3 = []"
            "ok \<Longrightarrow> CertificateHash (Some expected) \<in> set cs3" by blast
        show thesis
          by (rule that [of "(c # cs1) @ cs2 @ cs3"])
             (use transfers_trans [OF before cs3(1)] cs1(2) cs2(2) cs3(2,3) late(2) pin(1) socket \<open>acquired\<close>
              in \<open>auto simp: c_def\<close>)
      next
        case False
        with late(3) have "n' = n4" "ok \<Longrightarrow> pin = None" by auto
        then show thesis
          by (intro that [of "(c # cs1) @ cs2"])
             (use before cs1(2) cs2(2) late(2) socket \<open>acquired\<close> in \<open>auto simp: c_def\<close>)
      qed
    qed
  qed
qed

lemma secure_zero_silent: "silent A A n (secure_zero k n)"
  unfolding secure_zero_def by (rule silent_called) simp_all

lemma Send_tls_transfers:
  assumes "Send_tls ws ss t plaintext n = Some (ok, n')"
  obtains cs where "transfers A A n n' cs" "plaintexts cs = [] \<or> plaintexts cs = [plaintext]"
proof (cases "plaintext = [] \<or> length plaintext > cbMaximumMessage (stream_sizes t) \<or> length plaintext > ULONG_MAX")
  case True
  with assms have "n' = n" by (simp add: Send_tls_def)
  then show thesis by (intro that [of "[]"]) (simp_all add: transfers_refl)
next
  case False
  obtain encrypted header data trailer w where
    enc: "ss_encrypt ss (stream_sizes t) plaintext (world n) = ((encrypted, header, data, trailer), w)"
    by (metis prod.exhaust)
  let ?n1 = "called (EncryptMessage plaintext) w n"
  have first: "transfers A A n ?n1 [EncryptMessage plaintext]" by (rule transfers_called) simp_all
  have "silent A A ?n1 n'"
    using assms False enc unfolding Send_tls_def Let_def
    by (auto simp: bind_eq_Some_conv secure_zero_silent split: if_splits
        intro: silent_trans [OF SendAll_silent secure_zero_silent]
               silent_trans [OF SendAll_silent silent_trans [OF SendAll_silent secure_zero_silent]]
               silent_trans [OF SendAll_silent silent_trans [OF SendAll_silent silent_trans [OF SendAll_silent secure_zero_silent]]])
  then obtain cs where "transfers A A ?n1 n' cs" "plaintexts cs = []" by (rule silentE)
  with transfers_trans [OF first] show thesis by (intro that [of "[EncryptMessage plaintext] @ cs"]) auto
qed

lemma clear_string_silent: "silent A A n (clear_string s n)"
  by (simp add: clear_string_def secure_zero_silent)

lemma close_socket_silent: "silent (A + {#Socket s#}) A n (close_socket ws s n)"
  unfolding close_socket_def by (rule silent_called) simp_all

lemma destroy_connection_silent:
  "silent (handles_of t + {#Socket (tls_socket t)#}) {#} n (destroy_connection ws ss t n)"
proof -
  let ?n1 = "if context_ready t then release ss DeleteContext n else n"
  let ?n2 = "if credentials_ready t then release ss FreeCredentials ?n1 else ?n1"
  let ?S = "{#Socket (tls_socket t)#}" and ?C = "if credentials_ready t then {#Credentials#} else {#}"
  have "silent (handles_of t + ?S) (?C + ?S) n ?n1"
    using free_silent [of DeleteContext "?C + ?S" n ss] by (simp add: handles_of_def ac_simps)
  also have "silent (?C + ?S) ?S ?n1 ?n2"
    using free_silent [of FreeCredentials ?S ?n1 ss] by (simp add: ac_simps)
  also have "silent ?S {#} ?n2 (close_socket ws (tls_socket t) ?n2)"
    using close_socket_silent [of "{#}" "tls_socket t" ?n2 ws] by (simp only: add_0)
  finally show ?thesis by (simp add: destroy_connection_def Let_def)
qed

section \<open>The whole exchange\<close>

text \<open>
  At most one plaintext is encrypted, the request, and by then the certificate was checked: by the
  provider (\<open>manual\<close> is off), or by the client against the pin.
\<close>

definition guarded :: "bytes option \<Rightarrow> bytes \<Rightarrow> net_call list \<Rightarrow> bool" where
  "guarded pin request cs \<longleftrightarrow> plaintexts cs = [] \<or>
     (\<exists>pre post. cs = pre @ post \<and> plaintexts pre = [] \<and> plaintexts post = [request] \<and>
        AcquireCredentials (pin \<noteq> None) True \<in> set pre \<and>
        (\<forall>expected. pin = Some expected \<longrightarrow> CertificateHash (Some expected) \<in> set pre))"

lemma guarded_append: "guarded pin request cs \<Longrightarrow> plaintexts ds = [] \<Longrightarrow> guarded pin request (cs @ ds)"
  unfolding guarded_def
proof (elim disjE exE conjE)
  fix pre post assume "plaintexts ds = []" "cs = pre @ post" "plaintexts pre = []" "plaintexts post = [request]"
    "AcquireCredentials (pin \<noteq> None) True \<in> set pre"
    "\<forall>expected. pin = Some expected \<longrightarrow> CertificateHash (Some expected) \<in> set pre"
  then show "plaintexts (cs @ ds) = [] \<or>
     (\<exists>pre post. cs @ ds = pre @ post \<and> plaintexts pre = [] \<and> plaintexts post = [request] \<and>
        AcquireCredentials (pin \<noteq> None) True \<in> set pre \<and>
        (\<forall>expected. pin = Some expected \<longrightarrow> CertificateHash (Some expected) \<in> set pre))"
    by (intro disjI2 exI [of _ pre] exI [of _ "post @ ds"]) simp
qed simp

lemma guarded_prepend: "guarded pin request cs \<Longrightarrow> plaintexts ds = [] \<Longrightarrow> guarded pin request (ds @ cs)"
  unfolding guarded_def
proof (elim disjE exE conjE)
  fix pre post assume "plaintexts ds = []" "cs = pre @ post" "plaintexts pre = []" "plaintexts post = [request]"
    "AcquireCredentials (pin \<noteq> None) True \<in> set pre"
    "\<forall>expected. pin = Some expected \<longrightarrow> CertificateHash (Some expected) \<in> set pre"
  then show "plaintexts (ds @ cs) = [] \<or>
     (\<exists>pre post. ds @ cs = pre @ post \<and> plaintexts pre = [] \<and> plaintexts post = [request] \<and>
        AcquireCredentials (pin \<noteq> None) True \<in> set pre \<and>
        (\<forall>expected. pin = Some expected \<longrightarrow> CertificateHash (Some expected) \<in> set pre))"
    by (intro disjI2 exI [of _ "ds @ pre"] exI [of _ post]) auto
qed simp

lemma guarded_split:
  assumes "plaintexts cs = []" "plaintexts ds = [] \<or> plaintexts ds = [request]"
    "AcquireCredentials (pin \<noteq> None) True \<in> set cs"
    "\<And>expected. pin = Some expected \<Longrightarrow> CertificateHash (Some expected) \<in> set cs"
  shows "guarded pin request (cs @ ds)"
  using assms unfolding guarded_def by (cases "plaintexts ds = []") auto

lemma tls_exchange_transfers:
  assumes "tls_exchange ws ss nl s name pin request n = Some (r, n')"
  obtains cs where "transfers {#Socket s#} {#} n n' cs" "guarded pin (bytes_of_string request) cs"
proof -
  from assms obtain shaken t n1 where shake: "Handshake ws ss (TlsConnection s) name pin n = Some (shaken, t, n1)"
    unfolding tls_exchange_def by (cases "Handshake ws ss (TlsConnection s) name pin n") auto
  obtain cs where cs: "transfers {#} (handles_of t) n n1 cs" "plaintexts cs = []" "tls_socket t = s"
    "\<And>expected. shaken \<Longrightarrow> pin = Some expected \<Longrightarrow> CertificateHash (Some expected) \<in> set cs"
    "shaken \<Longrightarrow> AcquireCredentials (pin \<noteq> None) True \<in> set cs"
    by (rule Handshake_transfers [OF shake]) (auto simp: TlsConnection_def)
  let ?S = "{#Socket s#}"
  have framed: "transfers ?S (handles_of t + ?S) n n1 cs" using transfers_frame [OF cs(1), of ?S] by simp
  have destroyed: "silent (handles_of t + ?S) {#} m (destroy_connection ws ss t' m)" if "same_handles t t'" for m t'
    using destroy_connection_silent [of t' m ws ss] that cs(3) handles_of_same [OF that]
    by (simp add: same_handles_def)
  show thesis
  proof (cases shaken)
    case False
    with assms shake have "n' = destroy_connection ws ss t n1" by (simp add: tls_exchange_def)
    with destroyed [of t n1] obtain ds where "transfers (handles_of t + ?S) {#} n1 n' ds" "plaintexts ds = []"
      by (auto elim: silentE)
    with transfers_trans [OF framed] cs(2) show thesis by (intro that [of "cs @ ds"]) (auto simp: guarded_def)
  next
    case True
    note cs = cs(2-) [simplified True]
    note body = assms [unfolded tls_exchange_def shake, simplified, simplified True, simplified]
    from body obtain sent n2 where snd: "Send_tls ws ss t (bytes_of_string request) n1 = Some (sent, n2)"
      by (cases "Send_tls ws ss t (bytes_of_string request) n1") auto
    obtain ds where ds: "transfers (handles_of t + ?S) (handles_of t + ?S) n1 n2 ds"
      "plaintexts ds = [] \<or> plaintexts ds = [bytes_of_string request]"
      by (rule Send_tls_transfers [OF snd])
    have "silent (handles_of t + ?S) {#} n2 n'"
    proof (cases sent)
      case False
      with body snd have "n' = destroy_connection ws ss t n2" by simp
      with destroyed [of t n2] show ?thesis by simp
    next
      case sent: True
      with body snd obtain response t2 n3 where rcv: "ReceiveJson ws ss nl t n2 = Some (response, t2, n3)"
        by (cases "ReceiveJson ws ss nl t n2") auto
      from ReceiveJson_silent [where A = "handles_of t + ?S", OF rcv]
      have got: "silent (handles_of t + ?S) (handles_of t + ?S) n2 n3" and same: "same_handles t t2" by simp_all
      from body snd sent rcv have "n' = destroy_connection ws ss t2 n3 \<or>
        (\<exists>received. n' = destroy_connection ws ss t2 (clear_string received n3))"
        by (auto split: sum.splits)
      with silent_trans [OF got destroyed [OF same]]
        silent_trans [OF got silent_trans [OF clear_string_silent destroyed [OF same]]]
      show ?thesis by auto
    qed
    then obtain es where es: "transfers (handles_of t + ?S) {#} n2 n' es" "plaintexts es = []" by (rule silentE)
    have "guarded pin (bytes_of_string request) (cs @ ds @ es)"
      using guarded_split [of cs "ds @ es" "bytes_of_string request" pin] cs ds(2) es(2) by simp
    with transfers_trans [OF framed transfers_trans [OF ds(1) es(1)]] show thesis by (rule that)
  qed
qed

section \<open>Opening and closing\<close>

definition opened :: "nat option \<Rightarrow> resource multiset" where
  "opened s = (case s of None \<Rightarrow> {#} | Some s \<Rightarrow> {#Socket s#})"

lemma quiet_on_silent: "quiet_on s n n' \<Longrightarrow> silent A A n n'"
  by (auto simp: quiet_on_def intro: silent_made)

lemma open_socket_silent: "open_socket ws f k p n = (s, n') \<Longrightarrow> silent A (A + opened s) n n'"
  by (auto simp: open_socket_def opened_def intro!: silent_called split: prod.splits option.splits)

lemma OpenSocket_loop_silent:
  "OpenSocket_loop ws addresses timeout n = (connected, n') \<Longrightarrow> silent {#} (opened connected) n n'"
proof (induction addresses arbitrary: n)
  case Nil
  then show ?case by (simp add: opened_def)
next
  case (Cons a as)
  obtain candidate n1 where open1: "open_socket ws (ai_family a) (ai_socktype a) (ai_protocol a) n = (candidate, n1)"
    by (cases "open_socket ws (ai_family a) (ai_socktype a) (ai_protocol a) n")
  have opened1: "silent {#} (opened candidate) n n1" using open_socket_silent [OF open1, of "{#}"] by simp
  show ?case
  proof (cases candidate)
    case None
    with Cons open1 opened1 show ?thesis by (auto simp: opened_def intro: silent_trans)
  next
    case (Some s)
    have next_address: "silent {#} (opened connected) n n'"
      if "silent {#Socket s#} {#Socket s#} n1 m" "OpenSocket_loop ws as timeout (close_socket ws s m) = (connected, n')" for m
    proof -
      from opened1 Some have "silent {#} {#Socket s#} n n1" by (simp add: opened_def)
      also note that(1)
      also have "silent {#Socket s#} {#} m (close_socket ws s m)" using close_socket_silent [of "{#}" s m ws] by simp
      also note Cons.IH [OF that(2)]
      finally show ?thesis .
    qed
    obtain ok2 n2 where con: "ConnectSocket ws s (ai_addr a) timeout n1 = (ok2, n2)"
      by (cases "ConnectSocket ws s (ai_addr a) timeout n1")
    obtain ok3 n3 where rcv: "setsockopt ws s SO_RCVTIMEO timeout n2 = (ok3, n3)"
      by (cases "setsockopt ws s SO_RCVTIMEO timeout n2")
    obtain ok4 n4 where snd: "setsockopt ws s SO_SNDTIMEO timeout n3 = (ok4, n4)"
      by (cases "setsockopt ws s SO_SNDTIMEO timeout n3")
    have to2: "silent {#Socket s#} {#Socket s#} n1 n2" by (rule quiet_on_silent [OF quiet_ConnectSocket [OF con]])
    have to3: "silent {#Socket s#} {#Socket s#} n1 n3"
      by (rule silent_trans [OF to2 quiet_on_silent [OF quiet_setsockopt [OF rcv]]])
    have to4: "silent {#Socket s#} {#Socket s#} n1 n4"
      by (rule silent_trans [OF to3 quiet_on_silent [OF quiet_setsockopt [OF snd]]])
    from opened1 Some have first: "silent {#} {#Socket s#} n n1" by (simp add: opened_def)
    from Cons.prems open1 Some con rcv snd consider "connected = Some s" "n' = n4"
      | m where "m = n2 \<or> m = n3 \<or> m = n4" "OpenSocket_loop ws as timeout (close_socket ws s m) = (connected, n')"
      by (cases ok2; cases ok3; cases ok4) auto
    then show ?thesis
    proof cases
      case 1
      with silent_trans [OF first to4] show ?thesis by (simp add: opened_def)
    next
      case 2
      with next_address [of m] to2 to3 to4 show ?thesis by blast
    qed
  qed
qed

lemma OpenSocket_auth_silent:
  assumes "OpenSocket_auth ws host port_number timeout n = (r, n')"
  shows "silent {#} (case r of Inl e \<Rightarrow> {#} | Inr s \<Rightarrow> {#Socket s#}) n n'"
proof -
  let ?host = "takeWhile (\<lambda>b. b \<noteq> 0) (bytes_of_string host)" and ?service = "Some (decimal (unat port_number))"
  obtain found w where info: "sys_getaddrinfo ws ?host ?service AF_UNSPEC (world n) = (found, w)"
    by (cases "sys_getaddrinfo ws ?host ?service AF_UNSPEC (world n)")
  show ?thesis
  proof (cases found)
    case None
    with assms info show ?thesis by (auto simp: OpenSocket_auth_def Let_def intro!: silent_called)
  next
    case (Some addresses)
    let ?n1 = "called (GetAddrInfo ?host ?service True) w n"
    obtain connected n2 where loop: "OpenSocket_loop ws addresses timeout ?n1 = (connected, n2)"
      by (cases "OpenSocket_loop ws addresses timeout ?n1")
    have "silent {#} {#Addresses#} n ?n1" by (rule silent_called) simp_all
    also have "silent {#Addresses#} (opened connected + {#Addresses#}) ?n1 n2"
      using silent_frame [OF OpenSocket_loop_silent [OF loop], of "{#Addresses#}"] by simp
    also have "silent (opened connected + {#Addresses#}) (opened connected) n2
        (called FreeAddrInfo (sys_freeaddrinfo ws (world n2)) n2)"
      by (rule silent_called) simp_all
    finally show ?thesis
      using assms info Some loop
      by (auto simp: OpenSocket_auth_def Let_def opened_def split: option.splits)
  qed
qed

section \<open>Authenticate\<close>

lemma login_session_transfers:
  assumes "login_session ws ss nl host options request n = Some (r, n')"
  obtains cs where "transfers {#} {#} n n' cs"
    "guarded (certificate_sha256 options) (bytes_of_string request) cs"
proof -
  let ?open = "OpenSocket_auth ws host (port options) (auth_timeout_ms options) n"
  obtain o1 n1 where opn: "?open = (o1, n1)" by (cases ?open)
  show thesis
  proof (cases o1)
    case (Inl e)
    with assms opn have "n' = n1" by (simp add: login_session_def)
    with OpenSocket_auth_silent [OF opn] Inl show thesis by (auto elim!: silentE intro: that simp: guarded_def)
  next
    case (Inr s)
    then obtain cs where cs: "transfers {#} {#Socket s#} n n1 cs" "plaintexts cs = []"
      using OpenSocket_auth_silent [OF opn] by (auto elim: silentE)
    show thesis
    proof (cases "ToWide ss host")
      case wide: (Inl e)
      with assms opn Inr have "n' = close_socket ws s n1" by (simp add: login_session_def)
      with close_socket_silent [of "{#}" s n1 ws] obtain ds where
        "transfers {#Socket s#} {#} n1 n' ds" "plaintexts ds = []" by (auto elim: silentE)
      with transfers_trans [OF cs(1)] cs(2) show thesis by (intro that [of "cs @ ds"]) (auto simp: guarded_def)
    next
      case wide: (Inr name)
      with assms opn Inr have "tls_exchange ws ss nl s name (certificate_sha256 options) request n1 = Some (r, n')"
        by (simp add: login_session_def)
      then obtain ds where "transfers {#Socket s#} {#} n1 n' ds"
        "guarded (certificate_sha256 options) (bytes_of_string request) ds" by (rule tls_exchange_transfers)
      with transfers_trans [OF cs(1)] guarded_prepend [OF _ cs(2)] show thesis by (intro that [of "cs @ ds"]) auto
    qed
  qed
qed

lemma winsock_scope:
  assumes "transfers {#} {#} (called (WSAStartup True) w n) n1 cs" "guarded pin request cs"
  shows "\<exists>cs. transfers {#} {#} n (called WSACleanup w' n1) cs \<and> guarded pin request cs"
proof (intro exI conjI)
  have "transfers {#} {#Winsock#} n (called (WSAStartup True) w n) [WSAStartup True]" by (rule transfers_called) simp_all
  also have "transfers {#Winsock#} {#Winsock#} (called (WSAStartup True) w n) n1 cs" by (rule transfers_neutral [OF assms(1)])
  also have "transfers {#Winsock#} {#} n1 (called WSACleanup w' n1) [WSACleanup]" by (rule transfers_called) simp_all
  finally show "transfers {#} {#} n (called WSACleanup w' n1) (([WSAStartup True] @ cs) @ [WSACleanup])" .
qed (intro guarded_append guarded_prepend assms(2); simp)+

lemma request_scope:
  assumes "transfers {#} {#} n n1 cs" "guarded pin request cs"
  obtains cs where "transfers {#} {#} n (clear_string s n1) cs" "guarded pin request cs"
    "s \<noteq> [] \<Longrightarrow> last cs = SecureZeroMemory (length s)"
proof (cases "s = []")
  case True
  with assms that [of cs] show thesis by (simp add: clear_string_def)
next
  case False
  then have "transfers {#} {#} n1 (clear_string s n1) [SecureZeroMemory (length s)]"
    by (simp add: clear_string_def secure_zero_def transfers_def)
  from transfers_trans [OF assms(1) this] guarded_append [OF assms(2)] show thesis
    by (intro that [of "cs @ [SecureZeroMemory (length s)]"]) auto
qed

lemma Authenticate_transfers:
  assumes "Authenticate ws ss nl host credentials options n = Some (r, n')"
  obtains (rejected) e where "n' = n" "r = Inl e"
    | (attempted) request cs where "EncodeLoginAttempt nl credentials = Some (Inr request)"
      "transfers {#} {#} n n' cs" "guarded (certificate_sha256 options) (bytes_of_string request) cs"
      "request \<noteq> [] \<Longrightarrow> last cs = SecureZeroMemory (length request)"
proof (cases "host = [] \<or> port options = 0 \<or> auth_timeout_ms options = 0")
  case True
  with assms rejected show thesis by (auto simp: Authenticate_def)
next
  case proceed: False
  with assms obtain encoded where enc: "EncodeLoginAttempt nl credentials = Some encoded"
    by (cases "EncodeLoginAttempt nl credentials") (auto simp: Authenticate_def)
  show thesis
  proof (cases encoded)
    case (Inl e)
    with assms proceed enc rejected show thesis by (auto simp: Authenticate_def)
  next
    case request: (Inr request)
    let ?g = "guarded (certificate_sha256 options) (bytes_of_string request)"
    obtain started w where start: "sys_startup ws (world n) = (started, w)" by (cases "sys_startup ws (world n)")
    let ?n1 = "called (WSAStartup started) w n"
    have "\<exists>n2 cs. transfers {#} {#} n n2 cs \<and> ?g cs \<and> n' = clear_string request n2"
    proof (cases started)
      case False
      with assms proceed enc request start have "n' = clear_string request ?n1" by (auto simp: Authenticate_def)
      with False transfers_called [of "WSAStartup False" "{#}" "{#}" n w] show ?thesis
        by (intro exI [of _ ?n1] exI [of _ "[WSAStartup False]"]) (simp add: guarded_def)
    next
      case True
      let ?session = "login_session ws ss nl host options request ?n1"
      from assms proceed enc request start True obtain r2 n2 where session: "?session = Some (r2, n2)"
        "n' = clear_string request (called WSACleanup (sys_cleanup ws (world n2)) n2)"
        by (cases ?session) (auto simp: Authenticate_def)
      obtain cs where "transfers {#} {#} ?n1 n2 cs" "?g cs" by (rule login_session_transfers [OF session(1)])
      with True have "transfers {#} {#} (called (WSAStartup True) w n) n2 cs" "?g cs" by simp_all
      from winsock_scope [OF this] session(2) show ?thesis by blast
    qed
    then obtain n2 cs where cs: "transfers {#} {#} n n2 cs" "?g cs" "n' = clear_string request n2" by blast
    show thesis
    proof (rule request_scope [OF cs(1,2), where s = request])
      fix ds assume "transfers {#} {#} n (clear_string request n2) ds" "?g ds"
        "request \<noteq> [] \<Longrightarrow> last ds = SecureZeroMemory (length request)"
      with attempted [of request ds] enc request cs(3) show thesis by simp
    qed
  qed
qed

end
