(* ===== verification/Tls_Service.thy ===== *)
theory Tls_Service
  imports Tls_Resources
begin

text \<open>
  The contract of Schannel and of a peer that sends finitely many bytes, and what the authentication
  client guarantees under it: every loop ends, and what is buffered stays within its limits.  A peer
  that never stops sending empty records is the exception, stated at the end.
\<close>

abbreviation (input) encrypted_limit :: nat where "encrypted_limit \<equiv> 1048576"

text \<open>A computation returns; the rules follow its binds.\<close>

definition returns :: "'a option \<Rightarrow> bool" where
  "returns m \<longleftrightarrow> m \<noteq> None"

lemma returns_Some [simp]: "returns (Some x)"
  by (simp add: returns_def)

lemma returns_bind [intro!]: "returns m \<Longrightarrow> (\<And>x. m = Some x \<Longrightarrow> returns (f x)) \<Longrightarrow> returns (Option.bind m f)"
  by (cases m) (simp_all add: returns_def)

section \<open>The contract\<close>

text \<open>
  \<open>budget\<close> bounds what the peer will still send; no call but a receive touches it.  What Schannel hands
  back as \<^verbatim>\<open>SECBUFFER_EXTRA\<close> is the unprocessed end of its input, and a call that succeeded processed
  something.
\<close>

locale tls_service = winsock_service ws for ws :: "'w winsock" +
  fixes ss :: "'w schannel" and budget :: "'w \<Rightarrow> nat"
  assumes recv_budget: "sys_recv ws s cap w = (Some bs, w') \<Longrightarrow> bs \<noteq> [] \<Longrightarrow> budget w' < budget w"
    and send_budget: "budget (snd (sys_send ws s bs w)) \<le> budget w"
    and initialize_budget: "budget (snd (ss_initialize ss name token_in w)) \<le> budget w"
    and complete_budget: "budget (snd (ss_complete ss w)) \<le> budget w"
    and free_budget: "budget (ss_free ss c w) \<le> budget w"
    and sizes_budget: "budget (snd (ss_stream_sizes ss w)) \<le> budget w"
    and decrypt_budget: "budget (snd (ss_decrypt ss encrypted w)) \<le> budget w"
    and initialize_extra: "ss_initialize ss name (Some input) w = (r, w') \<Longrightarrow>
          BufferType (unconsumed r) = SECBUFFER_EXTRA \<Longrightarrow> length (contents (unconsumed r)) \<le> length input"
    and initialize_progress: "ss_initialize ss name (Some input) w = (r, w') \<Longrightarrow> input \<noteq> [] \<Longrightarrow>
          NormalizeCompleteStatus (init_status r) \<in> {SEC_E_OK, SEC_I_CONTINUE_NEEDED} \<Longrightarrow>
          BufferType (unconsumed r) = SECBUFFER_EXTRA \<Longrightarrow> length (contents (unconsumed r)) < length input"
    and decrypt_length: "ss_decrypt ss encrypted w = ((status, buffers, decrypted), w') \<Longrightarrow>
          length decrypted = length encrypted"
    and decrypt_extra: "ss_decrypt ss encrypted w = ((status, buffers, decrypted), w') \<Longrightarrow> b \<in> set buffers \<Longrightarrow>
          BufferType b = SECBUFFER_EXTRA \<Longrightarrow> length (contents b) \<le> length encrypted"
    and decrypt_progress: "ss_decrypt ss encrypted w = ((SEC_E_OK, buffers, decrypted), w') \<Longrightarrow> encrypted \<noteq> [] \<Longrightarrow>
          b \<in> set buffers \<Longrightarrow> BufferType b = SECBUFFER_EXTRA \<Longrightarrow> length (contents b) < length encrypted"
begin

abbreviation spent :: "'w net \<Rightarrow> 'w net \<Rightarrow> bool" where
  "spent n n' \<equiv> budget (world n') \<le> budget (world n)"

lemma send_spent: "send ws s bs n = (k, n') \<Longrightarrow> spent n n'"
  using send_budget [of s bs "world n"] by (auto simp: send_def split: prod.splits)

lemma SendAll_spent: "SendAll ws s bs n = Some (ok, n') \<Longrightarrow> spent n n'"
proof (induction bs arbitrary: n rule: length_induct)
  case (1 bs)
  obtain r n1 where snd: "send ws s (take (min (length bs) INT_MAX) bs) n = (r, n1)"
    by (cases "send ws s (take (min (length bs) INT_MAX) bs) n")
  from 1(2) snd consider "n' = n" | "n' = n1"
    | k where "k \<noteq> 0" "bs \<noteq> []" "SendAll ws s (drop k bs) n1 = Some (ok, n')"
    by (subst (asm) SendAll.simps) (auto simp: Let_def split: if_splits option.splits)
  then show ?case
  proof cases
    case (3 k)
    then have "spent n1 n'" using 1(1) [rule_format, of "drop k bs" n1] by simp
    with send_spent [OF snd] show ?thesis by simp
  qed (use send_spent [OF snd] in auto)
qed

lemma Receive_spent:
  assumes "Receive ws s encrypted n = Some (True, encrypted', n')"
  shows "budget (world n') < budget (world n)" "encrypted' \<noteq> []" "length encrypted' \<le> encrypted_limit"
  using assms recv_budget [of s kReceiveChunkSize "world n"]
  by (auto simp: Receive_def recv_def split: if_splits prod.splits option.splits)

lemma Receive_returns: "Receive ws s encrypted n \<noteq> None"
  using recv_bound [of s kReceiveChunkSize "world n"]
  by (fastforce simp: Receive_def recv_def not_less split: prod.splits option.splits)

lemma free_token_spent: "spent n (free_token ss tok n)"
  by (simp add: free_token_def release_def free_budget)

lemma CompleteAndSend_spent:
  assumes "CompleteAndSend ws ss s status tok n = Some (ok, n')"
  shows "spent n n'"
  using CompleteAndSend_cases [OF assms]
proof cases
  case (1 n1)
  have "spent n n1" using 1(1) complete_budget [of "world n"] by auto
  moreover have "spent n1 n'" using 1(2) SendAll_spent free_token_spent by (meson le_trans)
  ultimately show ?thesis by (rule le_trans [rotated])
qed

lemma CompleteAndSend_returns: "CompleteAndSend ws ss s status tok n \<noteq> None"
proof -
  have "SendAll ws s bs n1 \<bind> (\<lambda>(sent, n). Some (sent, free_token ss tok n)) \<noteq> None" for bs n1
    using SendAll_returns [of s bs n1] by auto
  then show ?thesis
    by (auto simp: CompleteAndSend_def simp del: not_None_eq split: option.splits prod.splits)
qed

lemma initialize_spent: "initialize_context ss name input n = (r, n') \<Longrightarrow> spent n n'"
  using initialize_budget [of name input "world n"] by (auto simp: initialize_context_def split: prod.splits)

lemma decrypt_spent: "decrypt_message ss encrypted n = (r, n') \<Longrightarrow> spent n n'"
  using decrypt_budget [of encrypted "world n"] by (auto simp: decrypt_message_def split: prod.splits)

lemma sizes_spent: "query_stream_sizes ss n = (r, n') \<Longrightarrow> spent n n'"
  using sizes_budget [of "world n"] by (auto simp: query_stream_sizes_def split: prod.splits)

text \<open>
  Progress of a loop on its net state and its encrypted bytes: the peer has less to send, or as much
  and there are fewer bytes to process.
\<close>

abbreviation work :: "'w net \<Rightarrow> bytes \<Rightarrow> nat \<times> nat" where
  "work n encrypted \<equiv> (budget (world n), length encrypted)"

abbreviation less_work :: "((nat \<times> nat) \<times> nat \<times> nat) set" where
  "less_work \<equiv> less_than <*lex*> less_than"

lemma less_work_trans: "(x, y) \<in> less_work \<Longrightarrow> (y, z) \<in> less_work \<Longrightarrow> (x, z) \<in> less_work"
  by (cases x; cases y; cases z) auto

text \<open>The start of a round: the bytes to process are there, and fewer remain to come if they had to be received.\<close>

lemma start_spent:
  assumes "encrypted = [] \<and> Receive ws s encrypted n = Some (True, encrypted1, n1) \<or>
      encrypted \<noteq> [] \<and> encrypted1 = encrypted \<and> n1 = n"
    and "length encrypted \<le> encrypted_limit"
  shows "encrypted1 \<noteq> []" "length encrypted1 \<le> encrypted_limit"
    and "spent n1 n2 \<Longrightarrow> length encrypted2 < length encrypted1 \<Longrightarrow>
          (work n2 encrypted2, work n encrypted) \<in> less_work"
    and "budget (world n2) < budget (world n1) \<Longrightarrow> (work n2 encrypted2, work n encrypted) \<in> less_work"
    and "(work n2 encrypted2, work n1 encrypted1) \<in> less_work \<Longrightarrow> (work n2 encrypted2, work n encrypted) \<in> less_work"
  using assms Receive_spent by fastforce+

lemma PreserveExtra_returns:
  "(BufferType b = SECBUFFER_EXTRA \<Longrightarrow> length (contents b) \<le> length encrypted) \<Longrightarrow> PreserveExtra encrypted b \<noteq> None"
  by (auto simp: PreserveExtra_def)

lemma PreserveExtra_length:
  "PreserveExtra encrypted b = Some encrypted' \<Longrightarrow> length encrypted' \<le> length encrypted"
  by (auto simp: PreserveExtra_def split: if_splits)

lemma PreserveExtra_shorter:
  "PreserveExtra encrypted b = Some encrypted' \<Longrightarrow> encrypted \<noteq> [] \<Longrightarrow>
    (BufferType b = SECBUFFER_EXTRA \<Longrightarrow> length (contents b) < length encrypted) \<Longrightarrow> length encrypted' < length encrypted"
  by (auto simp: PreserveExtra_def split: if_splits)

lemma initialize_context_extra:
  assumes "initialize_context ss name (Some input) n = (r, n')" "BufferType (unconsumed r) = SECBUFFER_EXTRA"
  shows "length (contents (unconsumed r)) \<le> length input"
    and "input \<noteq> [] \<Longrightarrow> NormalizeCompleteStatus (init_status r) \<in> {SEC_E_OK, SEC_I_CONTINUE_NEEDED} \<Longrightarrow>
      length (contents (unconsumed r)) < length input"
  using assms initialize_extra [of name input "world n" r] initialize_progress [of name input "world n" r]
  by (auto simp: initialize_context_def split: prod.splits)

lemma handshake_round_returns: "handshake_round ws ss (t, encrypted, n) \<noteq> None"
proof -
  obtain ready encrypted1 n1 where start:
    "(if encrypted = [] then Receive ws (tls_socket t) encrypted n else Some (True, encrypted, n)) =
      Some (ready, encrypted1, n1)"
    using Receive_returns [of "tls_socket t" encrypted n] by (cases "encrypted = []") auto
  obtain r n2 where init: "initialize_context ss (tls_server_name t) (Some encrypted1) n1 = (r, n2)"
    by (cases "initialize_context ss (tls_server_name t) (Some encrypted1) n1")
  obtain sent n3 where sent:
    "CompleteAndSend ws ss (tls_socket t) (init_status r) (token r) n2 = Some (sent, n3)"
    using CompleteAndSend_returns [of "tls_socket t" "init_status r" "token r" n2] by auto
  obtain received encrypted2 n4 where received: "Receive ws (tls_socket t) encrypted1 n3 = Some (received, encrypted2, n4)"
    using Receive_returns [of "tls_socket t" encrypted1 n3] by auto
  obtain encrypted3 where preserved: "PreserveExtra encrypted1 (unconsumed r) = Some encrypted3"
    using PreserveExtra_returns [OF initialize_context_extra(1) [OF init]] by auto
  show ?thesis
    by (simp add: handshake_round_def start init sent received preserved Let_def
        split: prod.split option.split)
qed

text \<open>One round keeps the buffered bytes within the limit and works some off.\<close>

lemma handshake_round_progress:
  assumes round: "handshake_round ws ss (t, encrypted, n) = Some x"
    and limit: "length encrypted \<le> encrypted_limit"
  shows "case x of
      Inl (t', encrypted', n') \<Rightarrow> t' = t \<and> length encrypted' \<le> encrypted_limit \<and>
        (work n' encrypted', work n encrypted) \<in> less_work
    | Inr (ok, t', n') \<Rightarrow> ok \<longrightarrow> length (pending_encrypted t') \<le> encrypted_limit \<and>
        (work n' (pending_encrypted t'), work n encrypted) \<in> less_work"
  using round
proof (cases rule: handshake_round_cases)
  case (incomplete encrypted1 n1 r n2 n3 received encrypted2 n4)
  show ?thesis
  proof (cases received)
    case True
    have "spent n1 n3"
      using initialize_spent [OF incomplete(2)] CompleteAndSend_spent [OF incomplete(3)] by simp
    with Receive_spent [OF incomplete(4) [simplified True]]
    have "budget (world n4) < budget (world n1)" "length encrypted2 \<le> encrypted_limit" by simp_all
    with start_spent(4) [OF incomplete(1) limit] incomplete(5) True show ?thesis by simp
  qed (use incomplete in simp)
next
  case (consumed encrypted1 n1 r n2 n3 encrypted2)
  have spent3: "spent n1 n3"
    using initialize_spent [OF consumed(2)] CompleteAndSend_spent [OF consumed(3)] by simp
  note start = start_spent [OF consumed(1) limit]
  have short: "length encrypted2 < length encrypted1"
    if "NormalizeCompleteStatus (init_status r) \<in> {SEC_E_OK, SEC_I_CONTINUE_NEEDED}"
    using PreserveExtra_shorter [OF consumed(4) start(1)] initialize_context_extra(2) [OF consumed(2) _ start(1) that] .
  from consumed(5) show ?thesis
  proof (elim disjE exE conjE)
    fix sizes n4 b
    assume ok: "NormalizeCompleteStatus (init_status r) = SEC_E_OK" "query_stream_sizes ss n3 = (sizes, n4)"
      "x = Inr (b, (case sizes of None \<Rightarrow> t\<lparr>pending_encrypted := encrypted2\<rparr>
            | Some z \<Rightarrow> t\<lparr>pending_encrypted := encrypted2, stream_sizes := z\<rparr>), n4)"
    have "spent n1 n4" using spent3 sizes_spent [OF ok(2)] by simp
    with start(2) start(3) [of n4 encrypted2] short ok show ?thesis by (auto split: option.splits)
  next
    assume "NormalizeCompleteStatus (init_status r) = SEC_I_CONTINUE_NEEDED" "x = Inl (t, encrypted2, n3)"
    with start(2) start(3) [of n3 encrypted2] spent3 short show ?thesis by auto
  qed simp
qed simp_all

lemma ContinueHandshake_returns:
  assumes "length encrypted \<le> encrypted_limit"
  shows "ContinueHandshake ws ss t encrypted n \<noteq> None"
  unfolding ContinueHandshake_def
proof (rule rounds_returns [where I = "\<lambda>(t, encrypted, n). length encrypted \<le> encrypted_limit"
      and m = "\<lambda>(t, encrypted, n). work n encrypted"])
  fix s s' assume "case s of (t, encrypted, n) \<Rightarrow> length encrypted \<le> encrypted_limit"
    "handshake_round ws ss s = Some (Inl s')"
  then show "(case s' of (t, encrypted, n) \<Rightarrow> length encrypted \<le> encrypted_limit) \<and>
      (case s' of (t, encrypted, n) \<Rightarrow> work n encrypted, case s of (t, encrypted, n) \<Rightarrow> work n encrypted) \<in> less_work"
    using handshake_round_progress by (cases s; cases s') fastforce
qed (use assms handshake_round_returns in auto)

lemma ContinueHandshake_progress:
  assumes "ContinueHandshake ws ss t encrypted n = Some (True, t', n')" "length encrypted \<le> encrypted_limit"
  shows "length (pending_encrypted t') \<le> encrypted_limit"
    and "(work n' (pending_encrypted t'), work n encrypted) \<in> less_work"
proof -
  define I where "I = (\<lambda>s :: tls_connection \<times> bytes \<times> 'w net.
    length (fst (snd s)) \<le> encrypted_limit \<and>
    ((work (snd (snd s)) (fst (snd s)), work n encrypted) \<in> less_work \<or> work (snd (snd s)) (fst (snd s)) = work n encrypted))"
  define Q where "Q = (\<lambda>y :: bool \<times> tls_connection \<times> 'w net. fst y \<longrightarrow>
    length (pending_encrypted (fst (snd y))) \<le> encrypted_limit \<and>
    (work (snd (snd y)) (pending_encrypted (fst (snd y))), work n encrypted) \<in> less_work)"
  have outcome: "case x of Inl s' \<Rightarrow> I s' | Inr y \<Rightarrow> Q y"
    if I: "I s" and round: "handshake_round ws ss s = Some x" for s x
  proof -
    obtain t0 e n0 where s: "s = (t0, e, n0)" by (cases s)
    with I have limit: "length e \<le> encrypted_limit" and
      before: "(work n0 e, work n encrypted) \<in> less_work \<or> work n0 e = work n encrypted" by (simp_all add: I_def)
    then have to: "(w, work n0 e) \<in> less_work \<Longrightarrow> (w, work n encrypted) \<in> less_work" for w
      using less_work_trans by metis
    note progress = handshake_round_progress [OF round [unfolded s] limit]
    show ?thesis
    proof (cases x)
      case (Inl s')
      with progress to show ?thesis by (cases s') (simp only: I_def sum.case prod.case fst_conv snd_conv; blast)
    next
      case (Inr y)
      with progress to show ?thesis by (cases y) (simp only: Q_def sum.case prod.case fst_conv snd_conv; blast)
    qed
  qed
  have "Q (True, t', n')"
  proof (rule rounds_invariant [where I = I, OF assms(1) [unfolded ContinueHandshake_def]])
    show "I (t, encrypted, n)" using assms(2) by (simp add: I_def)
    show "I s'" if "I s" "handshake_round ws ss s = Some (Inl s')" for s s' using outcome [OF that] by simp
    show "Q y" if "I s" "handshake_round ws ss s = Some (Inr y)" for s y using outcome [OF that] by simp
  qed
  then show "length (pending_encrypted t') \<le> encrypted_limit"
    "(work n' (pending_encrypted t'), work n encrypted) \<in> less_work" by (simp_all add: Q_def)
qed

lemma decrypt_message_facts:
  assumes "decrypt_message ss encrypted n = ((status, buffers, decrypted), n')"
  shows "length decrypted = length encrypted"
    and "b \<in> set buffers \<Longrightarrow> BufferType b = SECBUFFER_EXTRA \<Longrightarrow> length (contents b) \<le> length encrypted"
    and "status = SEC_E_OK \<Longrightarrow> encrypted \<noteq> [] \<Longrightarrow> b \<in> set buffers \<Longrightarrow> BufferType b = SECBUFFER_EXTRA \<Longrightarrow>
      length (contents b) < length encrypted"
  using assms decrypt_length [of encrypted "world n"] decrypt_extra [of encrypted "world n"]
    decrypt_progress [of encrypted "world n"]
  by (auto simp: decrypt_message_def split: prod.splits)

lemma extra_buffer_in: "extra_buffer buffers = Some b \<Longrightarrow> b \<in> set buffers \<and> BufferType b = SECBUFFER_EXTRA"
  by (auto simp: extra_buffer_def find_Some_iff) (metis nth_mem set_rev length_rev)

lemma preserve_found_returns:
  "decrypt_message ss encrypted n = ((status, buffers, decrypted), n') \<Longrightarrow>
     preserve_found decrypted (extra_buffer buffers) \<noteq> None"
  using decrypt_message_facts(1,2) extra_buffer_in [of buffers] PreserveExtra_returns [of _ decrypted]
  by (cases "extra_buffer buffers") (simp_all add: preserve_found_def)

lemma preserve_found_shorter:
  assumes "decrypt_message ss encrypted n = ((SEC_E_OK, buffers, decrypted), n')" "encrypted \<noteq> []"
    "preserve_found decrypted (extra_buffer buffers) = Some encrypted'"
  shows "length encrypted' < length encrypted"
proof (cases "extra_buffer buffers")
  case None
  with assms(2,3) show ?thesis by (simp add: preserve_found_def)
next
  case (Some e)
  with extra_buffer_in decrypt_message_facts(3) [OF assms(1) _ assms(2)] have "length (contents e) < length encrypted"
    by blast
  then show ?thesis
    using Some assms(2,3) decrypt_message_facts(1) [OF assms(1)] PreserveExtra_shorter [of decrypted e encrypted']
    by (auto simp: preserve_found_def simp flip: length_0_conv)
qed

lemma receive_json_round_returns:
  assumes limit: "length encrypted \<le> encrypted_limit"
  shows "receive_json_round ws ss nl (t, encrypted, plaintext, n) \<noteq> None"
proof -
  obtain ready encrypted1 n1 where start:
    "(if encrypted = [] then Receive ws (tls_socket t) encrypted n else Some (True, encrypted, n)) =
      Some (ready, encrypted1, n1)"
    using Receive_returns [of "tls_socket t" encrypted n] by (cases "encrypted = []") auto
  obtain status buffers encrypted2 n2 where dec: "decrypt_message ss encrypted1 n1 = ((status, buffers, encrypted2), n2)"
    by (metis prod.exhaust)
  obtain received encrypted3 n3 where received: "Receive ws (tls_socket t) encrypted2 n2 = Some (received, encrypted3, n3)"
    using Receive_returns [of "tls_socket t" encrypted2 n2] by auto
  obtain encrypted4 where found: "preserve_found encrypted2 (extra_buffer buffers) = Some encrypted4"
    using preserve_found_returns [OF dec] by auto
  have limit1: "length encrypted1 \<le> encrypted_limit" if ready
    using start limit that Receive_spent(3) by (auto split: if_splits)
  have renegotiate: "\<exists>encrypted3 y. PreserveExtra encrypted2 b = Some encrypted3 \<and>
      ContinueHandshake ws ss t encrypted3 n2 = Some y"
    if "List.find (\<lambda>b. BufferType b = SECBUFFER_EXTRA) buffers = Some b" ready for b
  proof -
    from that(1) have b: "b \<in> set buffers" "BufferType b = SECBUFFER_EXTRA" by (auto simp: find_Some_iff)
    with PreserveExtra_returns [of b encrypted2] decrypt_message_facts [OF dec] obtain e3 where
      e3: "PreserveExtra encrypted2 b = Some e3" by auto
    with PreserveExtra_length [OF e3] decrypt_message_facts(1) [OF dec] limit1 that(2)
    have "length e3 \<le> encrypted_limit" by simp
    with ContinueHandshake_returns [of e3 t n2] e3 show ?thesis by auto
  qed
  show ?thesis
    using renegotiate
    by (simp add: receive_json_round_def start dec received found Let_def
        split: option.split) fastforce
qed

text \<open>One round of \<^verbatim>\<open>ReceiveJson\<close> stays within both limits and works some bytes off.\<close>

lemma receive_json_round_progress:
  assumes round: "receive_json_round ws ss nl (t, encrypted, plaintext, n) = Some x"
    and limit: "length encrypted \<le> encrypted_limit"
  shows "case x of
      Inl (t', encrypted', plaintext', n') \<Rightarrow>
        length encrypted' \<le> encrypted_limit \<and> (work n' encrypted', work n encrypted) \<in> less_work
    | Inr y \<Rightarrow> True"
  using round
proof (cases rule: receive_json_round_cases)
  case (incomplete encrypted1 n1 buffers encrypted2 n2 received encrypted3 n3)
  show ?thesis
  proof (cases received)
    case True
    with Receive_spent [OF incomplete(3) [simplified True]] decrypt_spent [OF incomplete(2)]
    have "budget (world n3) < budget (world n1)" "length encrypted3 \<le> encrypted_limit" by simp_all
    with start_spent(4) [OF incomplete(1) limit] incomplete(4) True show ?thesis by simp
  qed (use incomplete in simp)
next
  case (renegotiate encrypted1 n1 buffers encrypted2 n2 extra encrypted3 continued t' n3)
  note start = start_spent [OF renegotiate(1) limit]
  have e3: "length encrypted3 \<le> length encrypted1"
    using PreserveExtra_length [OF renegotiate(4)] decrypt_message_facts(1) [OF renegotiate(2)] by simp
  show ?thesis
  proof (cases continued)
    case True
    with ContinueHandshake_progress [OF renegotiate(5) [simplified True]] e3 start(2)
    have "length (pending_encrypted t') \<le> encrypted_limit"
      and "(work n3 (pending_encrypted t'), work n2 encrypted3) \<in> less_work" by simp_all
    moreover from this(2) e3 decrypt_spent [OF renegotiate(2)]
    have "(work n3 (pending_encrypted t'), work n1 encrypted1) \<in> less_work" by auto
    ultimately show ?thesis using start(5) renegotiate(6) True by simp
  qed (use renegotiate in simp)
next
  case (more encrypted1 n1 buffers encrypted2 n2 encrypted3 joined)
  note start = start_spent [OF more(1) limit]
  from preserve_found_shorter [OF more(2) start(1) more(4)]
  have "length encrypted3 < length encrypted1" .
  with start(2) start(3) [OF decrypt_spent [OF more(2)]] more(5) show ?thesis by simp
qed simp_all

lemma ReceiveJson_returns:
  assumes "length (pending_encrypted t) \<le> encrypted_limit"
  shows "ReceiveJson ws ss nl t n \<noteq> None"
  unfolding ReceiveJson_def
proof (rule rounds_returns [where I = "\<lambda>(t, encrypted, plaintext, n). length encrypted \<le> encrypted_limit"
      and m = "\<lambda>(t, encrypted, plaintext, n). work n encrypted"])
  fix s s' assume "case s of (t, encrypted, plaintext, n) \<Rightarrow> length encrypted \<le> encrypted_limit"
    "receive_json_round ws ss nl s = Some (Inl s')"
  then show "(case s' of (t, encrypted, plaintext, n) \<Rightarrow> length encrypted \<le> encrypted_limit) \<and>
      (case s' of (t, encrypted, plaintext, n) \<Rightarrow> work n encrypted,
       case s of (t, encrypted, plaintext, n) \<Rightarrow> work n encrypted) \<in> less_work"
    using receive_json_round_progress by (cases s; cases s') fastforce
qed (use assms receive_json_round_returns in auto)

lemma Handshake_returns: "returns (Handshake ws ss t name pin n)"
proof -
  have "returns (ContinueHandshake ws ss t' [] m)" for t' m
    unfolding returns_def by (rule ContinueHandshake_returns) simp
  moreover have "returns (CompleteAndSend ws ss s status tok m)" for s status tok m
    unfolding returns_def by (rule CompleteAndSend_returns)
  ultimately show ?thesis
    unfolding Handshake_def Let_def by (auto split: prod.splits bool.splits option.splits)
qed

lemma Handshake_pending:
  assumes "Handshake ws ss t name pin n = Some (True, t', n')"
  shows "length (pending_encrypted t') \<le> encrypted_limit"
proof -
  from assms obtain t1 n1 n2 where "ContinueHandshake ws ss t1 [] n1 = Some (True, t', n2)"
    by (auto simp: Handshake_def Let_def bind_eq_Some_conv
        split: option.split_asm prod.split_asm bool.split_asm if_split_asm) (metis surj_pair)+
  from ContinueHandshake_progress(1) [OF this] show ?thesis by simp
qed

lemma Send_tls_returns: "returns (Send_tls ws ss t plaintext n)"
proof -
  have "returns (SendAll ws s bs m)" for s bs m unfolding returns_def by (rule SendAll_returns)
  then show ?thesis unfolding Send_tls_def Let_def by (auto split: prod.splits)
qed

lemma tls_exchange_returns: "returns (tls_exchange ws ss nl s name pin request n)"
proof -
  have "returns (ReceiveJson ws ss nl t n2)"
    if "Handshake ws ss (TlsConnection s) name pin n = Some (True, t, n1)" for t n1 n2
    unfolding returns_def using ReceiveJson_returns [OF Handshake_pending [OF that]] .
  then show ?thesis
    unfolding tls_exchange_def
    using Handshake_returns Send_tls_returns by (auto split: prod.splits sum.splits)
qed

lemma Authenticate_returns:
  assumes "EncodeLoginAttempt nl credentials \<noteq> None"
  shows "returns (Authenticate ws ss nl host credentials options n)"
  using assms tls_exchange_returns unfolding Authenticate_def login_session_def
  by (auto simp: returns_def [of "EncodeLoginAttempt nl credentials"] split: prod.splits bool.splits sum.splits)

end

end
