(* ===== verification/Tls_Login.thy ===== *)
theory Tls_Login
  imports Tls_Service
begin

text \<open>
  The properties of the authentication client: what it reveals and when, what it releases, that it
  returns, and within which limits it buffers.
\<close>

section \<open>A scripted TLS provider\<close>

text \<open>
  For the witnesses: a handshake of one message in each direction that hands back what it did not
  consume, records that carry their bytes as they are, and one certificate.
\<close>

definition scripted_tls :: "peer schannel" where
  "scripted_tls =
     \<lparr>ss_acquire = (\<lambda>_. Pair True),
      ss_initialize = (\<lambda>_ input w. case input of
          None \<Rightarrow> (\<lparr>init_status = SEC_I_CONTINUE_NEEDED, context_valid = True, token = Some [1],
                    unconsumed = \<lparr>BufferType = SECBUFFER_EMPTY, contents = []\<rparr>\<rparr>, w)
        | Some bs \<Rightarrow> (\<lparr>init_status = SEC_E_OK, context_valid = True, token = None,
                    unconsumed = \<lparr>BufferType = SECBUFFER_EXTRA, contents = drop 1 bs\<rparr>\<rparr>, w)),
      ss_complete = Pair True, ss_stream_sizes = Pair (Some \<lparr>cbHeader = 5, cbTrailer = 0, cbMaximumMessage = 16384\<rparr>),
      ss_remote_certificate = Pair True, ss_certificate_hash = Pair (True, replicate 32 7, 32),
      ss_encrypt = (\<lambda>z plaintext. Pair (True, replicate (cbHeader z) 0, plaintext, [])),
      ss_decrypt = (\<lambda>encrypted. Pair (SEC_E_OK, [\<lparr>BufferType = SECBUFFER_DATA, contents = encrypted\<rparr>], encrypted)),
      ss_free = (\<lambda>_. id), wide_size = (\<lambda>bs. int (length bs)), wide_chars = (\<lambda>bs k. (k, map ucast bs))\<rparr>"

lemma scripted_tls_simps [simp]:
  "ss_acquire scripted_tls manual w = (True, w)"
  "ss_initialize scripted_tls name None w =
     (\<lparr>init_status = SEC_I_CONTINUE_NEEDED, context_valid = True, token = Some [1],
       unconsumed = \<lparr>BufferType = SECBUFFER_EMPTY, contents = []\<rparr>\<rparr>, w)"
  "ss_initialize scripted_tls name (Some bs) w =
     (\<lparr>init_status = SEC_E_OK, context_valid = True, token = None,
       unconsumed = \<lparr>BufferType = SECBUFFER_EXTRA, contents = drop 1 bs\<rparr>\<rparr>, w)"
  "ss_stream_sizes scripted_tls w = (Some \<lparr>cbHeader = 5, cbTrailer = 0, cbMaximumMessage = 16384\<rparr>, w)"
  "ss_remote_certificate scripted_tls w = (True, w)"
  "ss_certificate_hash scripted_tls w = ((True, replicate 32 7, 32), w)"
  "ss_encrypt scripted_tls z plaintext w = ((True, replicate (cbHeader z) 0, plaintext, []), w)"
  "ss_decrypt scripted_tls encrypted w =
     ((SEC_E_OK, [\<lparr>BufferType = SECBUFFER_DATA, contents = encrypted\<rparr>], encrypted), w)"
  "ss_free scripted_tls c w = w"
  "wide_size scripted_tls input = int (length input)"
  "wide_chars scripted_tls input k = (k, map ucast input)"
  by (simp_all add: scripted_tls_def)

interpretation scripted_tls: tls_service scripted scripted_tls "\<lambda>w. length (incoming w)"
  by unfold_locales (auto simp: scripted_def scripted_tls_def split: if_splits option.splits)

definition sample_login :: AuthCredentials where
  "sample_login = \<lparr>username = ''u'', password = ''p'', otp = ''''\<rparr>"

definition sample_auth :: AuthOptions where
  "sample_auth = \<lparr>port = 54231, auth_timeout_ms = 1000, certificate_sha256 = Some (replicate 32 7)\<rparr>"

definition sample_library :: nlohmann where
  "sample_library = documents [(''{}'', login_request sample_login), (rejection, rejection_document)]"

definition sample_server :: "peer net" where
  "sample_server = \<lparr>world = \<lparr>incoming = 1 # bytes_of_string rejection, clock_ns = 0, stopped = False\<rparr>, calls = []\<rparr>"

lemma scripted_Receive:
  assumes "incoming (world n) \<noteq> []" "length (incoming (world n)) \<le> 16384" "length encrypted \<le> 1032192"
  shows "Receive scripted s encrypted n = Some (True, encrypted @ incoming (world n),
    called (RecvBytes s 16384 (Some (incoming (world n)))) (world n\<lparr>incoming := []\<rparr>) n)"
  using assms by (auto simp: Receive_def recv_def scripted_def)

lemma sample_request: "EncodeLoginAttempt sample_library sample_login = Some (Inr ''{}'')"
  by (simp add: EncodeLoginAttempt_def sample_library_def documents_def sample_login_def ContainsNull_def)

lemma scripted_ContinueHandshake:
  assumes "incoming (world n) = 1 # rest" "rest \<noteq> []" "length rest < 16384"
  shows "ContinueHandshake scripted scripted_tls t [] n =
    Some (True, t\<lparr>pending_encrypted := rest, stream_sizes := \<lparr>cbHeader = 5, cbTrailer = 0, cbMaximumMessage = 16384\<rparr>\<rparr>,
      called QueryStreamSizes (world n\<lparr>incoming := []\<rparr>)
        (called (InitializeContext False False False) (world n\<lparr>incoming := []\<rparr>)
          (called (RecvBytes (tls_socket t) 16384 (Some (1 # rest))) (world n\<lparr>incoming := []\<rparr>) n)))"
  unfolding ContinueHandshake_def
  by (rule rounds_return)
     (use assms in \<open>simp add: handshake_round_def scripted_Receive initialize_context_def CompleteAndSend_def
        free_token_def PreserveExtra_def Let_def NormalizeCompleteStatus_def query_stream_sizes_def\<close>)

lemma scripted_Handshake:
  assumes "incoming (world n) = 1 # rest" "rest \<noteq> []" "length rest < 16384"
  shows "Handshake scripted scripted_tls (TlsConnection s) name (Some (replicate 32 7)) n =
    Some (True, (TlsConnection s)\<lparr>tls_server_name := name, credentials_ready := True, context_ready := True,
        pending_encrypted := rest, stream_sizes := \<lparr>cbHeader = 5, cbTrailer = 0, cbMaximumMessage = 16384\<rparr>\<rparr>,
      n\<lparr>world := world n\<lparr>incoming := []\<rparr>, calls := calls n @
        [AcquireCredentials True True, InitializeContext True True True, SendBytes s [1] (Some 1), FreeContextBuffer,
         RecvBytes s 16384 (Some (1 # rest)), InitializeContext False False False, QueryStreamSizes,
         CertificateHash (Some (replicate 32 7)), FreeCertificate]\<rparr>)"
  using assms
  by (simp add: Handshake_def Let_def initialize_context_def CompleteAndSend_def scripted_SendAll
     NormalizeCompleteStatus_def free_token_def release_def scripted_ContinueHandshake ValidateCertificatePin_def)
     (simp add: called_def TlsConnection_def)

lemma scripted_ReceiveJson:
  assumes "pending_encrypted t \<noteq> []" "length (pending_encrypted t) \<le> 16384"
    and "IsCompleteJson nl (string_of_bytes (pending_encrypted t))"
  shows "ReceiveJson scripted scripted_tls nl t n =
    Some (Inr (string_of_bytes (pending_encrypted t)), t\<lparr>pending_encrypted := []\<rparr>,
      called (DecryptMessage (length (pending_encrypted t))) (world n) n)"
  unfolding ReceiveJson_def
  by (rule rounds_return)
     (use assms in \<open>simp add: receive_json_round_def decrypt_message_def Let_def message_data_def string_of_bytes_def\<close>)

definition sample_run_calls :: "net_call list" where
  "sample_run_calls =
     [WSAStartup True, GetAddrInfo [104] (Some (decimal 54231)) True, OpenSocket (Some 1), IoctlNonblocking 1 True,
      Connect 1 [2, 0, 0, 0, 127, 0, 0, 1, 0, 0, 0, 0, 0, 0, 0, 0] True, IoctlNonblocking 1 False,
      SetSockOpt 1 SO_RCVTIMEO 1000, SetSockOpt 1 SO_SNDTIMEO 1000, FreeAddrInfo,
      AcquireCredentials True True, InitializeContext True True True, SendBytes 1 [1] (Some 1), FreeContextBuffer,
      RecvBytes 1 16384 (Some (1 # bytes_of_string rejection)), InitializeContext False False False, QueryStreamSizes,
      CertificateHash (Some (replicate 32 7)), FreeCertificate,
      EncryptMessage (bytes_of_string ''{}''), SendBytes 1 (replicate 5 0) (Some 5),
      SendBytes 1 (bytes_of_string ''{}'') (Some 2), SecureZeroMemory 7, DecryptMessage 5, SecureZeroMemory 5,
      DeleteContext, FreeCredentials, CloseSocket 1, WSACleanup, SecureZeroMemory 2]"

lemma sample_open:
  "OpenSocket_auth scripted ''h'' 54231 1000 n =
    (Inr 1, n\<lparr>calls := calls n @
      [GetAddrInfo [104] (Some (decimal 54231)) True, OpenSocket (Some 1), IoctlNonblocking 1 True,
       Connect 1 [2, 0, 0, 0, 127, 0, 0, 1, 0, 0, 0, 0, 0, 0, 0, 0] True, IoctlNonblocking 1 False,
       SetSockOpt 1 SO_RCVTIMEO 1000, SetSockOpt 1 SO_SNDTIMEO 1000, FreeAddrInfo]\<rparr>)"
  by (simp add: OpenSocket_auth_def bytes_of_string_def Let_def open_socket_def ConnectSocket_def ioctlsocket_def
      connect_def setsockopt_def scripted_def called_def)

lemma string_bytes_inverse: "string_of_bytes (bytes_of_string s) = s"
proof -
  have "char_of (unat (of_char c :: 8 word)) = c" for c
  proof -
    have "unat (of_char c :: 8 word) = unat (of_nat (of_char c) :: 8 word)" by (simp only: of_nat_of_char)
    also have "\<dots> = of_char c" by (simp only: unat_of_nat) (simp add: of_char_mod_256)
    finally show ?thesis by simp
  qed
  then show ?thesis by (induction s) (simp_all add: string_of_bytes_def bytes_of_string_def)
qed

lemma length_bytes_of_string [simp]: "length (bytes_of_string s) = length s"
  and bytes_of_string_Nil [simp]: "bytes_of_string s = [] \<longleftrightarrow> s = []"
  by (simp_all add: bytes_of_string_def)

lemma scripted_winsock [simp]: "sys_startup scripted w = (True, w)" "sys_cleanup scripted w = w" "sys_closesocket scripted s w = w"
  by (simp_all add: scripted_def)

lemma SendAll_Nil: "SendAll ws s [] n = Some (True, n)"
  by (simp add: SendAll.simps)

lemma TlsConnection_simps [simp]:
  "tls_socket (TlsConnection s) = s" "credentials_ready (TlsConnection s) = False" "context_ready (TlsConnection s) = False"
  by (simp_all add: TlsConnection_def)

lemma sample_tls_exchange:
  assumes "world n = \<lparr>incoming = 1 # bytes_of_string rejection, clock_ns = c, stopped = b\<rparr>"
  shows "tls_exchange scripted scripted_tls sample_library 1 name (Some (replicate 32 7)) ''{}'' n =
     Some (Inl \<lparr>auth_error = kServerRejected, server_result = Some 2\<rparr>,
       \<lparr>world = \<lparr>incoming = [], clock_ns = c, stopped = b\<rparr>,
        calls = calls n @ drop 9 (butlast (butlast sample_run_calls))\<rparr>)"
proof -
  have rej: "rejection \<noteq> []" "length rejection = 5" by (simp_all add: rejection_def)
  have complete: "IsCompleteJson sample_library rejection"
    by (simp add: IsCompleteJson_def sample_library_def documents_def)
  have decoded: "DecodeLoginResponse sample_library rejection = Inl \<lparr>auth_error = kServerRejected, server_result = Some 2\<rparr>"
    by (simp add: DecodeLoginResponse_def sample_library_def documents_def rejection_def rejection_document_def
        ReadUnsigned_def)
  show ?thesis
    using assms
    by (simp del: One_nat_def add: tls_exchange_def scripted_Handshake [where rest = "bytes_of_string rejection"] rej
        Send_tls_def Let_def scripted_SendAll scripted_ReceiveJson complete decoded string_bytes_inverse
        destroy_connection_def release_def close_socket_def clear_string_def secure_zero_def
        SendAll_Nil sample_run_calls_def numeral_2_eq_2)
qed

lemma sample_run:
  "Authenticate scripted scripted_tls sample_library ''h'' sample_login sample_auth sample_server =
     Some (Inl \<lparr>auth_error = kServerRejected, server_result = Some 2\<rparr>,
       \<lparr>world = \<lparr>incoming = [], clock_ns = 0, stopped = False\<rparr>, calls = sample_run_calls\<rparr>)"
  by (simp del: One_nat_def add: Authenticate_def sample_request sample_auth_def login_session_def sample_open
      sample_tls_exchange [where c = 0 and b = False] sample_server_def ToWide_def clear_string_def secure_zero_def called_def)
     (simp add: sample_run_calls_def numeral_2_eq_2)

section \<open>Properties of the authentication client\<close>



text \<open>
  C11: on every path, errors included, \<^verbatim>\<open>Authenticate\<close> releases what it acquired: Winsock, the address
  list, each socket it opened, the credentials and the context, the tokens of the handshake and the
  server's certificate are each released once and only while held, and the last thing it does is to
  clear the encoded request.
\<close>

theorem authenticate_releases_everything:
  assumes "Authenticate ws ss nl host credentials options n = Some (r, n')" "calls n' = calls n @ cs"
  shows "ledger cs held = Some held \<and>
    (cs \<noteq> [] \<longrightarrow> (\<exists>request. EncodeLoginAttempt nl credentials = Some (Inr request) \<and>
       (request \<noteq> [] \<longrightarrow> last cs = SecureZeroMemory (length request))))"
  using assms(1)
proof (cases rule: Authenticate_transfers)
  case (attempted request ds)
  with assms(2) have "ds = cs" by (simp add: transfers_def)
  with attempted show ?thesis by (simp add: transfers_def)
qed (use assms(2) in simp)

theorem authenticate_releases_everything_witness:
  "ledger sample_run_calls {#Winsock#} = Some {#Winsock#} \<and> last sample_run_calls = SecureZeroMemory 2"
proof -
  have "calls sample_server = []" "sample_run_calls \<noteq> []" by (simp_all add: sample_server_def sample_run_calls_def)
  with authenticate_releases_everything [OF sample_run, of sample_run_calls "{#Winsock#}"] sample_request
  show ?thesis by (simp add: numeral_2_eq_2)
qed

text \<open>
  C21: \<^verbatim>\<open>Authenticate\<close> returns, and never reads or writes outside a buffer, against every server that
  sends finitely many bytes: each round of the handshake and of the response receives some of them
  or processes some of those received.
\<close>

theorem authenticate_returns:
  assumes "tls_service ws ss budget" "EncodeLoginAttempt nl credentials \<noteq> None"
  shows "\<exists>r n'. Authenticate ws ss nl host credentials options n = Some (r, n')"
  using tls_service.Authenticate_returns [OF assms] by (auto simp: returns_def)

theorem authenticate_returns_witness:
  "\<exists>r n'. Authenticate scripted scripted_tls sample_library ''h'' sample_login sample_auth sample_server = Some (r, n')"
  by (rule authenticate_returns [OF scripted_tls.tls_service_axioms]) (simp add: sample_request)

text \<open>
  C28: a round of \<^verbatim>\<open>ReceiveJson\<close> that starts with at most 1 MiB of encrypted bytes goes on with at most
  that and with at most 16384 bytes of plaintext, and returns a text only when it is complete JSON
  of at most 16384 bytes.
\<close>

theorem receive_json_within_limits:
  assumes "tls_service ws ss budget" "length encrypted \<le> 1024 * 1024"
    and "receive_json_round ws ss nl (t, encrypted, plaintext, n) = Some x"
  shows "case x of
      Inl (t', encrypted', plaintext', n') \<Rightarrow> length encrypted' \<le> 1024 * 1024 \<and> length plaintext' \<le> 16 * 1024
    | Inr (Inr received, t', n') \<Rightarrow> length received \<le> 16 * 1024 \<and> IsCompleteJson nl received
    | Inr (Inl e, t', n') \<Rightarrow> True"
proof -
  have "case x of Inl (t', encrypted', plaintext', n') \<Rightarrow> length encrypted' \<le> 1048576 | Inr y \<Rightarrow> True"
    using tls_service.receive_json_round_progress [OF assms(1,3)] assms(2) by (auto split: sum.splits)
  moreover have "length plaintext \<le> 16384 \<or> (\<exists>e. x = Inr (Inl e, t, n))"
    using assms(3) by (auto simp: receive_json_round_def)
  ultimately show ?thesis using assms(3)
    by (cases rule: receive_json_round_cases [OF assms(3)]) auto
qed

theorem receive_json_within_limits_witness:
  "case Inr (Inr rejection, TlsConnection 1, called (DecryptMessage 5) (world sample_server) sample_server)
        :: tls_connection \<times> bytes \<times> string \<times> peer net + (AuthFailure + string) \<times> tls_connection \<times> peer net of
      Inl (t', encrypted', plaintext', n') \<Rightarrow> length encrypted' \<le> 1024 * 1024 \<and> length plaintext' \<le> 16 * 1024
    | Inr (Inr received, t', n') \<Rightarrow> length received \<le> 16 * 1024 \<and> IsCompleteJson sample_library received
    | Inr (Inl e, t', n') \<Rightarrow> True"
proof (rule receive_json_within_limits [OF scripted_tls.tls_service_axioms])
  have "length rejection = 5" "rejection \<noteq> []" "IsCompleteJson sample_library rejection"
    by (simp_all add: rejection_def IsCompleteJson_def sample_library_def documents_def)
  then show "length (bytes_of_string rejection) \<le> 1024 * 1024"
    and "receive_json_round scripted scripted_tls sample_library (TlsConnection 1, bytes_of_string rejection, [], sample_server) =
      Some (Inr (Inr rejection, TlsConnection 1, called (DecryptMessage 5) (world sample_server) sample_server))"
    by (simp_all add: receive_json_round_def decrypt_message_def Let_def message_data_def string_bytes_inverse)
qed


text \<open>A server whose receives always yield one byte.\<close>

definition chattering :: "peer winsock" where
  "chattering = scripted\<lparr>sys_recv := (\<lambda>_ _ w. (Some [0], w))\<rparr>"

definition empty_records :: "peer schannel" where
  "empty_records = scripted_tls\<lparr>ss_decrypt := (\<lambda>encrypted. Pair (SEC_E_OK, [], encrypted))\<rparr>"


end
