(* ===== verification/Lobby_Bridge.thy ===== *)
theory Lobby_Bridge
  imports View_Bootstrap Bridge_Settings Lobby_Client Tls_Login
begin

text \<open>
  The lobby bridge of \<^verbatim>\<open>src/runtime/lobby_bridge.cpp\<close>: the configuration, which authenticates and sets
  up the map key, the map endpoint, the view bootstrap and the four network hooks, and the hooks
  themselves.  The guest's sockets call the hooks; the data coordination runs in a thread the connect
  hook starts.
\<close>

section \<open>State\<close>

record bridge_state =
  bridge_host :: string
  bridge_session :: SessionMaterial
  bridge_map_key :: bytes
  bridge_ipv4 :: u32
  bridge_data_port :: u16
  bridge_view_port :: u16
  bridge_client_version :: bytes
  data_coordination_started :: bool
  bootstrap_view_login_pending :: bool

record lobby_bridge =
  shared_state :: "bridge_state option"
  state_trace_enabled :: bool

text \<open>\<open>network_hooks\<close>: the state the four hooks hold, once they are set.\<close>

record runtime_config =
  network_hooks :: "bridge_state option"
  gpu_plugin :: string

text \<open>\<open>InetPtonA\<close> yields \<^verbatim>\<open>s_addr\<close>; \<open>random_bytes\<close> is the generator of \<^verbatim>\<open>GenerateMapSessionKey\<close>.\<close>

record 'w bridge_services =
  environment :: dupenv
  InetPtonA :: "string \<Rightarrow> u32 option"
  winsock_of :: "'w winsock"
  schannel_of :: "'w schannel"
  json_of :: nlohmann
  random_bytes :: "bytes \<Rightarrow> bool \<times> bytes"
  crypt :: bcrypt

definition ntohl :: "u32 \<Rightarrow> u32" where
  "ntohl a = push_bit 24 (a AND 0xFF) OR push_bit 8 (a AND 0xFF00) OR (drop_bit 8 a AND 0xFF00) OR drop_bit 24 a"

text \<open>The numbers of the enumerators, as the log prints them.\<close>

fun auth_error_code :: "AuthError \<Rightarrow> u64" where
  "auth_error_code AuthError.kInvalidInput = 0"
| "auth_error_code AuthError.kNameResolutionFailed = 1"
| "auth_error_code AuthError.kConnectionFailed = 2"
| "auth_error_code kTlsFailed = 3"
| "auth_error_code AuthError.kIoFailed = 4"
| "auth_error_code AuthError.kResponseTooLarge = 5"
| "auth_error_code AuthError.kMalformedResponse = 6"
| "auth_error_code kServerRejected = 7"

fun lobby_error_code :: "LobbyError \<Rightarrow> u64" where
  "lobby_error_code LobbyError.kInvalidInput = 0"
| "lobby_error_code LobbyError.kNameResolutionFailed = 1"
| "lobby_error_code LobbyError.kConnectionFailed = 2"
| "lobby_error_code LobbyError.kIoFailed = 3"
| "lobby_error_code LobbyError.kResponseTooLarge = 4"
| "lobby_error_code kUnexpectedResponse = 5"
| "lobby_error_code LobbyError.kMalformedResponse = 6"
| "lobby_error_code kCancelled = 7"
| "lobby_error_code kTimedOut = 8"

fun lobby_stage_code :: "LobbyStage \<Rightarrow> u64" where
  "lobby_stage_code kInput = 0"
| "lobby_stage_code kResolve = 1"
| "lobby_stage_code kConnect = 2"
| "lobby_stage_code kDataBind = 3"
| "lobby_stage_code kViewLogin = 4"
| "lobby_stage_code kViewCharacterRequest = 5"
| "lobby_stage_code kDataTrigger = 6"
| "lobby_stage_code kDataAccountRequest = 7"
| "lobby_stage_code kDataCharacterList = 8"
| "lobby_stage_code kViewCharacterList = 9"
| "lobby_stage_code kDataSelectionTrigger = 10"
| "lobby_stage_code kDataSelectionRequest = 11"

section \<open>The configuration\<close>

definition ClearString :: "string \<Rightarrow> 'w net \<Rightarrow> string \<times> 'w net" where
  "ClearString v n = (if v \<noteq> [] then ([], secure_zero (length v) n) else (v, n))"

text \<open>The two configurations of the map handoff, with the lines they log.\<close>

definition configure_map_key :: "bcrypt \<Rightarrow> bytes \<Rightarrow> runtime \<Rightarrow> bool \<times> runtime" where
  "configure_map_key bc key st =
     (case RevanaConfigureDirectMapSessionKey bc (Some key) (map_handoff st) of (ok, g) \<Rightarrow>
        let st = st\<lparr>map_handoff := g\<rparr> in
        if ok then (True, st)
        else if length key \<noteq> length (direct_session_key g)
        then (False, REXLOG_ERROR ''Xbox direct map session key configuration is invalid'' [] st)
        else (False, REXLOG_ERROR ''Xbox direct map cipher key derivation failed'' [] st))"

definition configure_map_endpoint :: "u32 \<Rightarrow> u16 \<Rightarrow> runtime \<Rightarrow> bool \<times> runtime" where
  "configure_map_endpoint ipv4 dataport st =
     (case RevanaConfigureDirectMapEndpoint ipv4 dataport (map_handoff st) of (ok, g) \<Rightarrow>
        let st = st\<lparr>map_handoff := g\<rparr> in
        (ok, if ok then st else REXLOG_ERROR ''Xbox direct map endpoint configuration is invalid'' [] st))"

text \<open>\<^verbatim>\<open>~State\<close>.\<close>

definition destroy_state :: "bridge_state \<Rightarrow> runtime \<Rightarrow> 'w net \<Rightarrow> runtime \<times> 'w net" where
  "destroy_state s st n =
     (let n = secure_zero (length (session_hash (bridge_session s))) n;
          n = secure_zero (length (bridge_map_key s)) n;
          st = st\<lparr>map_handoff := RevanaClearDirectMapCipherKey (map_handoff st)\<rparr>;
          st = st\<lparr>map_handoff := RevanaClearDirectMapEndpoint (map_handoff st)\<rparr>
      in (st, n))"

text \<open>The settings after the credentials: the three ports, the pin and the client version.\<close>

definition read_settings :: "dupenv \<Rightarrow> (u16 \<times> u16 \<times> u16 \<times> bytes \<times> string) option" where
  "read_settings dupenv =
     (let auth_port = ParsePort (ReadEnvironment dupenv ''REVANA_LOBBY_AUTH_PORT'') 54231;
          dataport = ParsePort (ReadEnvironment dupenv ''REVANA_LOBBY_DATA_PORT'') 54230;
          viewport = ParsePort (ReadEnvironment dupenv ''REVANA_LOBBY_VIEW_PORT'') 54001;
          certificate_pin = ParseCertificatePin (ReadEnvironment dupenv ''REVANA_LOBBY_CERTIFICATE_SHA256'');
          client_version = ReadEnvironment dupenv ''REVANA_LOBBY_CLIENT_VERSION''
      in do {
           auth_port \<leftarrow> auth_port;
           dataport \<leftarrow> dataport;
           viewport \<leftarrow> viewport;
           certificate_pin \<leftarrow> certificate_pin;
           client_version \<leftarrow> client_version;
           if valid_client_version client_version
           then Some (auth_port, dataport, viewport, certificate_pin, client_version) else None
         })"

text \<open>An all-zero pin is no pin.\<close>

definition authenticate_session ::
  "'w bridge_services \<Rightarrow> string \<Rightarrow> AuthCredentials \<Rightarrow> u16 \<Rightarrow> bytes \<Rightarrow> 'w net
     \<Rightarrow> ((AuthFailure + SessionMaterial) \<times> 'w net) option" where
  "authenticate_session sv hostname credentials auth_port certificate_pin n = do {
     let auth_options = \<lparr>port = auth_port, auth_timeout_ms = 10000,
           certificate_sha256 = (if list_ex (\<lambda>b. b \<noteq> 0) certificate_pin then Some certificate_pin else None)\<rparr>;
     (authenticated, n) \<leftarrow>
       Authenticate (winsock_of sv) (schannel_of sv) (json_of sv) hostname credentials auth_options n;
     let (_, n) = ClearString (username credentials) n;
     let (_, n) = ClearString (password credentials) n;
     let (_, n) = ClearString (otp credentials) n;
     Some (authenticated, n)
   }"

text \<open>From the authenticated session to the armed bootstrap; the flag and the state that is kept.\<close>

definition establish ::
  "'w bridge_services \<Rightarrow> string \<Rightarrow> u32 \<Rightarrow> u16 \<Rightarrow> u16 \<Rightarrow> string \<Rightarrow> SessionMaterial \<Rightarrow> runtime \<Rightarrow> 'w net
     \<Rightarrow> (bool \<times> bridge_state option \<times> runtime \<times> 'w net) option" where
  "establish sv hostname address dataport viewport client_version session st n =
     (let s = \<lparr>bridge_host = hostname, bridge_session = session, bridge_map_key = replicate 20 0, bridge_ipv4 = 0,
            bridge_data_port = 54230, bridge_view_port = 54001, bridge_client_version = replicate 10 0,
            data_coordination_started = False, bootstrap_view_login_pending = False\<rparr>;
          (generated, key) = GenerateMapSessionKey (random_bytes sv) (bridge_map_key s);
          s = s\<lparr>bridge_map_key := key\<rparr>
      in if \<not> generated
         then (let st = REXLOG_ERROR ''Lobby map-session key generation failed'' [] st;
                   (st, n) = destroy_state s st n
               in Some (False, None, st, n))
         else let (configured, st) = configure_map_key (crypt sv) (bridge_map_key s) st in
         if \<not> configured
         then (let st = REXLOG_ERROR ''Lobby map-session key configuration failed'' [] st;
                   (st, n) = destroy_state s st n
               in Some (False, None, st, n))
         else let s = s\<lparr>bridge_ipv4 := ntohl address, bridge_data_port := dataport, bridge_view_port := viewport\<rparr>;
                  (reachable, st) = configure_map_endpoint (bridge_ipv4 s) (bridge_data_port s) st in
         if \<not> reachable
         then (let (st, n) = destroy_state s st n in Some (False, None, st, n))
         else do {
           let s = s\<lparr>bridge_client_version := map of_char client_version\<rparr>;
           view_login \<leftarrow> MakeViewLogin (session_hash (bridge_session s)) (bridge_client_version s);
           let (armed, st) = RevanaConfigureDirectLobbyViewBootstrap (bridge_view_port s) (Some view_login) st;
           let n = secure_zero (length view_login) n;
           Some (if \<not> armed then (False, Some s, st, n)
                 else (True, Some (s\<lparr>bootstrap_view_login_pending := True\<rparr>), st, n))
         })"

definition Configure ::
  "'w bridge_services \<Rightarrow> runtime_config \<Rightarrow> lobby_bridge \<Rightarrow> runtime \<Rightarrow> 'w net
     \<Rightarrow> (bool \<times> runtime_config \<times> lobby_bridge \<times> runtime \<times> 'w net) option" where
  "Configure sv config br st n =
     (let hostname = ReadEnvironment (environment sv) ''REVANA_LOBBY_HOST'';
          user = ReadEnvironment (environment sv) ''REVANA_LOBBY_USERNAME'';
          secret = ReadEnvironment (environment sv) ''REVANA_LOBBY_PASSWORD'';
          otp_text = (case ReadEnvironment (environment sv) ''REVANA_LOBBY_OTP'' of Some v \<Rightarrow> v | None \<Rightarrow> [])
      in if hostname = None \<and> user = None \<and> secret = None then Some (False, config, br, st, n)
         else
           let br = br\<lparr>state_trace_enabled :=
                 (ReadEnvironment (environment sv) ''REVANA_LOBBY_STATE_TRACE'' = Some ''1'')\<rparr> in
           case (hostname, user, secret) of
             (Some h, Some u, Some p) \<Rightarrow>
               (case read_settings (environment sv) of
                  None \<Rightarrow> Some (False, config, br,
                    REXLOG_ERROR ''Lobby bridge port, certificate pin, or client version is invalid'' [] st, n)
                | Some (auth_port, dataport, viewport, certificate_pin, client_version) \<Rightarrow>
                    (case InetPtonA sv h of
                       None \<Rightarrow> Some (False, config, br,
                         REXLOG_ERROR ''Lobby bridge host must be an IPv4 address'' [] st, n)
                     | Some address \<Rightarrow> do {
                         (authenticated, n) \<leftarrow> authenticate_session sv h
                           \<lparr>username = u, password = p, otp = otp_text\<rparr> auth_port certificate_pin n;
                         (case authenticated of
                            Inl e \<Rightarrow> Some (False, config, br,
                              REXLOG_ERROR ''Lobby authentication failed: error={}''
                                [U (auth_error_code (auth_error e))] st, n)
                          | Inr session \<Rightarrow> do {
                              (established, kept, st, n) \<leftarrow>
                                establish sv h address dataport viewport client_version session st n;
                              let br = br\<lparr>shared_state := kept\<rparr>;
                              if \<not> established then Some (False, config, br, st, n)
                              else
                                let config = config\<lparr>network_hooks := kept\<rparr>;
                                    st = RevanaSetGuestTraceHooksEnabled (state_trace_enabled br) st;
                                    st = REXLOG_INFO
                                      ''Lobby bridge authenticated; Xbox guest networking enabled'' [] st
                                in Some (True, config, br, st, n)
                            })
                       }))
           | _ \<Rightarrow> Some (False, config, br, REXLOG_ERROR ''Lobby bridge configuration is incomplete'' [] st, n))"

definition configured_ipv4 :: "lobby_bridge \<Rightarrow> u32 option" where
  "configured_ipv4 br = map_option bridge_ipv4 (shared_state br)"

section \<open>The hooks\<close>

definition resolve_ipv4 :: "bridge_state \<Rightarrow> string \<Rightarrow> u32 option" where
  "resolve_ipv4 s hostname =
     (let prefix = ''ffxi''; suffix = ''.pol.com'';
          digit = (\<lambda>c. 48 \<le> (of_char c :: nat) \<and> (of_char c :: nat) \<le> 57);
          numbered_ffxi_host =
            length hostname = length prefix + 2 + length suffix \<and> take (length prefix) hostname = prefix \<and>
            drop (length prefix + 2) hostname = suffix \<and>
            digit (hostname ! length prefix) \<and> digit (hostname ! (length prefix + 1))
      in if \<not> numbered_ffxi_host \<and> hostname \<noteq> ''pp000.pol.com'' then None else Some (bridge_ipv4 s))"

text \<open>
  \<^verbatim>\<open>N_XSOCKADDR_IN\<close>.  The length is a signed \<^verbatim>\<open>int\<close> compared with a \<^verbatim>\<open>size_t\<close> of sixteen: a negative length
  becomes a huge one.
\<close>

record xsockaddr =
  address_family :: u16
  sin_port :: u16
  sin_addr :: u32

text \<open>Whether the hook started the data thread is the third result.\<close>

definition before_connect ::
  "bridge_state \<Rightarrow> u32 \<Rightarrow> xsockaddr \<Rightarrow> int \<Rightarrow> runtime \<Rightarrow> bridge_state \<times> xsockaddr \<times> bool \<times> runtime" where
  "before_connect s caller address address_length st =
     (if address_family address \<noteq> 2 \<or> (word_of_int address_length :: u64) < 16
      then (s, address, False, st)
      else if sin_port address \<noteq> bridge_view_port s then (s, address, False, st)
      else
        let address = address\<lparr>sin_addr := bridge_ipv4 s\<rparr>;
            was_started = data_coordination_started s;
            s = s\<lparr>data_coordination_started := True\<rparr>
        in (s, address, \<not> was_started,
            REXLOG_INFO ''Lobby connect redirected: port={} caller={:08X}''
              [U (ucast (bridge_view_port s)), W caller] st))"

text \<open>The body of the data thread.\<close>

definition coordinate_data ::
  "'w winsock \<Rightarrow> bridge_state \<Rightarrow> runtime \<Rightarrow> 'w net \<Rightarrow> (bridge_state \<times> runtime \<times> 'w net) option" where
  "coordinate_data ws s st n = do {
     (result, n) \<leftarrow> CoordinateCharacterLoginData ws (map of_char (bridge_host s)) (bridge_session s) (bridge_map_key s)
       \<lparr>data_port = bridge_data_port s, view_port = bridge_view_port s, timeout_ms = 10000,
        selection_timeout_ms = 300000\<rparr> n;
     let st = (case result of
           Inl e \<Rightarrow>
             if lobby_error e = kCancelled then REXLOG_INFO ''Lobby data coordination cancelled'' [] st
             else REXLOG_ERROR ''Lobby data coordination failed: error={} stage={}''
                    [U (lobby_error_code (lobby_error e)), U (lobby_stage_code (lobby_stage e))] st
         | Inr r \<Rightarrow>
             REXLOG_INFO ''Lobby character selection coordinated: slot_count={}''
               [U (ucast (character_slot_count r))] st);
     Some (s\<lparr>data_coordination_started := False\<rparr>, st, n)
   }"

definition before_send ::
  "bridge_state \<Rightarrow> u32 \<Rightarrow> u16 \<Rightarrow> bytes \<Rightarrow> runtime \<times> 'w net \<Rightarrow> (bytes \<times> runtime \<times> 'w net) option" where
  "before_send s caller peer bs = (\<lambda>(st, n). do {
     (ok, prepared) \<leftarrow> PrepareLobbySend bs peer (bridge_data_port s) (bridge_view_port s)
       (session_hash (bridge_session s)) (bridge_client_version s);
     if \<not> ok then Some (bs, st, n)
     else do {
       bs \<leftarrow> copy_to bs 0 prepared;
       command \<leftarrow> ReadLe32 bs 8;
       let n = secure_zero (length prepared) n;
       Some (bs, REXLOG_INFO ''Lobby send authenticated: command={:02X} size={} port={} caller={:08X}''
                   [W command, U (of_nat (length bs)), U (ucast peer), W caller] st, n)
     }
   })"

definition consume_send ::
  "bridge_state \<Rightarrow> u32 \<Rightarrow> u16 \<Rightarrow> bytes \<Rightarrow> runtime \<Rightarrow> (bool \<times> bridge_state \<times> runtime) option" where
  "consume_send s caller peer bs st =
     (if peer \<noteq> bridge_view_port s \<or> length bs \<noteq> 152 then Some (False, s, st)
      else do {
        command \<leftarrow> ReadLe32 bs 8;
        if command \<noteq> 0x26 then Some (False, s, st)
        else
          let was_pending = bootstrap_view_login_pending s;
              s = s\<lparr>bootstrap_view_login_pending := False\<rparr>
          in Some (if \<not> was_pending then (False, s, st)
                   else (True, s,
                     REXLOG_INFO ''Lobby bootstrap consumed duplicate guest command 26: size={} port={} caller={:08X}''
                       [U (of_nat (length bs)), U (ucast peer), W caller] st))
      })"

section \<open>What a configuration leaves\<close>

lemma tls_exchange_session:
  assumes "tls_exchange ws ss nl s wide_host pin request n = Some (Inr session, n')"
  shows "\<exists>response. DecodeLoginResponse nl response = Inr session"
proof -
  from assms obtain t n1 n2 where "Handshake ws ss (TlsConnection s) wide_host pin n = Some (True, t, n1)"
    "Send_tls ws ss t (bytes_of_string request) n1 = Some (True, n2)"
    and r: "do { (response, t, n) \<leftarrow> ReceiveJson ws ss nl t n2;
       (case response of Inl e \<Rightarrow> Some (Inl e, destroy_connection ws ss t n)
        | Inr text \<Rightarrow> Some (DecodeLoginResponse nl text, destroy_connection ws ss t (clear_string text n))) } = Some (Inr session, n')"
    by (auto simp: tls_exchange_def bind_eq_Some_conv split: if_splits)
  from r obtain response t2 n3 where "ReceiveJson ws ss nl t n2 = Some (response, t2, n3)"
    by (auto simp: bind_eq_Some_conv)
  with r show ?thesis by (cases response) auto
qed

lemma Authenticate_session:
  assumes "Authenticate ws ss nl hostname credentials options n = Some (Inr session, n')"
  shows "length (session_hash session) = 16"
proof -
  from assms obtain encoded where guard: "\<not> (hostname = [] \<or> port options = 0 \<or> auth_timeout_ms options = 0)"
    and e: "EncodeLoginAttempt nl credentials = Some encoded"
    by (auto simp: Authenticate_def bind_eq_Some_conv split: if_splits)
  with assms obtain request where "encoded = Inr request" by (cases encoded) (auto simp: Authenticate_def)
  with assms guard e obtain w where "sys_startup ws (world n) = (True, w)"
    by (cases "sys_startup ws (world n)"; cases "fst (sys_startup ws (world n))") (auto simp: Authenticate_def)
  with assms guard e \<open>encoded = Inr request\<close> obtain n2 where
    login: "login_session ws ss nl hostname options request (called (WSAStartup True) w n) = Some (Inr session, n2)"
    by (auto simp: Authenticate_def bind_eq_Some_conv)
  obtain r n3 where opened: "OpenSocket_auth ws hostname (port options) (auth_timeout_ms options)
      (called (WSAStartup True) w n) = (r, n3)" by fastforce
  from login opened obtain s where "r = Inr s" by (cases r) (auto simp: login_session_def)
  with login opened obtain wide_host where "ToWide ss hostname = Inr wide_host"
    by (cases "ToWide ss hostname") (auto simp: login_session_def)
  with login opened \<open>r = Inr s\<close> have "\<exists>response. DecodeLoginResponse nl response = Inr session"
    by (intro tls_exchange_session) (simp add: login_session_def)
  then obtain j where "accepted_response j session" unfolding DecodeLoginResponse_exact by blast
  then show ?thesis by (auto simp: accepted_response_def list_all2_lengthD)
qed

text \<open>The services keep their word: the digest is computed, the generator fills its buffer.\<close>

definition bridge_services_ok :: "'w bridge_services \<Rightarrow> (bytes \<Rightarrow> bytes) \<Rightarrow> ('w \<Rightarrow> nat) \<Rightarrow> bool" where
  "bridge_services_ok sv digest budget \<longleftrightarrow>
     md5_service (crypt sv) digest \<and> tls_service (winsock_of sv) (schannel_of sv) budget \<and>
     (\<forall>key. length (snd (random_bytes sv key)) = length key) \<and>
     (\<forall>c. EncodeLoginAttempt (json_of sv) c \<noteq> None)"

definition no_map_handoff :: "map_globals \<Rightarrow> bool" where
  "no_map_handoff g \<longleftrightarrow> \<not> cipher_key_enabled g \<and> \<not> endpoint_enabled g \<and>
     direct_session_key g = replicate 20 0 \<and> direct_cipher_key g = replicate 16 0"

text \<open>The globals of a running bridge are those of its state.\<close>

definition bridge_established :: "bridge_state \<Rightarrow> runtime \<Rightarrow> bool" where
  "bridge_established s st \<longleftrightarrow>
     cipher_key_enabled (map_handoff st) \<and> direct_session_key (map_handoff st) = bridge_map_key s \<and>
     endpoint_enabled (map_handoff st) \<and> direct_ipv4 (map_handoff st) = bridge_ipv4 s \<and>
     direct_port (map_handoff st) = bridge_data_port s \<and>
     bootstrap_enabled (bootstrap st) \<and> bootstrap_port (bootstrap st) = bridge_view_port s \<and>
     \<not> request_sent (bootstrap st) \<and> \<not> response_ready (bootstrap st) \<and> \<not> bootstrap_failed (bootstrap st) \<and>
     MakeViewLogin (session_hash (bridge_session s)) (bridge_client_version s) = Some (bootstrap_packet (bootstrap st)) \<and>
     bootstrap_view_login_pending s \<and> \<not> data_coordination_started s \<and>
     length (session_hash (bridge_session s)) = 16 \<and> length (bridge_client_version s) = 10 \<and>
     length (bridge_map_key s) = 20"

lemma destroyed_map:
  assumes "map_globals_ok digest (map_handoff st)" "destroy_state s st n = (st', n')"
  shows "no_map_handoff (map_handoff st')" "bootstrap st' = bootstrap st" "lobby st' = lobby st"
  using assms
  by (auto simp: destroy_state_def no_map_handoff_def map_op_defs map_globals_ok_def Let_def)

lemma configure_map_key_ok:
  assumes "md5_service bc digest" "map_globals_ok digest (map_handoff st)" "configure_map_key bc key st = (ok, st')"
  shows "map_globals_ok digest (map_handoff st')" "bootstrap st' = bootstrap st" "lobby st' = lobby st"
    "ok \<Longrightarrow> cipher_key_enabled (map_handoff st') \<and> direct_session_key (map_handoff st') = key"
  using assms RevanaConfigureDirectMapSessionKey_ok [OF assms(1,2), of "Some key"]
  by (auto simp: configure_map_key_def Let_def write_log_def RevanaConfigureDirectMapSessionKey_def split: prod.splits if_splits)

lemma configure_map_endpoint_ok:
  assumes "map_globals_ok digest (map_handoff st)" "configure_map_endpoint ipv4 p st = (ok, st')"
  shows "map_globals_ok digest (map_handoff st')" "bootstrap st' = bootstrap st" "lobby st' = lobby st"
    "ok \<Longrightarrow> endpoint_enabled (map_handoff st') \<and> direct_ipv4 (map_handoff st') = ipv4 \<and>
       direct_port (map_handoff st') = p \<and> cipher_key_enabled (map_handoff st') = cipher_key_enabled (map_handoff st) \<and>
       direct_session_key (map_handoff st') = direct_session_key (map_handoff st)"
  using assms RevanaConfigureDirectMapEndpoint_ok [OF assms(1), of ipv4 p]
  by (auto simp: configure_map_endpoint_def Let_def write_log_def RevanaConfigureDirectMapEndpoint_def split: prod.splits if_splits)

lemma MakeViewLogin_defined:
  assumes "length hash = 16" "length version = 10"
  shows "\<exists>view_login. MakeViewLogin hash version = Some view_login \<and> length view_login = 152"
  using assms by (simp add: MakeViewLogin_bytes)

lemma no_map_handoff_ok: "no_map_handoff g \<Longrightarrow> map_globals_ok digest g"
  by (simp add: no_map_handoff_def map_globals_ok_def)

lemma write_log_map [simp]:
  "map_handoff (write_log l f as st) = map_handoff st" "bootstrap (write_log l f as st) = bootstrap st"
  "lobby (write_log l f as st) = lobby st" "trace (write_log l f as st) = trace st"
  "resolver (write_log l f as st) = resolver st" "host (write_log l f as st) = host st"
  by (simp_all add: write_log_def)

lemma armed_bootstrap:
  assumes "length view_login = 152" "viewport \<noteq> 0"
  obtains st' where "RevanaConfigureDirectLobbyViewBootstrap viewport (Some view_login) st = (True, st')"
    "bootstrap_enabled (bootstrap st')" "bootstrap_port (bootstrap st') = viewport"
    "bootstrap_packet (bootstrap st') = view_login" "\<not> request_sent (bootstrap st')"
    "\<not> response_ready (bootstrap st')" "\<not> bootstrap_failed (bootstrap st')" "map_handoff st' = map_handoff st"
proof -
  obtain ok st' where "RevanaConfigureDirectLobbyViewBootstrap viewport (Some view_login) st = (ok, st')" by fastforce
  with assms show thesis
    by (intro that [of st']) (auto simp: RevanaConfigureDirectLobbyViewBootstrap_def Let_def)
qed

lemma establish_returns:
  assumes md5: "md5_service (crypt sv) digest" and ok: "map_globals_ok digest (map_handoff st)"
    and valid: "valid_client_version client_version" "length (session_hash session) = 16" "viewport \<noteq> 0"
  shows "\<exists>established kept st' n'.
    establish sv hostname address dataport viewport client_version session st n = Some (established, kept, st', n') \<and>
    map_globals_ok digest (map_handoff st') \<and>
    (if established then \<exists>s. kept = Some s \<and> bridge_established s st' \<and> bridge_ipv4 s = ntohl address \<and>
          bridge_data_port s = dataport \<and> bridge_view_port s = viewport \<and> bridge_session s = session
     else kept = None \<and> no_map_handoff (map_handoff st') \<and> bootstrap st' = bootstrap st)"
proof -
  obtain generated key where g: "GenerateMapSessionKey (random_bytes sv) (replicate 20 0) = (generated, key)" by fastforce
  let ?s = "\<lparr>bridge_host = hostname, bridge_session = session, bridge_map_key = key, bridge_ipv4 = 0,
            bridge_data_port = 54230, bridge_view_port = 54001, bridge_client_version = replicate 10 0,
            data_coordination_started = False, bootstrap_view_login_pending = False\<rparr>"
  let ?s' = "?s\<lparr>bridge_ipv4 := ntohl address, bridge_data_port := dataport, bridge_view_port := viewport\<rparr>"
  have destroyed: ?thesis if "establish sv hostname address dataport viewport client_version session st n =
      (let (st, n) = destroy_state s st1 n in Some (False, None, st, n))"
    "map_globals_ok digest (map_handoff st1)" "bootstrap st1 = bootstrap st" for s st1
  proof -
    obtain st2 n2 where d: "destroy_state s st1 n = (st2, n2)" by fastforce
    note destroyed_map [OF that(2) d]
    with that(1,3) d show ?thesis by (simp add: no_map_handoff_ok ex_bool_eq)
  qed
  show ?thesis
  proof (cases generated)
    case False
    with g ok show ?thesis
      by (intro destroyed [of ?s "REXLOG_ERROR ''Lobby map-session key generation failed'' [] st"])
         (simp_all add: establish_def Let_def)
  next
    case generated: True
    obtain configured st1 where c: "configure_map_key (crypt sv) key st = (configured, st1)" by fastforce
    note c_ok = configure_map_key_ok [OF md5 ok c]
    show ?thesis
    proof (cases configured)
      case False
      with g c generated c_ok show ?thesis
        by (intro destroyed [of ?s "REXLOG_ERROR ''Lobby map-session key configuration failed'' [] st1"])
           (simp_all add: establish_def Let_def)
    next
      case configured: True
      obtain reachable st2 where e: "configure_map_endpoint (ntohl address) dataport st1 = (reachable, st2)" by fastforce
      note e_ok = configure_map_endpoint_ok [OF c_ok(1) e]
      show ?thesis
      proof (cases reachable)
        case False
        with g c e generated configured c_ok e_ok show ?thesis
          by (intro destroyed [of ?s' st2]) (simp_all add: establish_def Let_def)
      next
        case True
        have version: "length (map of_char client_version :: bytes) = 10" using valid(1) by (simp add: valid_client_version_def)
        from MakeViewLogin_defined [OF valid(2) version] obtain view_login where
          v: "MakeViewLogin (session_hash session) (map of_char client_version) = Some view_login" "length view_login = 152"
          by blast
        obtain st3 where b: "RevanaConfigureDirectLobbyViewBootstrap viewport (Some view_login) st2 = (True, st3)"
          "bootstrap_enabled (bootstrap st3)" "bootstrap_port (bootstrap st3) = viewport"
          "bootstrap_packet (bootstrap st3) = view_login" "\<not> request_sent (bootstrap st3)"
          "\<not> response_ready (bootstrap st3)" "\<not> bootstrap_failed (bootstrap st3)" "map_handoff st3 = map_handoff st2"
          by (rule armed_bootstrap [OF v(2) valid(3)])
        have "establish sv hostname address dataport viewport client_version session st n = Some (True,
            Some (?s'\<lparr>bridge_client_version := map of_char client_version, bootstrap_view_login_pending := True\<rparr>),
            st3, secure_zero 152 n)"
          using g c e generated configured True v b(1) by (simp add: establish_def Let_def)
        moreover have "bridge_established (?s'\<lparr>bridge_client_version := map of_char client_version,
            bootstrap_view_login_pending := True\<rparr>) st3"
          using b c_ok(4) [OF configured] e_ok(4) [OF True] v valid(2) version e_ok(1)
          by (simp add: bridge_established_def map_globals_ok_def)
        ultimately show ?thesis using e_ok(1) b(8) by (simp add: ex_bool_eq)
      qed
    qed
  qed
qed

text \<open>The calls that clear a string, and the three credentials.\<close>

definition string_wiped :: "string \<Rightarrow> net_call list" where
  "string_wiped v = (if v = [] then [] else [SecureZeroMemory (length v)])"

definition credentials_wiped :: "AuthCredentials \<Rightarrow> net_call list" where
  "credentials_wiped c = string_wiped (username c) @ string_wiped (password c) @ string_wiped (otp c)"

lemma ClearString_eq: "ClearString v n = ([], n\<lparr>calls := calls n @ string_wiped v\<rparr>)"
  by (simp add: ClearString_def string_wiped_def secure_zero_def called_def)

lemma authenticate_session_eq:
  assumes "Authenticate (winsock_of sv) (schannel_of sv) (json_of sv) hostname c
      \<lparr>port = auth_port, auth_timeout_ms = 10000,
       certificate_sha256 = (if list_ex (\<lambda>b. b \<noteq> 0) pin then Some pin else None)\<rparr> n = Some (r, n1)"
  shows "authenticate_session sv hostname c auth_port pin n = Some (r, n1\<lparr>calls := calls n1 @ credentials_wiped c\<rparr>)"
  using assms by (simp add: authenticate_session_def ClearString_eq credentials_wiped_def)

lemma read_settings_valid:
  assumes "read_settings dupenv = Some (auth_port, dataport, viewport, certificate_pin, client_version)"
  shows "valid_client_version client_version" "viewport \<noteq> 0" "dataport \<noteq> 0" "auth_port \<noteq> 0" "length certificate_pin = 32"
  using assms
  by (auto simp: read_settings_def Let_def bind_eq_Some_conv ParseCertificatePin_length split: if_splits
      dest!: ParsePort_nonzero)

lemma RevanaSetGuestTraceHooksEnabled_frame [simp]:
  "map_handoff (RevanaSetGuestTraceHooksEnabled b st) = map_handoff st"
  "bootstrap (RevanaSetGuestTraceHooksEnabled b st) = bootstrap st"
  "resolver (RevanaSetGuestTraceHooksEnabled b st) = resolver st"
  by (simp_all add: RevanaSetGuestTraceHooksEnabled_def Let_def)

lemma bridge_established_frame:
  "map_handoff st' = map_handoff st \<Longrightarrow> bootstrap st' = bootstrap st \<Longrightarrow>
     bridge_established s st' = bridge_established s st"
  by (simp add: bridge_established_def)

text \<open>What a configuration may leave.\<close>

definition configured_outcome ::
  "runtime_config \<Rightarrow> runtime \<Rightarrow> bool \<Rightarrow> runtime_config \<Rightarrow> lobby_bridge \<Rightarrow> runtime \<Rightarrow> bool" where
  "configured_outcome config st ok config' br' st' \<longleftrightarrow>
     (if ok then \<exists>s. shared_state br' = Some s \<and> network_hooks config' = Some s \<and> bridge_established s st'
      else shared_state br' = None \<and> config' = config \<and> bootstrap st' = bootstrap st \<and>
        (map_handoff st' = map_handoff st \<or> no_map_handoff (map_handoff st')))"

lemma Configure_returns:
  assumes ok: "bridge_services_ok sv digest budget" and map_ok: "map_globals_ok digest (map_handoff st)"
    and fresh: "shared_state br = None"
  shows "\<exists>ok config' br' st' n'. Configure sv config br st n = Some (ok, config', br', st', n') \<and>
    configured_outcome config st ok config' br' st'"
proof -
  have md5: "md5_service (crypt sv) digest" and tls: "tls_service (winsock_of sv) (schannel_of sv) budget"
    and json: "EncodeLoginAttempt (json_of sv) c \<noteq> None" for c
    using ok by (simp_all add: bridge_services_ok_def)
  let ?env = "ReadEnvironment (environment sv)"
  let ?br = "br\<lparr>state_trace_enabled := (?env ''REVANA_LOBBY_STATE_TRACE'' = Some ''1'')\<rparr>"
  have early: ?thesis if "Configure sv config br st n = Some (False, config, b, write_log l f as st, n')"
    "shared_state b = None" for b l f as n'
    using that by (simp add: configured_outcome_def ex_bool_eq)
  have early': ?thesis if "Configure sv config br st n = Some (False, config, br, st, n)"
    using that fresh by (simp add: configured_outcome_def ex_bool_eq)
  show ?thesis
  proof (cases "?env ''REVANA_LOBBY_HOST'' = None \<or> ?env ''REVANA_LOBBY_USERNAME'' = None \<or>
      ?env ''REVANA_LOBBY_PASSWORD'' = None \<or> read_settings (environment sv) = None")
    case True
    let ?some = "\<lambda>name. ?env name \<noteq> None"
    consider (none) "\<not> ?some ''REVANA_LOBBY_HOST''" "\<not> ?some ''REVANA_LOBBY_USERNAME''" "\<not> ?some ''REVANA_LOBBY_PASSWORD''"
      | (partly) "?some ''REVANA_LOBBY_HOST'' \<or> ?some ''REVANA_LOBBY_USERNAME'' \<or> ?some ''REVANA_LOBBY_PASSWORD''"
          "\<not> ?some ''REVANA_LOBBY_HOST'' \<or> \<not> ?some ''REVANA_LOBBY_USERNAME'' \<or> \<not> ?some ''REVANA_LOBBY_PASSWORD''"
      | (unset) "?some ''REVANA_LOBBY_HOST''" "?some ''REVANA_LOBBY_USERNAME''" "?some ''REVANA_LOBBY_PASSWORD''"
          "read_settings (environment sv) = None"
      using True by argo
    then show ?thesis
    proof cases
      case none
      then show ?thesis by (intro early') (simp add: Configure_def Let_def)
    next
      case partly
      then show ?thesis
        by (intro early [of ?br]) (use fresh in \<open>auto simp: Configure_def Let_def split: option.splits\<close>)
    next
      case unset
      then show ?thesis
        by (intro early [of ?br]) (use fresh in \<open>auto simp: Configure_def Let_def\<close>)
    qed
  next
    case False
    then obtain h u p where env: "?env ''REVANA_LOBBY_HOST'' = Some h" "?env ''REVANA_LOBBY_USERNAME'' = Some u"
      "?env ''REVANA_LOBBY_PASSWORD'' = Some p" by auto
    obtain auth_port dataport viewport pin version where
      settings: "read_settings (environment sv) = Some (auth_port, dataport, viewport, pin, version)"
      using False by (cases "read_settings (environment sv)") auto
    show ?thesis
    proof (cases "InetPtonA sv h")
      case None
      with env settings fresh show ?thesis by (intro early [of ?br]) (simp_all add: Configure_def Let_def)
    next
      case (Some address)
      let ?c = "\<lparr>username = u, password = p, otp = (case ?env ''REVANA_LOBBY_OTP'' of Some v \<Rightarrow> v | None \<Rightarrow> [])\<rparr>"
      let ?options = "\<lparr>port = auth_port, auth_timeout_ms = 10000,
           certificate_sha256 = (if list_ex (\<lambda>b. b \<noteq> 0) pin then Some pin else None)\<rparr>"
      obtain r n1 where auth: "Authenticate (winsock_of sv) (schannel_of sv) (json_of sv) h ?c ?options n = Some (r, n1)"
        using tls_service.Authenticate_returns [OF tls json, of h ?c ?options n] by (auto simp: returns_def)
      note session = authenticate_session_eq [OF auth]
      show ?thesis
      proof (cases r)
        case (Inl e)
        with env settings Some session fresh show ?thesis
          by (intro early [of ?br]) (simp_all add: Configure_def Let_def)
      next
        case (Inr session')
        have "length (session_hash session') = 16" using auth Inr by (auto intro: Authenticate_session)
        from establish_returns [OF md5 map_ok read_settings_valid(1) [OF settings] this read_settings_valid(2) [OF settings]]
        obtain established kept st1 n3 where
          e: "establish sv h address dataport viewport version session' st
              (n1\<lparr>calls := calls n1 @ credentials_wiped ?c\<rparr>) = Some (established, kept, st1, n3)"
          and outcome: "if established then \<exists>s. kept = Some s \<and> bridge_established s st1
            else kept = None \<and> no_map_handoff (map_handoff st1) \<and> bootstrap st1 = bootstrap st"
          by (metis (no_types, lifting))
        from outcome show ?thesis
          using env settings Some session Inr e
          by (cases established)
             (simp_all add: Configure_def Let_def configured_outcome_def ex_bool_eq cong: bridge_established_frame)
      qed
    qed
  qed
qed

section \<open>What the hooks do\<close>

lemma before_send_eq:
  assumes "length (session_hash (bridge_session s)) = 16" "length (bridge_client_version s) = 10"
  shows "\<exists>st' n'. before_send s caller peer bs (st, n) = Some
    (if recognised_lobby_packet bs peer (bridge_data_port s) (bridge_view_port s)
     then authenticated_packet bs (session_hash (bridge_session s)) (bridge_client_version s) else bs, st', n')"
proof (cases "recognised_lobby_packet bs peer (bridge_data_port s) (bridge_view_port s)")
  case True
  let ?out = "authenticated_packet bs (session_hash (bridge_session s)) (bridge_client_version s)"
  have l: "length ?out = length bs" by (rule authenticated_packet_length [OF True assms])
  with recognised_command_offset [OF True] obtain command where "ReadLe32 ?out 8 = Some command"
    by (simp add: ReadLe32_eq)
  with True l assms show ?thesis by (simp add: before_send_def PrepareLobbySend_eq copy_to_def)
next
  case False
  with assms show ?thesis by (simp add: before_send_def PrepareLobbySend_eq)
qed

text \<open>A guest's own view login.\<close>

definition is_view_login :: "bridge_state \<Rightarrow> u16 \<Rightarrow> bytes \<Rightarrow> bool" where
  "is_view_login s peer bs \<longleftrightarrow> peer = bridge_view_port s \<and> length bs = 152 \<and> ReadLe32 bs 8 = Some 0x26"

lemma consume_send_eq:
  "\<exists>st'. consume_send s caller peer bs st = Some
     (is_view_login s peer bs \<and> bootstrap_view_login_pending s,
      if is_view_login s peer bs then s\<lparr>bootstrap_view_login_pending := False\<rparr> else s, st')"
proof (cases "peer = bridge_view_port s \<and> length bs = 152")
  case True
  then obtain command where "ReadLe32 bs 8 = Some command" by (simp add: ReadLe32_eq)
  with True show ?thesis by (cases "command = 0x26") (auto simp: consume_send_def is_view_login_def Let_def)
next
  case False
  then show ?thesis by (auto simp: consume_send_def is_view_login_def)
qed

text \<open>
  A run of the hooks: the guest connects and sends, and data coordinations that were started end, in any
  order and in any state of the rest of the program.  \<open>active\<close> counts the coordinations that run.
\<close>

datatype bridge_event =
    Connected xsockaddr xsockaddr
  | GuestSent u16 bytes bool
  | Coordinated

inductive bridge_run :: "'w winsock \<Rightarrow> bridge_state \<Rightarrow> bridge_state \<Rightarrow> nat \<Rightarrow> bridge_event list \<Rightarrow> bool" for ws s0 where
  Start: "bridge_run ws s0 s0 0 []"
| Connect: "bridge_run ws s0 s active es \<Longrightarrow> before_connect s caller a len st = (s', a', started, st') \<Longrightarrow>
    bridge_run ws s0 s' (if started then Suc active else active) (es @ [Connected a a'])"
| Send: "bridge_run ws s0 s active es \<Longrightarrow> consume_send s caller peer bs st = Some (consumed, s', st') \<Longrightarrow>
    bridge_run ws s0 s' active (es @ [GuestSent peer bs consumed])"
| Finish: "bridge_run ws s0 s (Suc active) es \<Longrightarrow> coordinate_data ws s st n = Some (s', st', n') \<Longrightarrow>
    bridge_run ws s0 s' active (es @ [Coordinated])"

text \<open>The view logins of the guest that were taken out, among all its view logins.\<close>

fun view_logins :: "bridge_state \<Rightarrow> bridge_event list \<Rightarrow> bool list" where
  "view_logins s [] = []"
| "view_logins s (GuestSent peer bs consumed # es) =
     (if is_view_login s peer bs then consumed # view_logins s es else view_logins s es)"
| "view_logins s (_ # es) = view_logins s es"

lemma view_logins_append [simp]: "view_logins s (es @ fs) = view_logins s es @ view_logins s fs"
  by (induction es rule: view_logins.induct) simp_all

text \<open>Nothing but the two flags of a state ever changes.\<close>

definition same_session :: "bridge_state \<Rightarrow> bridge_state \<Rightarrow> bool" where
  "same_session s0 s \<longleftrightarrow>
     (\<exists>d b. s = s0\<lparr>data_coordination_started := d, bootstrap_view_login_pending := b\<rparr>)"

lemma same_session_refl: "same_session s s"
  unfolding same_session_def
  by (intro exI [of _ "data_coordination_started s"] exI [of _ "bootstrap_view_login_pending s"]) simp

lemma same_session_update:
  assumes "same_session s0 s"
  shows "same_session s0 (s\<lparr>data_coordination_started := d\<rparr>)" "same_session s0 (s\<lparr>bootstrap_view_login_pending := b\<rparr>)"
proof -
  from assms obtain d0 b0 where "s = s0\<lparr>data_coordination_started := d0, bootstrap_view_login_pending := b0\<rparr>"
    by (auto simp: same_session_def)
  then have "s\<lparr>data_coordination_started := d\<rparr> = s0\<lparr>data_coordination_started := d, bootstrap_view_login_pending := b0\<rparr>"
    "s\<lparr>bootstrap_view_login_pending := b\<rparr> = s0\<lparr>data_coordination_started := d0, bootstrap_view_login_pending := b\<rparr>"
    by simp_all
  then show "same_session s0 (s\<lparr>data_coordination_started := d\<rparr>)" "same_session s0 (s\<lparr>bootstrap_view_login_pending := b\<rparr>)"
    unfolding same_session_def by blast+
qed

lemma same_session_fields:
  assumes "same_session s0 s"
  shows "bridge_view_port s = bridge_view_port s0" "bridge_ipv4 s = bridge_ipv4 s0"
    "is_view_login s peer bs = is_view_login s0 peer bs"
  using assms by (auto simp: same_session_def is_view_login_def)

lemma before_connect_cases:
  assumes "before_connect s caller a len st = (s', a', started, st')"
  obtains (passed) "s' = s" "a' = a" "\<not> started"
    | (redirected) "address_family a = 2" "sin_port a = bridge_view_port s" "a' = a\<lparr>sin_addr := bridge_ipv4 s\<rparr>"
        "s' = s\<lparr>data_coordination_started := True\<rparr>" "started = (\<not> data_coordination_started s)"
proof (cases "address_family a \<noteq> 2 \<or> (word_of_int len :: u64) < 16 \<or> sin_port a \<noteq> bridge_view_port s")
  case True
  with assms have "s' = s \<and> a' = a \<and> \<not> started" unfolding before_connect_def by (auto split: if_splits)
  with passed show thesis by blast
next
  case False
  with assms show thesis by (intro redirected) (simp_all add: before_connect_def Let_def)
qed

definition bridge_run_ok :: "bridge_state \<Rightarrow> bridge_state \<Rightarrow> nat \<Rightarrow> bridge_event list \<Rightarrow> bool" where
  "bridge_run_ok s0 s active es \<longleftrightarrow>
     same_session s0 s \<and> active \<le> 1 \<and> data_coordination_started s = (active = 1) \<and>
     (if bootstrap_view_login_pending s then view_logins s0 es = []
      else \<exists>k. view_logins s0 es = True # replicate k False) \<and>
     (\<forall>a a'. Connected a a' \<in> set es \<longrightarrow>
        a' = a \<or> address_family a = 2 \<and> sin_port a = bridge_view_port s0 \<and> a' = a\<lparr>sin_addr := bridge_ipv4 s0\<rparr>)"

lemma bridge_run_invariant:
  assumes "bridge_run ws s0 s active es" "\<not> data_coordination_started s0" "bootstrap_view_login_pending s0"
  shows "bridge_run_ok s0 s active es"
  using assms(1)
proof induction
  case Start
  with assms(2,3) show ?case by (simp add: bridge_run_ok_def same_session_refl)
next
  case (Connect s active es caller a len st s' a' started st')
  from Connect(2) show ?case
  proof (cases rule: before_connect_cases)
    case passed
    with Connect.IH show ?thesis by (auto simp: bridge_run_ok_def)
  next
    case redirected
    from Connect.IH have ih: "same_session s0 s" "active \<le> 1" "data_coordination_started s = (active = 1)"
      by (simp_all add: bridge_run_ok_def)
    note fields = same_session_fields [OF ih(1)]
    from Connect.IH ih redirected fields show ?thesis
      by (auto simp: bridge_run_ok_def same_session_update)
  qed
next
  case (Send s active es caller peer bs st consumed s' st')
  from Send.IH have ih: "same_session s0 s" by (simp add: bridge_run_ok_def)
  note fields = same_session_fields [OF ih]
  obtain st2 where "consume_send s caller peer bs st = Some (is_view_login s peer bs \<and> bootstrap_view_login_pending s,
      if is_view_login s peer bs then s\<lparr>bootstrap_view_login_pending := False\<rparr> else s, st2)"
    using consume_send_eq by blast
  with Send(2) have c: "consumed = (is_view_login s0 peer bs \<and> bootstrap_view_login_pending s)"
    and s': "s' = (if is_view_login s0 peer bs then s\<lparr>bootstrap_view_login_pending := False\<rparr> else s)"
    by (simp_all add: fields)
  have "\<exists>k'. (True # replicate k False) @ [False] = True # replicate k' False" for k
    by (intro exI [of _ "Suc k"]) (simp add: replicate_append_same)
  moreover have "\<exists>k. [True] = True # replicate k False" by (intro exI [of _ 0]) simp
  ultimately show ?case using Send.IH
    by (cases "is_view_login s0 peer bs"; cases "bootstrap_view_login_pending s")
       (auto simp: bridge_run_ok_def c s' same_session_update)
next
  case (Finish s active es st n s' st' n')
  then have "s' = s\<lparr>data_coordination_started := False\<rparr>"
    by (auto simp: coordinate_data_def bind_eq_Some_conv)
  with Finish.IH show ?case by (auto simp: bridge_run_ok_def same_session_update)
qed

definition wipes :: "net_call list \<Rightarrow> bool" where
  "wipes cs \<longleftrightarrow> list_all (\<lambda>c. case c of SecureZeroMemory k \<Rightarrow> True | _ \<Rightarrow> False) cs"

lemma establish_calls:
  assumes "establish sv hostname address dataport viewport client_version session st n = Some (ok, kept, st', n')"
  shows "\<exists>cs. calls n' = calls n @ cs \<and> wipes cs"
proof -
  have destroyed: "\<exists>cs. calls n' = calls n @ cs \<and> wipes cs" if "destroy_state s st1 n = (st2, n')" for s st1 st2
    using that by (auto simp: destroy_state_def Let_def secure_zero_def called_def wipes_def)
  have zeroed: "\<exists>cs. calls (secure_zero k n) = calls n @ cs \<and> wipes cs" for k
    by (simp add: secure_zero_def called_def wipes_def)
  obtain generated key where g: "GenerateMapSessionKey (random_bytes sv) (replicate 20 0) = (generated, key)" by fastforce
  obtain configured st1 where c: "configure_map_key (crypt sv) key st = (configured, st1)" by fastforce
  obtain reachable st2 where e: "configure_map_endpoint (ntohl address) dataport st1 = (reachable, st2)" by fastforce
  show ?thesis
  proof (cases "generated \<and> configured \<and> reachable")
    case True
    with assms g c e obtain view_login armed st3 where
      "MakeViewLogin (session_hash session) (map of_char client_version) = Some view_login"
      "RevanaConfigureDirectLobbyViewBootstrap viewport (Some view_login) st2 = (armed, st3)"
      "n' = secure_zero (length view_login) n"
      by (cases "MakeViewLogin (session_hash session) (map of_char client_version)")
         (auto simp: establish_def Let_def split: prod.splits if_splits)
    with zeroed show ?thesis by simp
  next
    case False
    with assms g c e show ?thesis
      by (cases generated; cases configured) (auto simp: establish_def Let_def split: prod.splits intro: destroyed)
  qed
qed

section \<open>Properties of the bridge\<close>


definition sample_environment :: dupenv where
  "sample_environment name = (False, map_of
     [(''REVANA_LOBBY_HOST'', ''127.0.0.1''), (''REVANA_LOBBY_USERNAME'', ''u''), (''REVANA_LOBBY_PASSWORD'', ''p''),
      (''REVANA_LOBBY_CLIENT_VERSION'', ''30091005_0'')] name)"

definition sample_bridge_services :: "peer bridge_services" where
  "sample_bridge_services =
     \<lparr>environment = sample_environment, InetPtonA = (\<lambda>s. if s = ''127.0.0.1'' then Some 0x0100007F else None),
      winsock_of = scripted, schannel_of = scripted_tls, json_of = sample_library\<lparr>json_dump := \<lambda>_. Some ''{}''\<rparr>,
      random_bytes = (\<lambda>key. (True, replicate (length key) 5)), crypt = bcrypt_md5\<rparr>"

definition sample_bridge :: lobby_bridge where
  "sample_bridge = \<lparr>shared_state = None, state_trace_enabled = False\<rparr>"

definition sample_config :: runtime_config where
  "sample_config = \<lparr>network_hooks = None, gpu_plugin = ''xenos''\<rparr>"

lemma sample_bridge_services_ok: "bridge_services_ok sample_bridge_services md5 (\<lambda>w. length (incoming w))"
  by (simp add: bridge_services_ok_def sample_bridge_services_def rfc1321.md5_service_axioms
      scripted_tls.tls_service_axioms EncodeLoginAttempt_def)



lemma sample_settings:
  "read_settings sample_environment = Some (54231, 54230, 54001, replicate 32 0, ''30091005_0'')"
  by (simp add: read_settings_def ReadEnvironment_def sample_environment_def ParsePort_def ParseCertificatePin_def
      valid_client_version_def Let_def)


text \<open>
  C13: over any run of the network hooks, with data coordinations ending at any time, at most one
  coordination runs, exactly one view login of the guest is consumed (the first, in place of the one
  the bootstrap sent), every later one goes through, and a connect changes an address only by pointing
  an IPv4 connection to the view port at the configured lobby; the session, keys and ports of the
  state never change.
\<close>

theorem bridge_hooks_invariant:
  assumes "bridge_run ws s0 s active es" "\<not> data_coordination_started s0" "bootstrap_view_login_pending s0"
  shows "active \<le> 1 \<and> data_coordination_started s = (active = 1) \<and>
    (case view_logins s0 es of [] \<Rightarrow> bootstrap_view_login_pending s
     | first # later \<Rightarrow> first \<and> list_all Not later \<and> \<not> bootstrap_view_login_pending s) \<and>
    (\<forall>a a'. Connected a a' \<in> set es \<longrightarrow>
       a' = a \<or> address_family a = 2 \<and> sin_port a = bridge_view_port s0 \<and> a' = a\<lparr>sin_addr := bridge_ipv4 s0\<rparr>) \<and>
    bridge_session s = bridge_session s0 \<and> bridge_map_key s = bridge_map_key s0 \<and> bridge_ipv4 s = bridge_ipv4 s0 \<and>
    bridge_data_port s = bridge_data_port s0 \<and> bridge_view_port s = bridge_view_port s0"
  using bridge_run_invariant [OF assms]
  by (auto simp: bridge_run_ok_def same_session_def list_all_iff split: if_splits)

definition sample_bridge_state :: bridge_state where
  "sample_bridge_state = \<lparr>bridge_host = ''127.0.0.1'', bridge_session = sample_session, bridge_map_key = replicate 20 5,
     bridge_ipv4 = 0x7F000001, bridge_data_port = 54230, bridge_view_port = 54001,
     bridge_client_version = replicate 10 48, data_coordination_started = False, bootstrap_view_login_pending = True\<rparr>"

theorem bridge_hooks_invariant_witness:
  "\<exists>s es. bridge_run scripted sample_bridge_state s 1 es \<and>
     Connected \<lparr>address_family = 2, sin_port = 54001, sin_addr = 0\<rparr>
       \<lparr>address_family = 2, sin_port = 54001, sin_addr = 0x7F000001\<rparr> \<in> set es \<and> data_coordination_started s"
proof -
  let ?a = "\<lparr>address_family = 2, sin_port = 54001, sin_addr = 0\<rparr>"
  let ?a' = "\<lparr>address_family = 2, sin_port = 54001, sin_addr = 0x7F000001\<rparr>"
  obtain s' st' where "before_connect sample_bridge_state 0 ?a 16 (sample_runtime (\<lambda>_. 0) initial_map_globals) = (s', ?a', True, st')"
    by (simp add: before_connect_def sample_bridge_state_def)
  from bridge_run.Connect [OF bridge_run.Start this, where ws = scripted]
  have run: "bridge_run scripted sample_bridge_state s' 1 [Connected ?a ?a']" by simp
  have "data_coordination_started s' = (1 = (1 :: nat))"
    using bridge_hooks_invariant [OF run] by (simp add: sample_bridge_state_def)
  with run show ?thesis by (intro exI [of _ s'] exI [of _ "[Connected ?a ?a']"]) simp
qed

definition lobby_hosts :: "string list" where
  "lobby_hosts = ''pp000.pol.com'' #
     map (\<lambda>k. ''ffxi'' @ [char_of (48 + k div 10), char_of (48 + k mod 10)] @ ''.pol.com'') [0..<100]"

lemma numbered_host_iff:
  "(\<exists>k < (100 :: nat). hostname = ''ffxi'' @ [char_of (48 + k div 10), char_of (48 + k mod 10)] @ ''.pol.com'') \<longleftrightarrow>
     length hostname = 14 \<and> take 4 hostname = ''ffxi'' \<and> drop 6 hostname = ''.pol.com'' \<and>
     of_char (hostname ! 4) \<in> {48..57 :: nat} \<and> of_char (hostname ! 5) \<in> {48..57 :: nat}" (is "?l \<longleftrightarrow> ?r")
proof
  assume ?l
  then obtain k :: nat where k: "k < 100" "hostname = ''ffxi'' @ [char_of (48 + k div 10), char_of (48 + k mod 10)] @ ''.pol.com''"
    by blast
  then have "48 + k div 10 < 256" "48 + k mod 10 < 256" "k div 10 \<le> 9" "k mod 10 \<le> 9" by simp_all
  then show ?r by (simp add: k(2) of_char_of)
next
  assume r: ?r
  define a b where "a = (of_char (hostname ! 4) - 48 :: nat)" and "b = (of_char (hostname ! 5) - 48 :: nat)"
  from r have "a \<le> 9" "b \<le> 9" "of_char (hostname ! 4) = 48 + a" "of_char (hostname ! 5) = 48 + b" by (auto simp: a_def b_def)
  then have c: "hostname ! 4 = char_of (48 + a)" "hostname ! 5 = char_of (48 + b)" by (metis char_of_char)+
  have "hostname = take 4 hostname @ [hostname ! 4, hostname ! 5] @ drop 6 hostname"
    using r Cons_nth_drop_Suc [of 4 hostname] Cons_nth_drop_Suc [of 5 hostname] append_take_drop_id [of 4 hostname]
    by (simp add: eval_nat_numeral)
  then have "hostname = ''ffxi'' @ [char_of (48 + a), char_of (48 + b)] @ ''.pol.com''" using r c by simp
  with \<open>a \<le> 9\<close> \<open>b \<le> 9\<close> show ?l by (intro exI [of _ "10 * a + b"]) simp
qed

text \<open>
  C40: the names the bridge answers are \<^verbatim>\<open>pp000.pol.com\<close> and the hundred \<^verbatim>\<open>ffxi00.pol.com\<close> to
  \<^verbatim>\<open>ffxi99.pol.com\<close>, all with the configured address; every other name is left to the system.
\<close>

theorem lobby_hosts_exact:
  "resolve_ipv4 s hostname = (if hostname \<in> set lobby_hosts then Some (bridge_ipv4 s) else None)"
proof -
  have "hostname \<in> set lobby_hosts \<longleftrightarrow> hostname = ''pp000.pol.com'' \<or>
      (\<exists>k < (100 :: nat). hostname = ''ffxi'' @ [char_of (48 + k div 10), char_of (48 + k mod 10)] @ ''.pol.com'')"
    unfolding lobby_hosts_def by auto
  moreover have l: "length ''ffxi'' = 4" "length ''.pol.com'' = 8" by simp_all
  ultimately show ?thesis unfolding numbered_host_iff resolve_ipv4_def Let_def l by simp
qed

end
