(* ===== verification/Revana_App.thy ===== *)
theory Revana_App
  imports State_Trace Lobby_Bridge Pol_Resolver
begin

text \<open>
  The application of \<^verbatim>\<open>src/app.h\<close>: where user data lives, what is configured before the runtime starts,
  what is registered once the title is loaded, and what is stopped at the end.  The application class it
  derives from, the kernel and the file system are parts of the SDK; what they are asked is recorded.
\<close>

section \<open>Start-up flags and paths\<close>

text \<open>\<^verbatim>\<open>size\<close> counts the terminator: the value must be the one character \<^verbatim>\<open>1\<close>.\<close>

definition RevanaFlagRequested :: "dupenv \<Rightarrow> string \<Rightarrow> bool" where
  "RevanaFlagRequested dupenv name =
     (case dupenv name of (failed, value) \<Rightarrow>
        if failed then False
        else (case value of None \<Rightarrow> False | Some v \<Rightarrow> length v + 1 = 2 \<and> (v @ [CHR 0x00]) ! 0 = CHR ''1''))"

text \<open>The copy of it in \<^verbatim>\<open>revana_hooks.cpp\<close>, and the switches read when that module is loaded.\<close>

definition EnvironmentFlagRequested :: "dupenv \<Rightarrow> string \<Rightarrow> bool" where
  "EnvironmentFlagRequested dupenv name =
     (case dupenv name of (failed, value) \<Rightarrow>
        if failed then False
        else (case value of None \<Rightarrow> False | Some v \<Rightarrow> length v + 1 = 2 \<and> (v @ [CHR 0x00]) ! 0 = CHR ''1''))"

definition load_hook_flags :: "dupenv \<Rightarrow> hook_flags" where
  "load_hook_flags dupenv =
     \<lparr>kSynthesizePostSelectionDescriptors =
        EnvironmentFlagRequested dupenv ''REVANA_EXPERIMENTAL_POST_SELECTION_DESCRIPTORS'',
      kSkipPostSelectionServiceFailure =
        EnvironmentFlagRequested dupenv ''REVANA_EXPERIMENTAL_SKIP_POST_SELECTION_SERVICE_FAILURE'',
      kRestoreWorldLoginCharacterId =
        EnvironmentFlagRequested dupenv ''REVANA_EXPERIMENTAL_RESTORE_WORLD_LOGIN_CHARACTER_ID''\<rparr>"

text \<open>A path is the list of its elements; \<^verbatim>\<open>/\<close> appends one.\<close>

type_synonym path = "string list"

record path_config =
  user_data_root :: path
  cache_root :: path

definition OnConfigurePaths :: "path \<Rightarrow> string \<Rightarrow> path_config \<Rightarrow> path_config" where
  "OnConfigurePaths user_folder name paths =
     (let legacy_user_root = user_folder @ [name] in
      if user_data_root paths \<noteq> legacy_user_root then paths
      else
        let user_root = user_folder @ [''My Games'', ''REVana360''];
            paths = (if cache_root paths = legacy_user_root @ [''cache'']
                     then paths\<lparr>cache_root := user_root @ [''cache'']\<rparr> else paths)
        in paths\<lparr>user_data_root := user_root\<rparr>)"

section \<open>Before the runtime starts\<close>

text \<open>
  The first result is the variable \<^verbatim>\<open>guest_network_enabled\<close>.  Reading the address of a bridge that has none
  would be undefined: \<open>None\<close>.
\<close>

definition OnPreSetup ::
  "'w bridge_services \<Rightarrow> runtime_config \<Rightarrow> lobby_bridge \<Rightarrow> runtime \<Rightarrow> 'w net
     \<Rightarrow> (bool \<times> runtime_config \<times> lobby_bridge \<times> runtime \<times> 'w net) option" where
  "OnPreSetup sv config br st n = do {
     let st = RevanaConfigureDirectPolUiRegistrationStub st;
     let guest_network_enabled = False;
     (configured, config, br, st, n) \<leftarrow> Configure sv config br st n;
     (guest_network_enabled, st) \<leftarrow>
       (if configured
        then do {
          ipv4 \<leftarrow> configured_ipv4 br;
          Some (True, RevanaConfigureDirectPolResolver ipv4 st)
        }
        else Some (guest_network_enabled, st));
     let st = RevanaSetGuestTraceHooksEnabled (RevanaFlagRequested (environment sv) ''REVANA_TRACE_STARTUP'') st;
     Some (guest_network_enabled, config\<lparr>gpu_plugin := ''xenos''\<rparr>, br, st, n)
   }"

definition OnPostInitLogging :: "string \<Rightarrow> runtime \<Rightarrow> runtime" where
  "OnPostInitLogging summary st = REXLOG_INFO ''{}'' [T summary] st"

definition OnLoadXexImage :: "string \<Rightarrow> string" where
  "OnLoadXexImage xex_image = ''game:'' @ CHR 0x5C # ''PlayOnline'' @ CHR 0x5C # ''GameExecContent0001.xex''"

section \<open>Once the title is loaded\<close>

text \<open>
  \<open>content_name\<close> is the name last given to \<^verbatim>\<open>set_file_name\<close>; the kernel answers each registration, with
  all earlier ones in view.
\<close>

record aggregate_data =
  device_id :: u32
  content_type :: u32
  content_name :: string
  title_id :: u32
  xuid :: u64

datatype kernel_call =
    RegisterExternalContent u64 aggregate_data path
  | RegisterSymbolicLink string string

record kernel_services =
  register_result :: "kernel_call list \<Rightarrow> kernel_call \<Rightarrow> u32"
  XFAILED :: "u32 \<Rightarrow> bool"
  profile_xuid :: u64
  kPublisher :: u32
  kCurrentlyRunningTitleId :: u32

type_synonym kernel = "kernel_call list \<times> runtime"

definition register_content :: "kernel_services \<Rightarrow> aggregate_data \<Rightarrow> path \<Rightarrow> kernel_call list \<Rightarrow> u32 \<times> kernel_call list" where
  "register_content ks content location cs =
     (let call = RegisterExternalContent (profile_xuid ks) content location
      in (register_result ks cs call, cs @ [call]))"

definition package_names :: "string list" where
  "package_names = [''R000101'', ''R000102'', ''R000103'', ''R000104'', ''R000105'', ''R000106'', ''R000107'', ''R000108'',
     ''R000109'', ''R000110'', ''R000111'']"

definition register_package :: "kernel_services \<Rightarrow> path \<Rightarrow> aggregate_data \<Rightarrow> string \<Rightarrow> kernel \<Rightarrow> kernel" where
  "register_package ks game_data_root content package_name = (\<lambda>(cs, st).
     let content = content\<lparr>content_name := package_name\<rparr>;
         (package_result, cs) = register_content ks content (game_data_root @ [package_name]) cs
     in (cs, if XFAILED ks package_result
             then REXLOG_ERROR ''Failed to register read-only 2009 FFXI content package {}: {:08X}''
                    [T package_name, W package_result] st
             else REXLOG_INFO ''Registered read-only 2009 FFXI content package {}'' [T package_name] st))"

definition device :: "string list \<Rightarrow> string" where
  "device elements = concat (map (\<lambda>e. CHR 0x5C # e) ([''Device'', ''Harddisk0'', ''Partition1''] @ elements))"

definition symbolic_links :: "(string \<times> string) list" where
  "symbolic_links =
     [(''100000:'', device [''PlayOnline'']), (''NOSYS:'', device [''PlayOnline'']),
      (''NOUSR:'', device [''PlayOnline'', ''user'']), (''000000:'', device [''0001'']), (''cdrom0:'', device [])]"

text \<open>The last result: whether the state trace was started.\<close>

definition OnPostLoadXexImage ::
  "kernel_services \<Rightarrow> path \<Rightarrow> lobby_bridge \<Rightarrow> bool \<Rightarrow> runtime \<Rightarrow> kernel_call list \<times> runtime \<times> bool" where
  "OnPostLoadXexImage ks game_data_root br joinable st =
     (let content = \<lparr>device_id = 1, content_type = kPublisher ks, content_name = ''R000100'',
            title_id = kCurrentlyRunningTitleId ks, xuid = 0\<rparr>;
          (content_result, cs) = register_content ks content (game_data_root @ [''0001'']) [];
          st = (if XFAILED ks content_result
                then REXLOG_ERROR ''Failed to register read-only 2009 FFXI content package: {:08X}'' [W content_result] st
                else st);
          (cs, st) = fold (register_package ks game_data_root content) package_names (cs, st);
          cs = cs @ map (\<lambda>(link, target). RegisterSymbolicLink link target) symbolic_links
      in (cs, st, StartStateTrace (state_trace_enabled br) True joinable))"

definition OnShutdown :: "bool \<Rightarrow> runtime \<Rightarrow> bool \<times> runtime" where
  "OnShutdown joinable st = StopStateTrace joinable st"

section \<open>What the set-up leaves\<close>

lemma RevanaFlagRequested_iff: "RevanaFlagRequested dupenv name \<longleftrightarrow> dupenv name = (False, Some ''1'')"
  by (auto simp: RevanaFlagRequested_def nth_Cons' length_Suc_conv split: prod.splits option.splits)

lemma flags_agree: "EnvironmentFlagRequested = RevanaFlagRequested"
  by (intro ext) (simp only: EnvironmentFlagRequested_def RevanaFlagRequested_def)

lemma register_package_calls:
  "fst (fold (register_package ks root content) names (cs, st)) =
     cs @ map (\<lambda>name. RegisterExternalContent (profile_xuid ks) (content\<lparr>content_name := name\<rparr>) (root @ [name])) names"
  by (induction names arbitrary: cs st) (simp_all add: register_package_def register_content_def Let_def)


lemma establish_resolver:
  "establish sv h a dp vp cv session st n = Some (ok, kept, st', n') \<Longrightarrow> resolver st' = resolver st"
  by (auto simp: establish_def configure_map_key_def configure_map_endpoint_def destroy_state_def Let_def bind_eq_Some_conv
      RevanaConfigureDirectLobbyViewBootstrap_def split: prod.splits if_splits option.splits)

lemma case_sum_Some:
  "(case s of Inl e \<Rightarrow> f e | Inr x \<Rightarrow> g x) = Some y \<longleftrightarrow>
     (\<exists>e. s = Inl e \<and> f e = Some y) \<or> (\<exists>x. s = Inr x \<and> g x = Some y)"
  by (cases s) auto

lemma Configure_resolver:
  "Configure sv config br st n = Some (ok, config', br', st', n') \<Longrightarrow> resolver st' = resolver st"
  by (auto simp: Configure_def Let_def bind_eq_Some_conv case_sum_Some
      dest: establish_resolver split: prod.splits if_splits option.splits)



text \<open>
  Loading the title asks the kernel for the same things whatever it answers: the twelve content packages,
  each under the signed-in user and from its own directory, and then the five links, in that order.  The
  state trace starts exactly when the bridge asked for it and it is not running.
\<close>

lemma post_load_registers_everything:
  "OnPostLoadXexImage ks root br joinable st = (cs, st', started) \<Longrightarrow>
     cs = map (\<lambda>(name, directory). RegisterExternalContent (profile_xuid ks)
            \<lparr>device_id = 1, content_type = kPublisher ks, content_name = name,
             title_id = kCurrentlyRunningTitleId ks, xuid = 0\<rparr> (root @ [directory]))
          ((''R000100'', ''0001'') # map (\<lambda>name. (name, name)) package_names) @
        map (\<lambda>(link, target). RegisterSymbolicLink link target) symbolic_links \<and>
     started = (state_trace_enabled br \<and> \<not> joinable)"
  by (auto simp: OnPostLoadXexImage_def register_content_def Let_def StartStateTrace_def comp_def
      prod_eq_iff register_package_calls split: prod.splits dest: arg_cong [where f = fst])

end
