(* ===== verification/Trace_Cells.thy ===== *)
theory Trace_Cells
  imports Pol_Resolver
begin

text \<open>
  What the trace hooks of \<^verbatim>\<open>src/runtime/revana_hooks.cpp\<close> share: the early return when tracing is off,
  the gate with its budget of events, the atomic exchange that suppresses repeated observations, and the
  counters that bound a hook's own lines.  A hook's atomic global is a \<open>cell\<close> of the runtime; the locale
  \<open>runtime_cell\<close> is what an atomic variable promises.
\<close>

section \<open>Early returns and the gate\<close>

text \<open>\<^verbatim>\<open>if (!g_guest_trace_hooks_enabled.load()) return;\<close> before a body, and \<^verbatim>\<open>if (GuestTraceHooksEnabled())\<close> around one.\<close>

definition when_tracing :: "(runtime \<Rightarrow> runtime) \<Rightarrow> runtime \<Rightarrow> runtime" where
  "when_tracing body st = (if \<not> hooks_enabled (trace st) then st else body st)"

definition gated :: "(runtime \<Rightarrow> runtime) \<Rightarrow> runtime \<Rightarrow> runtime" where
  "gated body st = (case GuestTraceHooksEnabled st of (enabled, st) \<Rightarrow> if enabled then body st else st)"

text \<open>The loads of the hooks; \<open>load_word_or_zero\<close> is the variant that does not follow a null address.\<close>

definition load_byte :: "rex_memory \<Rightarrow> runtime \<Rightarrow> u32 \<Rightarrow> u8" where
  "load_byte rm st address = host st (TranslateVirtual rm address)"

definition load_half :: "rex_memory \<Rightarrow> runtime \<Rightarrow> u32 \<Rightarrow> u16" where
  "load_half rm st address = load_and_swap16 rm (host st) (TranslateVirtual rm address)"

definition load_word_or_zero :: "rex_memory \<Rightarrow> runtime \<Rightarrow> u32 \<Rightarrow> u32" where
  "load_word_or_zero rm st address = (if address = 0 then 0 else load_word rm st address)"

section \<open>Cells\<close>

record 'a cell =
  get_cell :: "runtime \<Rightarrow> 'a"
  put_cell :: "'a \<Rightarrow> runtime \<Rightarrow> runtime"

text \<open>\<^verbatim>\<open>if (cell.exchange(v) == v) return;\<close> and \<^verbatim>\<open>if (cell.fetch_add(1) >= limit) return;\<close> before a body.\<close>

definition observing :: "'a cell \<Rightarrow> 'a \<Rightarrow> (runtime \<Rightarrow> runtime) \<Rightarrow> runtime \<Rightarrow> runtime" where
  "observing c v body st =
     (let seen = get_cell c st; st = put_cell c v st in if seen = v then st else body st)"

definition counting :: "u32 cell \<Rightarrow> u32 \<Rightarrow> (runtime \<Rightarrow> runtime) \<Rightarrow> runtime \<Rightarrow> runtime" where
  "counting c limit body st =
     (let index = get_cell c st; st = put_cell c (index + 1) st in if limit \<le> index then st else body st)"

text \<open>The cells.\<close>

definition config_handshake_cell :: "u64 cell" where
  "config_handshake_cell = \<lparr>get_cell = \<lambda>st. config_handshake_state (observed st),
     put_cell = \<lambda>v st. st\<lparr>observed := (observed st)\<lparr>config_handshake_state := v\<rparr>\<rparr>\<rparr>"

definition config_service_cell :: "u64 cell" where
  "config_service_cell = \<lparr>get_cell = \<lambda>st. config_service_state (observed st),
     put_cell = \<lambda>v st. st\<lparr>observed := (observed st)\<lparr>config_service_state := v\<rparr>\<rparr>\<rparr>"

definition config_parser_cell :: "u64 cell" where
  "config_parser_cell = \<lparr>get_cell = \<lambda>st. config_parser_state (observed st),
     put_cell = \<lambda>v st. st\<lparr>observed := (observed st)\<lparr>config_parser_state := v\<rparr>\<rparr>\<rparr>"

definition config_transfer_cell :: "u64 cell" where
  "config_transfer_cell = \<lparr>get_cell = \<lambda>st. config_transfer_state (observed st),
     put_cell = \<lambda>v st. st\<lparr>observed := (observed st)\<lparr>config_transfer_state := v\<rparr>\<rparr>\<rparr>"

definition service_open_cell :: "u64 cell" where
  "service_open_cell = \<lparr>get_cell = \<lambda>st. post_selection_service_open_result (observed st),
     put_cell = \<lambda>v st. st\<lparr>observed := (observed st)\<lparr>post_selection_service_open_result := v\<rparr>\<rparr>\<rparr>"

definition service_poll_cell :: "u64 cell" where
  "service_poll_cell = \<lparr>get_cell = \<lambda>st. post_selection_service_poll_result (observed st),
     put_cell = \<lambda>v st. st\<lparr>observed := (observed st)\<lparr>post_selection_service_poll_result := v\<rparr>\<rparr>\<rparr>"

definition association_open_cell :: "u64 cell" where
  "association_open_cell = \<lparr>get_cell = \<lambda>st. post_selection_association_open_result (observed st),
     put_cell = \<lambda>v st. st\<lparr>observed := (observed st)\<lparr>post_selection_association_open_result := v\<rparr>\<rparr>\<rparr>"

definition association_poll_cell :: "u64 cell" where
  "association_poll_cell = \<lparr>get_cell = \<lambda>st. post_selection_association_poll_result (observed st),
     put_cell = \<lambda>v st. st\<lparr>observed := (observed st)\<lparr>post_selection_association_poll_result := v\<rparr>\<rparr>\<rparr>"

definition phase6_cell :: "u32 cell" where
  "phase6_cell = \<lparr>get_cell = \<lambda>st. phase6_readiness_flags (observed st),
     put_cell = \<lambda>v st. st\<lparr>observed := (observed st)\<lparr>phase6_readiness_flags := v\<rparr>\<rparr>\<rparr>"

definition zone_load_cell :: "u64 cell" where
  "zone_load_cell = \<lparr>get_cell = \<lambda>st. zone_load_sequence_state (observed st),
     put_cell = \<lambda>v st. st\<lparr>observed := (observed st)\<lparr>zone_load_sequence_state := v\<rparr>\<rparr>\<rparr>"

definition gameplay_cell :: "u64 cell" where
  "gameplay_cell = \<lparr>get_cell = \<lambda>st. gameplay_frame_return (observed st),
     put_cell = \<lambda>v st. st\<lparr>observed := (observed st)\<lparr>gameplay_frame_return := v\<rparr>\<rparr>\<rparr>"

definition world_network_cell :: "u64 cell" where
  "world_network_cell = \<lparr>get_cell = \<lambda>st. world_network_state (observed st),
     put_cell = \<lambda>v st. st\<lparr>observed := (observed st)\<lparr>world_network_state := v\<rparr>\<rparr>\<rparr>"

definition packet_dequeue_cell :: "u32 cell" where
  "packet_dequeue_cell = \<lparr>get_cell = \<lambda>st. world_packet_dequeue_result (observed st),
     put_cell = \<lambda>v st. st\<lparr>observed := (observed st)\<lparr>world_packet_dequeue_result := v\<rparr>\<rparr>\<rparr>"

definition world_error_cell :: "u32 cell" where
  "world_error_cell = \<lparr>get_cell = \<lambda>st. world_error_trace_count (counters st),
     put_cell = \<lambda>v st. st\<lparr>counters := (counters st)\<lparr>world_error_trace_count := v\<rparr>\<rparr>\<rparr>"

definition world_dispatch_cell :: "u32 cell" where
  "world_dispatch_cell = \<lparr>get_cell = \<lambda>st. world_dispatch_trace_count (counters st),
     put_cell = \<lambda>v st. st\<lparr>counters := (counters st)\<lparr>world_dispatch_trace_count := v\<rparr>\<rparr>\<rparr>"

definition world_fatal_cell :: "u32 cell" where
  "world_fatal_cell = \<lparr>get_cell = \<lambda>st. world_fatal_trace_count (counters st),
     put_cell = \<lambda>v st. st\<lparr>counters := (counters st)\<lparr>world_fatal_trace_count := v\<rparr>\<rparr>\<rparr>"

definition object_build_cell :: "u32 cell" where
  "object_build_cell = \<lparr>get_cell = \<lambda>st. object_build_trace_count (counters st),
     put_cell = \<lambda>v st. st\<lparr>counters := (counters st)\<lparr>object_build_trace_count := v\<rparr>\<rparr>\<rparr>"

definition status_set_cell :: "u32 cell" where
  "status_set_cell = \<lparr>get_cell = \<lambda>st. world_status_set_count (counters st),
     put_cell = \<lambda>v st. st\<lparr>counters := (counters st)\<lparr>world_status_set_count := v\<rparr>\<rparr>\<rparr>"

lemmas cell_defs =
  config_handshake_cell_def config_service_cell_def config_parser_cell_def config_transfer_cell_def
  service_open_cell_def service_poll_cell_def association_open_cell_def association_poll_cell_def
  phase6_cell_def zone_load_cell_def gameplay_cell_def world_network_cell_def packet_dequeue_cell_def
  world_error_cell_def world_dispatch_cell_def world_fatal_cell_def object_build_cell_def status_set_cell_def

section \<open>What tracing may change\<close>

text \<open>
  The state of the program outside tracing: the guest's memory, the lobby, the map handoff, the resolver,
  the bootstrap and the trace switch.
\<close>

definition program_state where
  "program_state st = (host st, lobby st, map_handoff st, resolver st, bootstrap st, hooks_enabled (trace st))"

text \<open>The event counts; a line may be logged as long as they allow it.\<close>

definition tally where
  "tally st = (hook_count (trace st), world_status_set_count (counters st), world_error_trace_count (counters st),
     world_dispatch_trace_count (counters st), world_fatal_trace_count (counters st), object_build_trace_count (counters st))"

text \<open>
  Two effects of a step: \<open>traces k\<close> leaves the program's state alone and appends at most \<open>k\<close> lines to
  the log; \<open>quiet k\<close> moreover leaves the counts alone.
\<close>

definition traces :: "nat \<Rightarrow> (runtime \<Rightarrow> runtime) \<Rightarrow> bool" where
  "traces k f \<longleftrightarrow> (\<forall>st. program_state (f st) = program_state st \<and>
     (\<exists>lines. logged (f st) = logged st @ lines \<and> length lines \<le> k))"

definition quiet :: "nat \<Rightarrow> (runtime \<Rightarrow> runtime) \<Rightarrow> bool" where
  "quiet k f \<longleftrightarrow> traces k f \<and> (\<forall>st. tally (f st) = tally st)"

named_theorems quiet_intros
named_theorems traces_intros

lemma tracesI:
  assumes "\<And>st. program_state (f st) = program_state st"
    and "\<And>st. \<exists>lines. logged (f st) = logged st @ lines \<and> length lines \<le> k"
  shows "traces k f"
  using assms by (simp add: traces_def)

lemma tracesD:
  assumes "traces k f"
  shows "program_state (f st) = program_state st" "\<exists>lines. logged (f st) = logged st @ lines \<and> length lines \<le> k"
  using assms by (simp_all add: traces_def)

lemma program_state_logged [simp]: "program_state (st\<lparr>logged := ls\<rparr>) = program_state st"
  by (simp add: program_state_def)

lemma traces_id: "traces k (\<lambda>st. st)"
  by (simp add: traces_def)

lemma traces_write: "traces k f \<Longrightarrow> traces (Suc k) (\<lambda>st. write_log l fmt (as st) (f st))"
proof (rule tracesI)
  fix st
  assume f: "traces k f"
  show "program_state (write_log l fmt (as st) (f st)) = program_state st"
    using tracesD(1) [OF f, of st] by (simp add: write_log_def)
  from tracesD(2) [OF f, of st] obtain lines where "logged (f st) = logged st @ lines" "length lines \<le> k" by blast
  then show "\<exists>lines. logged (write_log l fmt (as st) (f st)) = logged st @ lines \<and> length lines \<le> Suc k"
    by (intro exI [of _ "lines @ [Log l fmt (as st)]"]) (simp add: write_log_def)
qed

lemma traces_if: "traces k f \<Longrightarrow> traces k g \<Longrightarrow> traces k (\<lambda>st. if p st then f st else g st)"
  by (auto simp: traces_def)

lemma traces_mono: "traces j f \<Longrightarrow> j \<le> k \<Longrightarrow> traces k f"
  unfolding traces_def by (meson le_trans)

lemma tally_write_log [simp]: "tally (write_log l fmt as st) = tally st"
  by (simp add: tally_def)

lemma quiet_id [quiet_intros]: "quiet k (\<lambda>st. st)"
  by (simp add: quiet_def traces_id)

lemma quiet_write [quiet_intros]: "quiet k f \<Longrightarrow> quiet (Suc k) (\<lambda>st. write_log l fmt (as st) (f st))"
  by (simp add: quiet_def traces_write)

lemma quiet_if [quiet_intros]: "quiet k f \<Longrightarrow> quiet k g \<Longrightarrow> quiet k (\<lambda>st. if p st then f st else g st)"
  by (simp add: quiet_def traces_if)

lemma when_tracing_traces [traces_intros]: "traces k f \<Longrightarrow> traces k (when_tracing f)"
  by (simp add: traces_def when_tracing_def)

text \<open>The gate costs one event, and one line when the budget is just used up.\<close>

lemma gate_cases:
  obtains (off) "\<not> hooks_enabled (trace st)" "GuestTraceHooksEnabled st = (False, st)"
  | (granted) "hooks_enabled (trace st)" "hook_count (trace st) < 256"
      "GuestTraceHooksEnabled st = (True, st\<lparr>trace := (trace st)\<lparr>hook_count := hook_count (trace st) + 1\<rparr>\<rparr>)"
  | (limit) "hooks_enabled (trace st)" "hook_count (trace st) = 256"
      "GuestTraceHooksEnabled st = (False, st\<lparr>trace := (trace st)\<lparr>hook_count := 257\<rparr>,
         logged := logged st @ [Log Info ''Xbox guest mid-asm trace reached its event limit'' []]\<rparr>)"
  | (refused) "hooks_enabled (trace st)" "256 < hook_count (trace st)"
      "GuestTraceHooksEnabled st = (False, st\<lparr>trace := (trace st)\<lparr>hook_count := hook_count (trace st) + 1\<rparr>\<rparr>)"
proof -
  consider "\<not> hooks_enabled (trace st)" | "hooks_enabled (trace st)" "hook_count (trace st) < 256"
    | "hooks_enabled (trace st)" "hook_count (trace st) = 256" | "hooks_enabled (trace st)" "256 < hook_count (trace st)"
    by (metis linorder_neqE)
  then show thesis
  proof cases
    case 4
    then have "\<not> hook_count (trace st) < 256" "hook_count (trace st) \<noteq> 256" by auto
    with 4 that(4) show thesis by (simp add: GuestTraceHooksEnabled_def)
  qed (use that in \<open>simp_all add: GuestTraceHooksEnabled_def Let_def write_log_def\<close>)
qed

lemma program_state_count [simp]: "program_state (st\<lparr>trace := (trace st)\<lparr>hook_count := n\<rparr>\<rparr>) = program_state st"
  "program_state (st\<lparr>trace := (trace st)\<lparr>hook_count := n\<rparr>, logged := ls\<rparr>) = program_state st"
  by (simp_all add: program_state_def)

lemma gated_traces [traces_intros]:
  assumes "traces (Suc k) f" shows "traces (Suc k) (gated f)"
proof (rule tracesI)
  fix st
  show "program_state (gated f st) = program_state st"
    by (cases rule: gate_cases [of st]) (simp_all add: gated_def tracesD [OF assms])
  show "\<exists>lines. logged (gated f st) = logged st @ lines \<and> length lines \<le> Suc k"
  proof (cases rule: gate_cases [of st])
    case granted
    then show ?thesis
      using tracesD(2) [OF assms, of "st\<lparr>trace := (trace st)\<lparr>hook_count := hook_count (trace st) + 1\<rparr>\<rparr>"]
      by (simp add: gated_def)
  qed (simp_all add: gated_def)
qed

section \<open>What a cell promises\<close>

locale runtime_cell =
  fixes c :: "'a cell"
  assumes get_put: "get_cell c (put_cell c v st) = v"
    and put_get: "put_cell c (get_cell c st) st = st"
    and put_put: "put_cell c v (put_cell c u st) = put_cell c v st"
    and put_frame: "program_state (put_cell c v st) = program_state st" "logged (put_cell c v st) = logged st"
      "hook_count (trace (put_cell c v st)) = hook_count (trace st)"
    and log_frame: "get_cell c (st\<lparr>logged := ls\<rparr>) = get_cell c st"
begin

lemma put_traces:
  assumes "\<And>st. traces k (f st)" shows "traces k (\<lambda>st. f st (put_cell c (v st) st))"
proof (rule tracesI)
  fix st
  show "program_state (f st (put_cell c (v st) st)) = program_state st"
    "\<exists>lines. logged (f st (put_cell c (v st) st)) = logged st @ lines \<and> length lines \<le> k"
    using tracesD [OF assms, of st "put_cell c (v st) st"] put_frame(1,2) [of "v st" st] by simp_all
qed

lemma observing_traces: "(\<And>st. traces k (f st)) \<Longrightarrow> traces k (\<lambda>st. observing c (v st) (f st) st)"
  using put_traces [of k f v] put_traces [of k "\<lambda>_ st. st" v] traces_id
  by (simp add: observing_def Let_def traces_if)

lemma observing_same: "get_cell c st = v \<Longrightarrow> observing c v f st = st"
  using put_get [of st] by (auto simp: observing_def)

end

text \<open>A cell for an observation, which is no count, and a counter.\<close>

locale observer_cell = runtime_cell +
  assumes tally_frame: "tally (put_cell c v st) = tally st"
begin

lemma observing_quiet:
  "(\<And>st. quiet k (f st)) \<Longrightarrow> quiet k (\<lambda>st. observing c (v st) (f st) st)"
  using observing_traces [of k f v] by (simp add: quiet_def observing_def Let_def tally_frame)

end

locale counter_cell = runtime_cell c for c :: "u32 cell"
begin

lemma counting_traces: "traces k f \<Longrightarrow> traces k (counting c limit f)"
  using put_traces [of k "\<lambda>_. f" "\<lambda>st. get_cell c st + 1"] put_traces [of k "\<lambda>_ st. st" "\<lambda>st. get_cell c st + 1"]
    traces_id traces_if [of k "\<lambda>st. put_cell c (get_cell c st + 1) st" "\<lambda>st. f (put_cell c (get_cell c st + 1) st)"
      "\<lambda>st. limit \<le> get_cell c st"]
  unfolding counting_def Let_def by simp

end

text \<open>Every atomic of the hooks is a cell.\<close>

interpretation config_handshake: observer_cell config_handshake_cell by unfold_locales (simp_all add: cell_defs program_state_def tally_def)
interpretation config_service: observer_cell config_service_cell by unfold_locales (simp_all add: cell_defs program_state_def tally_def)
interpretation config_parser: observer_cell config_parser_cell by unfold_locales (simp_all add: cell_defs program_state_def tally_def)
interpretation config_transfer: observer_cell config_transfer_cell by unfold_locales (simp_all add: cell_defs program_state_def tally_def)
interpretation service_open: observer_cell service_open_cell by unfold_locales (simp_all add: cell_defs program_state_def tally_def)
interpretation service_poll: observer_cell service_poll_cell by unfold_locales (simp_all add: cell_defs program_state_def tally_def)
interpretation association_open: observer_cell association_open_cell by unfold_locales (simp_all add: cell_defs program_state_def tally_def)
interpretation association_poll: observer_cell association_poll_cell by unfold_locales (simp_all add: cell_defs program_state_def tally_def)
interpretation phase6: observer_cell phase6_cell by unfold_locales (simp_all add: cell_defs program_state_def tally_def)
interpretation zone_load: observer_cell zone_load_cell by unfold_locales (simp_all add: cell_defs program_state_def tally_def)
interpretation gameplay: observer_cell gameplay_cell by unfold_locales (simp_all add: cell_defs program_state_def tally_def)
interpretation world_network: observer_cell world_network_cell by unfold_locales (simp_all add: cell_defs program_state_def tally_def)
interpretation packet_dequeue: observer_cell packet_dequeue_cell by unfold_locales (simp_all add: cell_defs program_state_def tally_def)
interpretation world_error: counter_cell world_error_cell by unfold_locales (simp_all add: cell_defs program_state_def)
interpretation world_dispatch: counter_cell world_dispatch_cell by unfold_locales (simp_all add: cell_defs program_state_def)
interpretation world_fatal: counter_cell world_fatal_cell by unfold_locales (simp_all add: cell_defs program_state_def)
interpretation object_build: counter_cell object_build_cell by unfold_locales (simp_all add: cell_defs program_state_def)
interpretation status_set: counter_cell status_set_cell by unfold_locales (simp_all add: cell_defs program_state_def)

lemmas cell_traces [traces_intros] =
  config_handshake.observing_traces config_service.observing_traces config_parser.observing_traces
  config_transfer.observing_traces service_open.observing_traces service_poll.observing_traces
  association_open.observing_traces association_poll.observing_traces phase6.observing_traces
  zone_load.observing_traces gameplay.observing_traces world_network.observing_traces
  packet_dequeue.observing_traces world_error.counting_traces world_dispatch.counting_traces
  world_fatal.counting_traces object_build.counting_traces status_set.counting_traces

lemmas cell_quiet [quiet_intros] =
  config_handshake.observing_quiet config_service.observing_quiet config_parser.observing_quiet
  config_transfer.observing_quiet service_open.observing_quiet service_poll.observing_quiet
  association_open.observing_quiet association_poll.observing_quiet phase6.observing_quiet
  zone_load.observing_quiet gameplay.observing_quiet world_network.observing_quiet packet_dequeue.observing_quiet

end
