(* ===== verification/World_Send.thy ===== *)
theory World_Send
  imports State_Trace World_Receive
begin

text \<open>
  The world connection hooks of \<^verbatim>\<open>src/runtime/revana_hooks.cpp\<close> on the way out:
  \<^verbatim>\<open>RevanaTraceWorldSendTarget\<close>, which restores the truncated character id of a world login and the
  missing address of the map server in the guest's own buffers, and the three trace hooks around it.
\<close>

section \<open>The character id of a world login\<close>

abbreviation (input) kOuterHeaderSize :: nat where "kOuterHeaderSize \<equiv> 28"
abbreviation (input) kLoginPacketSize :: nat where "kLoginPacketSize \<equiv> 92"
abbreviation (input) kOuterDigestSize :: nat where "kOuterDigestSize \<equiv> 16"
abbreviation (input) kLoginCheckOffset :: nat where "kLoginCheckOffset \<equiv> 32"
abbreviation (input) kUniqueNoOffset :: nat where "kUniqueNoOffset \<equiv> 40"
abbreviation (input) kLoginCheckStart :: nat where "kLoginCheckStart \<equiv> 36"

text \<open>The loop that adds the bytes of the login packet up, and the four stores of an id.\<close>

fun login_check_loop :: "host_memory \<Rightarrow> nat \<Rightarrow> nat \<Rightarrow> nat \<Rightarrow> u8 \<Rightarrow> u8" where
  "login_check_loop h packet offset 0 login_check = login_check"
| "login_check_loop h packet offset (Suc left) login_check =
     login_check_loop h packet (offset + 1) left (login_check + h (packet + offset))"

definition store_unique_no :: "nat \<Rightarrow> u32 \<Rightarrow> host_memory \<Rightarrow> host_memory" where
  "store_unique_no packet ident h =
     h(packet + kUniqueNoOffset := ucast ident,
       packet + kUniqueNoOffset + 1 := ucast (drop_bit 8 ident),
       packet + kUniqueNoOffset + 2 := ucast (drop_bit 16 ident),
       packet + kUniqueNoOffset + 3 := ucast (drop_bit 24 ident))"

definition RestoreWorldLoginCharacterId :: "bcrypt \<Rightarrow> nat \<Rightarrow> nat \<Rightarrow> runtime \<Rightarrow> bool \<times> runtime" where
  "RestoreWorldLoginCharacterId bc packet packet_length st =
     (if packet_length < kOuterHeaderSize + kLoginPacketSize + kOuterDigestSize \<or>
         ReadLe32_ptr (host st) (packet + kOuterHeaderSize) AND 0x1FF \<noteq> 0x0A
      then (False, st)
      else
        let outer_digest_offset = packet_length - kOuterDigestSize;
            full_id = next_login_character_id (lobby st);
            ident = ReadLe32_ptr (host st) (packet + kUniqueNoOffset)
        in if full_id = 0 \<or> ident = full_id \<or> ident AND 0x00FFFFFF \<noteq> full_id AND 0x00FFFFFF
           then (False, st)
           else
             let original_login_check = host st (packet + kLoginCheckOffset);
                 h = store_unique_no packet full_id (host st);
                 login_check = login_check_loop h packet kLoginCheckStart
                   (kOuterHeaderSize + kLoginPacketSize - kLoginCheckStart) 0;
                 h = h(packet + kLoginCheckOffset := login_check);
                 (ok, outer_digest, _) = CalculateMd5_hooks bc
                   (host_range h (packet + kOuterHeaderSize) (outer_digest_offset - kOuterHeaderSize)) (replicate 16 0)
             in if \<not> ok
                then (False, st\<lparr>host := (store_unique_no packet ident h)
                        (packet + kLoginCheckOffset := original_login_check)\<rparr>)
                else
                  let st = st\<lparr>host := host_copy h (packet + outer_digest_offset) outer_digest\<rparr>;
                      reported = login_character_id_restored (lobby st);
                      st = st\<lparr>lobby := (lobby st)\<lparr>login_character_id_restored := True\<rparr>\<rparr>
                  in (True, if \<not> reported
                       then REXLOG_WARN
                         ''Experimental direct mode restored world-login character ID from 0x{:08X} to 0x{:08X}''
                         [W ident, W full_id] st
                       else st))"

section \<open>The hook on a send\<close>

text \<open>\<^verbatim>\<open>fmt::format\<close> of a value of at most twelve bits as \<^verbatim>\<open>0x{:03X}\<close>.\<close>

definition format_packet_id :: "u32 \<Rightarrow> string" where
  "format_packet_id v = ''0x'' @ map (\<lambda>k. ''0123456789ABCDEF'' ! (unat v div 16 ^ k mod 16)) [2, 1, 0]"

definition big_endian16 :: "host_memory \<Rightarrow> nat \<Rightarrow> u16" where
  "big_endian16 h p = push_bit 8 (ucast (h p)) OR ucast (h (p + 1))"

definition big_endian32 :: "host_memory \<Rightarrow> nat \<Rightarrow> u32" where
  "big_endian32 h p = push_bit 24 (ucast (h p)) OR push_bit 16 (ucast (h (p + 1))) OR
     push_bit 8 (ucast (h (p + 2))) OR ucast (h (p + 3))"

text \<open>The missing endpoint of the map server.\<close>

definition restore_world_endpoint :: "nat \<Rightarrow> runtime \<Rightarrow> runtime" where
  "restore_world_endpoint target st =
     (let original_port = big_endian16 (host st) (target + 2) in
      if (original_port = 0 \<or> original_port = 0xFFFF) \<and> endpoint_enabled (map_handoff st)
      then
        let dest_port = direct_port (map_handoff st);
            ipv4 = direct_ipv4 (map_handoff st);
            h = (host st)(target := 0, target + 1 := 2,
                  target + 2 := ucast (drop_bit 8 dest_port), target + 3 := ucast dest_port,
                  target + 4 := ucast (drop_bit 24 ipv4), target + 5 := ucast (drop_bit 16 ipv4),
                  target + 6 := ucast (drop_bit 8 ipv4), target + 7 := ucast ipv4)
        in REXLOG_WARN ''Xbox direct mode restored missing world endpoint to {}.{}.{}.{}:{}''
             [U (ucast (h (target + 4))), U (ucast (h (target + 5))), U (ucast (h (target + 6))),
              U (ucast (h (target + 7))), U (ucast dest_port)] (st\<lparr>host := h\<rparr>)
      else st)"

definition trace_login_fields :: "nat \<Rightarrow> nat \<Rightarrow> runtime \<Rightarrow> runtime" where
  "trace_login_fields packet packet_length st =
     (let h = host st in
      if kOuterHeaderSize + kLoginPacketSize + kOuterDigestSize \<le> packet_length \<and>
         ReadLe32_ptr h (packet + kOuterHeaderSize) AND 0x1FF = 0x0A
      then
        let plaintext_size = packet_length - kOuterHeaderSize - kOuterDigestSize;
            trailing_packet_id =
              (if kLoginPacketSize < plaintext_size
               then ReadLe32_ptr h (packet + kOuterHeaderSize + kLoginPacketSize) AND 0x1FF else 0xFFFFFFFF)
        in REXLOG_INFO
             ''Xbox world login fields: check=0x{:02X} state=0x{:04X} error=0x{:08X} character=0x{:08X} area=0x{:04X} plaintext_size={} trailing_packet={}''
             [U (ucast (h (packet + kOuterHeaderSize + 4))),
              U (ucast (ReadLe16_ptr h (packet + kOuterHeaderSize + 6))),
              W (ReadLe32_ptr h (packet + kOuterHeaderSize + 8)),
              W (ReadLe32_ptr h (packet + kOuterHeaderSize + 12)),
              U (ucast (ReadLe16_ptr h (packet + kOuterHeaderSize + 90))), U (of_nat plaintext_size),
              T (if trailing_packet_id = 0xFFFFFFFF then ''none'' else format_packet_id trailing_packet_id)] st
      else st)"

text \<open>The line of a new target; the packet's header and the first bytes of its body when it is long enough.\<close>

definition trace_send_target :: "nat \<Rightarrow> nat \<Rightarrow> ppc_context \<Rightarrow> runtime \<Rightarrow> runtime" where
  "trace_send_target packet target ctx st =
     (let h = host st;
          family = big_endian16 h target;
          dest_port = big_endian16 h (target + 2);
          ipv4 = big_endian32 h (target + 4);
          observation = (push_bit 48 (ucast family) OR push_bit 32 (ucast dest_port) OR ucast ipv4 :: u64);
          seen = world_send_target (observed st);
          st = st\<lparr>observed := (observed st)\<lparr>world_send_target := observation\<rparr>\<rparr>;
          args = [U (ucast family), W (drop_bit 24 ipv4 AND 0xFF), W (drop_bit 16 ipv4 AND 0xFF),
                  W (drop_bit 8 ipv4 AND 0xFF), W (ipv4 AND 0xFF), U (ucast dest_port), W (r_u32 ctx 27), W (r_u32 ctx 5)]
      in if seen = observation then st
         else if r_u32 ctx 5 < 48
         then REXLOG_INFO
                ''Xbox world send target: family={} ipv4={}.{}.{}.{} port={} target_length={} packet_length={}'' args st
         else REXLOG_INFO
                ''Xbox world send target: family={} ipv4={}.{}.{}.{} port={} target_length={} packet_length={} header={:02X}{:02X}{:02X}{:02X}{:02X}{:02X}{:02X}{:02X}{:02X}{:02X}{:02X}{:02X}{:02X}{:02X}{:02X}{:02X} body={:02X}{:02X}{:02X}{:02X}{:02X}{:02X}{:02X}{:02X}{:02X}{:02X}{:02X}{:02X}{:02X}{:02X}{:02X}{:02X}{:02X}{:02X}{:02X}{:02X}''
                (args @ map (\<lambda>i. U (ucast (h (packet + i)))) ([0..<16] @ [28..<48])) st)"

definition RevanaTraceWorldSendTarget ::
  "rex_memory \<Rightarrow> bcrypt \<Rightarrow> hook_flags \<Rightarrow> ppc_context \<Rightarrow> runtime \<Rightarrow> runtime" where
  "RevanaTraceWorldSendTarget rm bc flags ctx st =
     (if r_u32 ctx 4 = 0 \<or> r_u32 ctx 7 = 0 \<or> r_u32 ctx 27 < 8
      then
        if hooks_enabled (trace st)
        then REXLOG_WARN ''Xbox world send arguments invalid: packet=0x{:08X} target=0x{:08X} target_length={}''
               [W (r_u32 ctx 4), W (r_u32 ctx 7), W (r_u32 ctx 27)] st
        else st
      else
        let packet = TranslateVirtual rm (r_u32 ctx 4);
            st = (if kRestoreWorldLoginCharacterId flags
                  then snd (RestoreWorldLoginCharacterId bc packet (unat (r_u32 ctx 5)) st) else st);
            target = TranslateVirtual rm (r_u32 ctx 7);
            st = restore_world_endpoint target st
        in if \<not> hooks_enabled (trace st) then st
           else trace_send_target packet target ctx (trace_login_fields packet (unat (r_u32 ctx 5)) st))"

definition RevanaTraceWorldSendEntry :: "ppc_context \<Rightarrow> runtime \<Rightarrow> runtime" where
  "RevanaTraceWorldSendEntry ctx st =
     (if \<not> hooks_enabled (trace st) then st
      else REXLOG_INFO ''Xbox world packet send entered: owner=0x{:08X} caller=0x{:08X}'' [W (r_u32 ctx 3), U (lr ctx)] st)"

definition RevanaTraceWorldSendResult :: "ppc_context \<Rightarrow> runtime \<Rightarrow> runtime" where
  "RevanaTraceWorldSendResult ctx st =
     (if \<not> hooks_enabled (trace st) then st
      else REXLOG_INFO ''Xbox world sendto returned {}'' [S (r_s32 ctx 3)] st)"

text \<open>The counter is not advanced when the flags hold neither bit.\<close>

definition RevanaTraceWorldStatusSet :: "ppc_context \<Rightarrow> runtime \<Rightarrow> runtime" where
  "RevanaTraceWorldStatusSet ctx st =
     (if \<not> hooks_enabled (trace st) then st
      else
        let flags = r_u32 ctx 3 in
        if flags AND 0x44 = 0 then st
        else
          let n = world_status_set_count (counters st);
              st = st\<lparr>counters := (counters st)\<lparr>world_status_set_count := n + 1\<rparr>\<rparr>
          in if 32 \<le> n then st
             else REXLOG_INFO ''Xbox world status set: flags=0x{:08X} caller=0x{:08X}'' [W flags, U (lr ctx)] st)"

section \<open>What the restoration does\<close>

text \<open>The fields of a login packet that are recomputed: id, check and outer digest.\<close>

definition login_packet_intact :: "(bytes \<Rightarrow> bytes) \<Rightarrow> u32 \<Rightarrow> bytes \<Rightarrow> bool" where
  "login_packet_intact digest full_id d \<longleftrightarrow>
     136 \<le> length d \<and> ReadLe32 d 40 = Some full_id \<and> d ! 32 = sum_list (take 84 (drop 36 d)) \<and>
     drop (length d - 16) d = digest (take (length d - 44) (drop 28 d))"

lemma login_check_loop_eq:
  "login_check_loop h p offset left c = c + sum_list (host_range h (p + offset) left)"
proof (induction left arbitrary: offset c)
  case (Suc left)
  have "host_range h (p + offset) (Suc left) = h (p + offset) # host_range h (p + (offset + 1)) left"
    by (rule nth_equalityI) (auto simp: nth_Cons' )
  with Suc show ?case by (simp add: add.assoc)
qed (simp add: host_range_def)

lemma host_range_sub: "a + n \<le> m \<Longrightarrow> take n (drop a (host_range h p m)) = host_range h (p + a) n"
  by (rule nth_equalityI) (auto simp: add.assoc)

lemma host_range_drop: "a \<le> m \<Longrightarrow> drop a (host_range h p m) = host_range h (p + a) (m - a)"
  by (rule nth_equalityI) (auto simp: add.assoc)

lemma ReadLe32_host_range:
  "a + 4 \<le> n \<Longrightarrow> ReadLe32 (host_range h p n) a = Some (ReadLe32_ptr h (p + a))"
  by (simp add: ReadLe32_eq le32_def ReadLe32_ptr_def add.assoc)


lemma ReadLe32_ptr_bytes:
  "ReadLe32_ptr h p = v \<longleftrightarrow> h p = ucast v \<and> h (p + 1) = ucast (drop_bit 8 v) \<and>
     h (p + 2) = ucast (drop_bit 16 v) \<and> h (p + 3) = ucast (drop_bit 24 v)"
  using le32_inject [of "h p" "h (p + 1)" "h (p + 2)" "h (p + 3)" "ucast v" "ucast (drop_bit 8 v)"
      "ucast (drop_bit 16 v)" "ucast (drop_bit 24 v)", unfolded le32_of_bytes]
  by (simp add: le32_def ReadLe32_ptr_def)

lemma store_unique_no_read [simp]: "ReadLe32_ptr (store_unique_no p v h) (p + 40) = v"
  by (simp add: ReadLe32_ptr_bytes store_unique_no_def)

lemma store_unique_no_frame: "q < p + 40 \<or> p + 44 \<le> q \<Longrightarrow> store_unique_no p v h q = h q"
  by (auto simp: store_unique_no_def)

text \<open>Taking a failed restoration back leaves memory as it was.\<close>

lemma store_unique_no_undone:
  assumes "ReadLe32_ptr h (p + 40) = ident" "c = h (p + 32)"
  shows "(store_unique_no p ident ((store_unique_no p v h)(p + 32 := x)))(p + 32 := c) = h"
  using assms(1) unfolding ReadLe32_ptr_bytes
  by (intro ext) (auto simp: store_unique_no_def assms(2) add.assoc)

text \<open>An id that agrees in its low 24 bits differs in its top byte only.\<close>

lemma low24_bytes:
  assumes "a AND 0x00FFFFFF = b AND (0x00FFFFFF :: u32)"
  shows "(ucast a :: u8) = ucast b" "(ucast (drop_bit 8 a) :: u8) = ucast (drop_bit 8 b)"
    "(ucast (drop_bit 16 a) :: u8) = ucast (drop_bit 16 b)"
proof -
  have m: "(0x00FFFFFF :: u32) = mask 24" by (simp add: mask_eq_exp_minus_1)
  have "bit a k = bit b k" if "k < 24" for k
    using arg_cong [OF assms, of "\<lambda>w. bit w k"] that unfolding m by (simp add: bit_simps)
  then show "(ucast a :: u8) = ucast b" "(ucast (drop_bit 8 a) :: u8) = ucast (drop_bit 8 b)"
    "(ucast (drop_bit 16 a) :: u8) = ucast (drop_bit 16 b)"
    by (auto intro!: bit_word_eqI simp: bit_simps)
qed

lemma store_unique_no_top_byte:
  assumes "ReadLe32_ptr h (p + 40) AND 0x00FFFFFF = v AND 0x00FFFFFF" "q \<noteq> p + 43"
  shows "store_unique_no p v h q = h q"
proof -
  have "h (p + 40) = ucast v" "h (p + 41) = ucast (drop_bit 8 v)" "h (p + 42) = ucast (drop_bit 16 v)"
    using low24_bytes [OF assms(1)] ReadLe32_ptr_bytes [THEN iffD1, OF refl, of h "p + 40"] by (simp_all add: ac_simps)
  with assms(2) show ?thesis by (auto simp: store_unique_no_def add.commute [of p])
qed


text \<open>When an id is restored: a world login whose id is the low 24 bits of the chosen character's.\<close>

definition truncated_world_login :: "nat \<Rightarrow> nat \<Rightarrow> runtime \<Rightarrow> bool" where
  "truncated_world_login p n st \<longleftrightarrow>
     136 \<le> n \<and> ReadLe32_ptr (host st) (p + 28) AND 0x1FF = 0x0A \<and>
     next_login_character_id (lobby st) \<noteq> 0 \<and>
     ReadLe32_ptr (host st) (p + 40) \<noteq> next_login_character_id (lobby st) \<and>
     ReadLe32_ptr (host st) (p + 40) AND 0x00FFFFFF = next_login_character_id (lobby st) AND 0x00FFFFFF"

definition relabelled :: "nat \<Rightarrow> u32 \<Rightarrow> host_memory \<Rightarrow> host_memory" where
  "relabelled p full_id h =
     (let h' = store_unique_no p full_id h in h'(p + 32 := sum_list (host_range h' (p + 36) 84)))"

lemma relabelled_frame:
  assumes "ReadLe32_ptr h (p + 40) AND 0x00FFFFFF = full_id AND 0x00FFFFFF" "q \<noteq> p + 32" "q \<noteq> p + 43"
  shows "relabelled p full_id h q = h q"
  using assms store_unique_no_top_byte [OF assms(1,3)] by (simp add: relabelled_def Let_def)

lemma RestoreWorldLoginCharacterId_unneeded:
  "\<not> truncated_world_login p n st \<Longrightarrow> RestoreWorldLoginCharacterId bc p n st = (False, st)"
  by (auto simp: truncated_world_login_def RestoreWorldLoginCharacterId_def Let_def)

lemma relabelled_loop:
  "(store_unique_no p v h)(p + 32 := login_check_loop (store_unique_no p v h) p 36 84 0) = relabelled p v h"
  by (simp add: relabelled_def Let_def login_check_loop_eq)

lemma relabelled_undone:
  "st\<lparr>host := (store_unique_no p (ReadLe32_ptr (host st) (p + 40)) (relabelled p v (host st)))
     (p + 32 := host st (p + 32))\<rparr> = st"
  unfolding relabelled_def Let_def using store_unique_no_undone [OF refl refl] by simp

lemma RestoreWorldLoginCharacterId_eq:
  assumes "truncated_world_login p n st"
    and "CalculateMd5 bc (host_range (relabelled p (next_login_character_id (lobby st)) (host st)) (p + 28) (n - 44))
      (replicate 16 0) = (ok, d, cs)"
  shows "RestoreWorldLoginCharacterId bc p n st = (if \<not> ok then (False, st) else
    (True, let st' = st\<lparr>host := host_copy (relabelled p (next_login_character_id (lobby st)) (host st)) (p + (n - 16)) d,
          lobby := (lobby st)\<lparr>login_character_id_restored := True\<rparr>\<rparr>
      in if login_character_id_restored (lobby st) then st'
         else REXLOG_WARN ''Experimental direct mode restored world-login character ID from 0x{:08X} to 0x{:08X}''
           [W (ReadLe32_ptr (host st) (p + 40)), W (next_login_character_id (lobby st))] st'))"
proof -
  have n: "n - 16 - 28 = n - 44" and l: "(28 + 92 - 36 :: nat) = 84" by simp_all
  have c: "\<not> (n < 28 + 92 + 16 \<or> ReadLe32_ptr (host st) (p + 28) AND 0x1FF \<noteq> 0x0A)"
    "\<not> (next_login_character_id (lobby st) = 0 \<or>
      ReadLe32_ptr (host st) (p + 40) = next_login_character_id (lobby st) \<or>
      ReadLe32_ptr (host st) (p + 40) AND 0x00FFFFFF \<noteq> next_login_character_id (lobby st) AND 0x00FFFFFF)"
    using assms(1) by (auto simp: truncated_world_login_def)
  show ?thesis
    unfolding RestoreWorldLoginCharacterId_def CalculateMd5_hooks_eq Let_def
      if_not_P [OF c(1)] if_not_P [OF c(2)] l n relabelled_loop assms(2)
    by (simp add: relabelled_undone)
qed

lemma relabelled_intact:
  assumes "136 \<le> n"
    and "h' = host_copy (relabelled p v h) (p + (n - 16)) (digest (host_range (relabelled p v h) (p + 28) (n - 44)))"
    and "\<And>bs. length (digest bs) = 16"
  shows "login_packet_intact digest v (host_range h' p n)"
proof -
  have l: "length (digest (host_range (relabelled p v h) (p + 28) (n - 44))) = 16" by (rule assms(3))
  have eq: "h' q = relabelled p v h q" if "q < p + (n - 16)" for q
    using that by (simp add: assms(2) host_copy_frame)
  have range: "host_range h' (p + a) k = host_range (relabelled p v h) (p + a) k" if "a + k \<le> n - 16" for a k
    using that by (auto simp: host_range_def intro!: eq)
  have "ReadLe32_ptr h' (p + 40) = v"
    using assms(1) by (simp add: ReadLe32_ptr_bytes eq relabelled_def Let_def store_unique_no_def)
  moreover have "h' (p + 32) = sum_list (host_range h' (p + 36) 84)"
  proof -
    have "host_range (relabelled p v h) (p + 36) 84 = host_range (store_unique_no p v h) (p + 36) 84"
      by (auto simp: host_range_def relabelled_def Let_def)
    then show ?thesis using assms(1) range [of 36 84] by (simp add: eq relabelled_def Let_def)
  qed
  moreover have "host_range h' (p + (n - 16)) 16 = digest (host_range h' (p + 28) (n - 44))"
    using host_range_copy [of "relabelled p v h" "p + (n - 16)" "digest (host_range (relabelled p v h) (p + 28) (n - 44))"]
      range [of 28 "n - 44"] assms(1) by (simp add: l assms(2))
  moreover have "drop (n - 16) (host_range h' p n) = host_range h' (p + (n - 16)) 16"
    using assms(1) by (subst host_range_drop) simp_all
  ultimately show ?thesis
    using assms(1) by (simp add: login_packet_intact_def host_range_sub ReadLe32_host_range)
qed


lemma RestoreWorldLoginCharacterId_outcome:
  assumes md5: "md5_service bc digest" and r: "RestoreWorldLoginCharacterId bc p n st = (ok, st')"
  defines "v \<equiv> next_login_character_id (lobby st)"
  shows "if ok then truncated_world_login p n st \<and>
      host st' = host_copy (relabelled p v (host st)) (p + (n - 16))
        (digest (host_range (relabelled p v (host st)) (p + 28) (n - 44))) \<and>
      lobby st' = (lobby st)\<lparr>login_character_id_restored := True\<rparr> \<and> map_handoff st' = map_handoff st \<and>
      trace st' = trace st \<and> observed st' = observed st
    else st' = st"
proof (cases "truncated_world_login p n st")
  case True
  obtain ok' d cs where c: "CalculateMd5 bc (host_range (relabelled p v (host st)) (p + 28) (n - 44))
      (replicate 16 0) = (ok', d, cs)" by (metis prod_cases3)
  then have "d = digest (host_range (relabelled p v (host st)) (p + 28) (n - 44))" if ok'
    using md5_service.CalculateMd5_success [OF md5 length_replicate] that by auto
  with RestoreWorldLoginCharacterId_eq [OF True c [unfolded v_def]] r True
  show ?thesis by (auto simp: Let_def v_def split: if_splits)
next
  case False
  with RestoreWorldLoginCharacterId_unneeded r show ?thesis by auto
qed

text \<open>
  C15: restoring the character id of a world login is all or nothing.  Success means a truncated login,
  after which the packet carries the full id, a matching check byte and a digest over its body, only the
  check, the top byte of the id and the digest have changed, and a second pass finds nothing to do; with
  a provider that works, every truncated login is restored.  Failure leaves the whole state as it was.
\<close>

theorem world_login_id_restored:
  assumes "md5_service bc digest"
    and "RestoreWorldLoginCharacterId bc p n st = (ok, st')"
  shows "(if ok then truncated_world_login p n st \<and>
      login_packet_intact digest (next_login_character_id (lobby st)) (host_range (host st') p n) \<and>
      (\<forall>q. host st' q \<noteq> host st q \<longrightarrow> q \<in> {p + 32, p + 43} \<union> {p + n - 16..<p + n}) \<and>
      (\<forall>bc'. RestoreWorldLoginCharacterId bc' p n st' = (False, st'))
    else st' = st) \<and>
    (md5_available bc digest \<and> truncated_world_login p n st \<longrightarrow> ok)"
proof
  let ?v = "next_login_character_id (lobby st)"
  note out = RestoreWorldLoginCharacterId_outcome [OF assms]
  show "if ok then truncated_world_login p n st \<and>
      login_packet_intact digest ?v (host_range (host st') p n) \<and>
      (\<forall>q. host st' q \<noteq> host st q \<longrightarrow> q \<in> {p + 32, p + 43} \<union> {p + n - 16..<p + n}) \<and>
      (\<forall>bc'. RestoreWorldLoginCharacterId bc' p n st' = (False, st'))
    else st' = st"
  proof (cases ok)
    case True
    with out have t: "truncated_world_login p n st" and lobby: "next_login_character_id (lobby st') = ?v"
      and h: "host st' = host_copy (relabelled p ?v (host st)) (p + (n - 16))
        (digest (host_range (relabelled p ?v (host st)) (p + 28) (n - 44)))" by simp_all
    from t have n: "136 \<le> n" and low: "ReadLe32_ptr (host st) (p + 40) AND 0x00FFFFFF = ?v AND 0x00FFFFFF"
      by (simp_all add: truncated_world_login_def)
    have l: "length (digest bs) = 16" for bs by (rule md5_service.digest_length [OF assms(1)])
    have intact: "login_packet_intact digest ?v (host_range (host st') p n)"
      by (rule relabelled_intact [where digest = digest]) (simp_all add: n h l)
    then have "ReadLe32_ptr (host st') (p + 40) = ?v"
      using n by (simp add: login_packet_intact_def ReadLe32_host_range)
    then have "\<not> truncated_world_login p n st'" by (simp add: truncated_world_login_def lobby)
    moreover have "host st' q = host st q" if "q \<notin> {p + 32, p + 43} \<union> {p + n - 16..<p + n}" for q
      using that n relabelled_frame [OF low, of q] by (auto simp: h host_copy_def l)
    ultimately show ?thesis
      using True t intact by (auto simp: RestoreWorldLoginCharacterId_unneeded)
  next
    case False
    with out show ?thesis by simp
  qed
  show "md5_available bc digest \<and> truncated_world_login p n st \<longrightarrow> ok"
  proof
    assume a: "md5_available bc digest \<and> truncated_world_login p n st"
    then obtain cs where "CalculateMd5 bc (host_range (relabelled p ?v (host st)) (p + 28) (n - 44)) (replicate 16 0) =
        (True, digest (host_range (relabelled p ?v (host st)) (p + 28) (n - 44)), cs)"
      using md5_available.CalculateMd5_available [of bc digest "replicate 16 0"] by (metis length_replicate)
    from RestoreWorldLoginCharacterId_eq [OF _ this] a assms(2) show ok by simp
  qed
qed

definition sample_login_memory :: host_memory where
  "sample_login_memory = (\<lambda>_. 0)(28 := 0x0A, 40 := 1, 41 := 2, 42 := 3)"

definition sample_login_runtime :: runtime where
  "sample_login_runtime = (sample_runtime sample_login_memory initial_map_globals)
     \<lparr>lobby := (lobby (sample_runtime sample_login_memory initial_map_globals))\<lparr>next_login_character_id := 0x04030201\<rparr>\<rparr>"

lemma sample_login_truncated: "truncated_world_login 0 136 sample_login_runtime"
  by (simp add: truncated_world_login_def sample_login_runtime_def sample_runtime_def sample_login_memory_def
      ReadLe32_ptr_def)

theorem world_login_id_restored_witness:
  "\<exists>st'. RestoreWorldLoginCharacterId bcrypt_md5 0 136 sample_login_runtime = (True, st') \<and>
     login_packet_intact md5 0x04030201 (host_range (host st') 0 136)"
proof -
  obtain ok st' where r: "RestoreWorldLoginCharacterId bcrypt_md5 0 136 sample_login_runtime = (ok, st')" by fastforce
  from world_login_id_restored [OF rfc1321.md5_service_axioms r]
  have "ok" "login_packet_intact md5 (next_login_character_id (lobby sample_login_runtime)) (host_range (host st') 0 136)"
    using rfc1321.md5_available_axioms sample_login_truncated by (simp_all split: if_splits)
  with r show ?thesis by (auto simp: sample_login_runtime_def)
qed

section \<open>What a send leaves in the guest's buffers\<close>

definition endpoint_bytes :: "u16 \<Rightarrow> u32 \<Rightarrow> bytes" where
  "endpoint_bytes dest_port ipv4 = [0, 2, ucast (drop_bit 8 dest_port), ucast dest_port, ucast (drop_bit 24 ipv4),
     ucast (drop_bit 16 ipv4), ucast (drop_bit 8 ipv4), ucast ipv4]"

lemma length_endpoint_bytes [simp]: "length (endpoint_bytes dest_port ipv4) = 8"
  by (simp add: endpoint_bytes_def)

lemma restore_world_endpoint_host:
  "host (restore_world_endpoint t st) =
     (if big_endian16 (host st) (t + 2) \<in> {0, 0xFFFF} \<and> endpoint_enabled (map_handoff st)
      then host_copy (host st) t (endpoint_bytes (direct_port (map_handoff st)) (direct_ipv4 (map_handoff st)))
      else host st)"
proof -
  have "(host st)(t := b0, t + 1 := b1, t + 2 := b2, t + 3 := b3, t + 4 := b4, t + 5 := b5, t + 6 := b6, t + 7 := b7)
      = host_copy (host st) t [b0, b1, b2, b3, b4, b5, b6, b7]" for b0 b1 b2 b3 b4 b5 b6 b7
    by (rule ext) (auto simp: host_copy_def nth_Cons' )
  then show ?thesis by (simp add: restore_world_endpoint_def Let_def endpoint_bytes_def)
qed

lemma restore_world_endpoint_frame [simp]:
  "map_handoff (restore_world_endpoint t st) = map_handoff st" "trace (restore_world_endpoint t st) = trace st"
  "lobby (restore_world_endpoint t st) = lobby st" "bootstrap (restore_world_endpoint t st) = bootstrap st"
  by (simp_all add: restore_world_endpoint_def Let_def)

lemma trace_send_frame [simp]:
  "host (trace_send_target p t ctx st) = host st" "host (trace_login_fields p n st) = host st"
  "map_handoff (trace_send_target p t ctx st) = map_handoff st" "map_handoff (trace_login_fields p n st) = map_handoff st"
  "lobby (trace_send_target p t ctx st) = lobby st" "lobby (trace_login_fields p n st) = lobby st"
  "bootstrap (trace_send_target p t ctx st) = bootstrap st" "bootstrap (trace_login_fields p n st) = bootstrap st"
  by (simp_all add: trace_send_target_def trace_login_fields_def Let_def)

lemma big_endian_le: "big_endian16 h p = le16 (h (p + 1)) (h p)"
  "big_endian32 h p = le32 (h (p + 3)) (h (p + 2)) (h (p + 1)) (h p)"
  by (simp_all add: big_endian16_def big_endian32_def le16_def le32_def ac_simps)

lemma le16_halves: "le16 (ucast v) (ucast (drop_bit 8 v)) = v"
  by (rule bit_word_eqI) (auto simp: le16_def bit_simps)

lemma big_endian_endpoint:
  "big_endian16 (host_copy h t (endpoint_bytes dest_port ipv4)) (t + 2) = dest_port"
  "big_endian32 (host_copy h t (endpoint_bytes dest_port ipv4)) (t + 4) = ipv4"
  by (simp_all add: big_endian_le host_copy_def endpoint_bytes_def le32_of_bytes le16_halves)

text \<open>A send that is not refused: its two buffers, and the packet's length.\<close>

definition send_buffers :: "rex_memory \<Rightarrow> ppc_context \<Rightarrow> nat \<Rightarrow> nat \<Rightarrow> nat \<Rightarrow> bool" where
  "send_buffers rm ctx p n t \<longleftrightarrow> r_u32 ctx 4 \<noteq> 0 \<and> r_u32 ctx 7 \<noteq> 0 \<and> 8 \<le> r_u32 ctx 27 \<and>
     p = TranslateVirtual rm (r_u32 ctx 4) \<and> t = TranslateVirtual rm (r_u32 ctx 7) \<and> n = unat (r_u32 ctx 5) \<and>
     (t + 8 \<le> p \<or> p + n \<le> t)"

lemma RevanaTraceWorldSendTarget_host:
  fixes st :: runtime
  assumes "send_buffers rm ctx p n t"
    and "st1 = (if kRestoreWorldLoginCharacterId flags then snd (RestoreWorldLoginCharacterId bc p n st) else st)"
  shows "host (RevanaTraceWorldSendTarget rm bc flags ctx st) = host (restore_world_endpoint t st1)"
    "map_handoff (RevanaTraceWorldSendTarget rm bc flags ctx st) = map_handoff st1"
    "lobby (RevanaTraceWorldSendTarget rm bc flags ctx st) = lobby st1"
    "bootstrap (RevanaTraceWorldSendTarget rm bc flags ctx st) = bootstrap st1"
proof -
  have "\<not> (r_u32 ctx 4 = 0 \<or> r_u32 ctx 7 = 0 \<or> r_u32 ctx 27 < 8)" using assms(1) by (auto simp: send_buffers_def)
  note hook = RevanaTraceWorldSendTarget_def [of rm bc flags ctx st, unfolded if_not_P [OF this]]
  show "host (RevanaTraceWorldSendTarget rm bc flags ctx st) = host (restore_world_endpoint t st1)"
    "map_handoff (RevanaTraceWorldSendTarget rm bc flags ctx st) = map_handoff st1"
    "lobby (RevanaTraceWorldSendTarget rm bc flags ctx st) = lobby st1"
    "bootstrap (RevanaTraceWorldSendTarget rm bc flags ctx st) = bootstrap st1"
    using assms by (simp_all add: hook send_buffers_def Let_def)
qed

text \<open>What a restoration does to the packet, whether one happens or not.\<close>

definition packet_outcome :: "(bytes \<Rightarrow> bytes) \<Rightarrow> bool \<Rightarrow> nat \<Rightarrow> nat \<Rightarrow> runtime \<Rightarrow> bytes \<Rightarrow> bool" where
  "packet_outcome digest enabled p n st d \<longleftrightarrow>
     d = host_range (host st) p n \<or>
     enabled \<and> truncated_world_login p n st \<and> login_packet_intact digest (next_login_character_id (lobby st)) d"

lemma restored_packet:
  assumes "md5_service bc digest"
    and "st1 = (if enabled then snd (RestoreWorldLoginCharacterId bc p n st) else st)"
  shows "packet_outcome digest enabled p n st (host_range (host st1) p n)"
    "q < p \<or> p + n \<le> q \<Longrightarrow> host st1 q = host st q"
    "map_handoff st1 = map_handoff st" "trace st1 = trace st"
proof -
  let ?v = "next_login_character_id (lobby st)"
  obtain ok st' where r: "RestoreWorldLoginCharacterId bc p n st = (ok, st')" by fastforce
  note out = RestoreWorldLoginCharacterId_outcome [OF assms(1) r]
  consider (same) "st1 = st" | (restored) "enabled" "ok" "st1 = st'"
    using assms(2) r out by (auto split: if_splits)
  then have "packet_outcome digest enabled p n st (host_range (host st1) p n) \<and>
    (q < p \<or> p + n \<le> q \<longrightarrow> host st1 q = host st q) \<and> map_handoff st1 = map_handoff st \<and> trace st1 = trace st"
  proof cases
    case same
    then show ?thesis by (simp add: packet_outcome_def)
  next
    case restored
    with out have t: "truncated_world_login p n st" and same: "map_handoff st1 = map_handoff st" "trace st1 = trace st"
      and h: "host st1 = host_copy (relabelled p ?v (host st)) (p + (n - 16))
        (digest (host_range (relabelled p ?v (host st)) (p + 28) (n - 44)))" by simp_all
    from t have n: "136 \<le> n" and low: "ReadLe32_ptr (host st) (p + 40) AND 0x00FFFFFF = ?v AND 0x00FFFFFF"
      by (simp_all add: truncated_world_login_def)
    have l: "length (digest bs) = 16" for bs by (rule md5_service.digest_length [OF assms(1)])
    have "login_packet_intact digest ?v (host_range (host st1) p n)"
      by (rule relabelled_intact [where digest = digest]) (simp_all add: n h l)
    moreover have "host st1 q = host st q" if "q < p \<or> p + n \<le> q"
      using that n relabelled_frame [OF low, of q] by (auto simp: h host_copy_def l)
    ultimately show ?thesis using restored(1) t same by (simp add: packet_outcome_def)
  qed
  then show "packet_outcome digest enabled p n st (host_range (host st1) p n)"
    "q < p \<or> p + n \<le> q \<Longrightarrow> host st1 q = host st q" "map_handoff st1 = map_handoff st" "trace st1 = trace st"
    by blast+
qed


text \<open>
  C16: what a send leaves in the guest's memory, whatever is traced.  The target holds the endpoint of the
  map server exactly when it had no port and an endpoint is configured, and is untouched otherwise; the
  packet is untouched or is a truncated login made intact; no other byte changes; the key, the endpoint
  and the bootstrap stay as they were.
\<close>

theorem world_send_effect:
  assumes "md5_service bc digest" and "send_buffers rm ctx p n t"
    and "st' = RevanaTraceWorldSendTarget rm bc flags ctx st"
  shows "host_range (host st') t 8 =
      (if big_endian16 (host st) (t + 2) \<in> {0, 0xFFFF} \<and> endpoint_enabled (map_handoff st)
       then endpoint_bytes (direct_port (map_handoff st)) (direct_ipv4 (map_handoff st))
       else host_range (host st) t 8) \<and>
    packet_outcome digest (kRestoreWorldLoginCharacterId flags) p n st (host_range (host st') p n) \<and>
    (\<forall>q. host st' q \<noteq> host st q \<longrightarrow> q \<in> {t..<t + 8} \<union> {p..<p + n}) \<and>
    map_handoff st' = map_handoff st \<and>
    (endpoint_enabled (map_handoff st) \<and> direct_port (map_handoff st) \<notin> {0, 0xFFFF} \<longrightarrow>
       big_endian16 (host st') (t + 2) \<notin> {0, 0xFFFF})"
proof -
  define st1 where "st1 = (if kRestoreWorldLoginCharacterId flags then snd (RestoreWorldLoginCharacterId bc p n st) else st)"
  note hook = RevanaTraceWorldSendTarget_host [OF assms(2) st1_def, folded assms(3)]
  note packet = restored_packet [OF assms(1) st1_def]
  have apart: "t + 8 \<le> p \<or> p + n \<le> t" using assms(2) by (auto simp: send_buffers_def)
  have target: "host st1 (t + i) = host st (t + i)" if "i < 8" for i using apart that packet(2) by auto
  have port: "big_endian16 (host st1) (t + 2) = big_endian16 (host st) (t + 2)"
    using target [of 2] target [of 3] by (simp add: big_endian16_def numeral_3_eq_3)
  have range: "host_range (host st1) t 8 = host_range (host st) t 8" using target by (auto simp: host_range_def)
  define e where "e = endpoint_bytes (direct_port (map_handoff st)) (direct_ipv4 (map_handoff st))"
  have e: "length e = 8" by (simp add: e_def)
  have h: "host st' = (if big_endian16 (host st) (t + 2) \<in> {0, 0xFFFF} \<and> endpoint_enabled (map_handoff st)
      then host_copy (host st1) t e else host st1)"
    unfolding hook(1) restore_world_endpoint_host packet(3) port e_def ..
  have "host_range (host st') p n = host_range (host st1) p n"
    using apart by (auto simp: h e host_range_copy_disjoint)
  moreover have "host_range (host st') t 8 = (if big_endian16 (host st) (t + 2) \<in> {0, 0xFFFF} \<and> endpoint_enabled (map_handoff st)
      then e else host_range (host st) t 8)"
    using host_range_copy [of "host st1" t e] by (simp add: h e range)
  moreover have "host st' q = host st q" if "q \<notin> {t..<t + 8} \<union> {p..<p + n}" for q
    using that packet(2) [of q] by (auto simp: h host_copy_def e)
  moreover have "big_endian16 (host st') (t + 2) \<notin> {0, 0xFFFF}"
    if "endpoint_enabled (map_handoff st) \<and> direct_port (map_handoff st) \<notin> {0, 0xFFFF}"
    using that by (auto simp: h e_def big_endian_endpoint port simp del: add_2_eq_Suc')
  ultimately show ?thesis using packet(1,3) hook(2) unfolding e_def [symmetric] by auto
qed

definition sample_send_context :: ppc_context where
  "sample_send_context = \<lparr>gpr = (\<lambda>_. 0)(4 := 0x1000, 5 := 64, 7 := 0x2000, 27 := 16), lr = 0, ctr = 0\<rparr>"

definition sample_send_runtime :: runtime where
  "sample_send_runtime = sample_runtime (\<lambda>_. 0)
     (initial_map_globals\<lparr>endpoint_enabled := True, direct_ipv4 := 0x0A000001, direct_port := 54230\<rparr>)"

theorem world_send_effect_witness:
  "let st' = RevanaTraceWorldSendTarget flat_memory bcrypt_md5
       \<lparr>kSynthesizePostSelectionDescriptors = False, kSkipPostSelectionServiceFailure = False,
        kRestoreWorldLoginCharacterId = True\<rparr> sample_send_context sample_send_runtime
   in host_range (host st') 0x2000 8 = [0, 2, 211, 214, 10, 0, 0, 1]"
proof -
  have b: "send_buffers flat_memory sample_send_context 0x1000 64 0x2000"
    by (simp add: send_buffers_def sample_send_context_def r_u32_def flat_memory_def)
  have p: "big_endian16 (host sample_send_runtime) (0x2000 + 2) = 0" "endpoint_enabled (map_handoff sample_send_runtime)"
    "endpoint_bytes (direct_port (map_handoff sample_send_runtime)) (direct_ipv4 (map_handoff sample_send_runtime)) =
       [0, 2, 211, 214, 10, 0, 0, 1]"
    by (simp_all add: sample_send_runtime_def sample_runtime_def big_endian16_def endpoint_bytes_def)
  show ?thesis
    using world_send_effect [OF rfc1321.md5_service_axioms b refl, of
        "\<lparr>kSynthesizePostSelectionDescriptors = False, kSkipPostSelectionServiceFailure = False,
        kRestoreWorldLoginCharacterId = True\<rparr>"] p
    by (simp add: Let_def)
qed

end
