(* ===== verification/Trace_World.thy ===== *)
theory Trace_World
  imports Trace_Cells World_Send
begin

text \<open>
  The trace hooks of \<^verbatim>\<open>src/runtime/revana_hooks.cpp\<close> that do not draw on the gate's budget: those that
  log an observation when it differs from the one before, those with a counter of their own, and the
  remaining ones, which log every event while tracing is on.
\<close>

section \<open>Observations\<close>

definition RevanaTracePhase6Readiness :: "ppc_context \<Rightarrow> runtime \<Rightarrow> runtime" where
  "RevanaTracePhase6Readiness ctx = when_tracing
     (let flags = r_u32 ctx 3 in
      observing phase6_cell flags
        (REXLOG_INFO ''Xbox phase 6 readiness flags=0x{:08X} ready={}'' [W flags, W (flags AND 1)]))"

definition phase_observation :: "u32 \<Rightarrow> u16 \<Rightarrow> u16 \<Rightarrow> u64" where
  "phase_observation high phase detail = push_bit 32 (ucast high) OR push_bit 16 (ucast phase) OR ucast detail"

definition RevanaTraceZoneLoadSequence :: "rex_memory \<Rightarrow> ppc_context \<Rightarrow> runtime \<Rightarrow> runtime" where
  "RevanaTraceZoneLoadSequence rm ctx = when_tracing (\<lambda>st.
     let object = r_u32 ctx 3;
         phase = load_half rm st (object + 4);
         detail = load_half rm st (object + 6)
     in observing zone_load_cell (phase_observation object phase detail)
          (REXLOG_INFO ''Xbox zone-load sequence: object=0x{:08X} phase={} detail={}''
             [W object, U (ucast phase), U (ucast detail)]) st)"

definition RevanaTraceGameplayFrameReturn :: "rex_memory \<Rightarrow> ppc_context \<Rightarrow> runtime \<Rightarrow> runtime" where
  "RevanaTraceGameplayFrameReturn rm ctx = when_tracing (\<lambda>st.
     let object = r_u32 ctx 30;
         phase = load_half rm st (object + 4);
         state = load_word rm st (object + 60)
     in observing gameplay_cell (phase_observation state phase (ucast (gpr ctx 3)))
          (REXLOG_INFO ''Xbox gameplay frame return={} state={} phase={}''
             [S (r_s32 ctx 3), W state, U (ucast phase)]) st)"

definition RevanaTraceWorldNetworkUpdate :: "rex_memory \<Rightarrow> ppc_context \<Rightarrow> runtime \<Rightarrow> runtime" where
  "RevanaTraceWorldNetworkUpdate rm ctx = when_tracing (\<lambda>st.
     let object = r_u32 ctx 3;
         state = load_byte rm st (object + 12)
     in observing world_network_cell (push_bit 32 (ucast object) OR ucast state)
          (\<lambda>st. REXLOG_INFO ''Xbox world network update: object=0x{:08X} state={} sequence={} acknowledged={}''
             [W object, U (ucast state), U (ucast (load_half rm st (object + 6))),
              U (ucast (load_half rm st (object + 10)))] st) st)"

definition RevanaTraceWorldPacketDequeued :: "ppc_context \<Rightarrow> runtime \<Rightarrow> runtime" where
  "RevanaTraceWorldPacketDequeued ctx = when_tracing
     (observing packet_dequeue_cell (r_u32 ctx 3)
        (REXLOG_INFO ''Xbox world packet dequeue result=0x{:08X}'' [W (r_u32 ctx 3)]))"

section \<open>Counted lines\<close>

definition trace_world_error :: "rex_memory \<Rightarrow> ppc_context \<Rightarrow> runtime \<Rightarrow> runtime" where
  "trace_world_error rm ctx st =
     (let packet_address = r_u32 ctx 30 in
      if (lr ctx = 0x84197840 \<or> lr ctx = 0x841978D8) \<and> packet_address \<noteq> 0
      then
        let packet = (\<lambda>i. host st (TranslateVirtual rm packet_address + i)) in
        REXLOG_WARN
          ''Xbox world packet error: code=0x{:02X} caller=0x{:08X} id=0x{:03X} size={} bytes={:02X} {:02X} {:02X} {:02X} {:02X} {:02X} {:02X} {:02X}''
          ([W (r_u32 ctx 3), U (lr ctx), U (ucast (packet_id (packet 0) (packet 1))), W (packet_size (packet 1))] @
           map (\<lambda>i. U (ucast (packet i))) [0..<8]) st
      else REXLOG_WARN ''Xbox world error state set: code=0x{:02X} caller=0x{:08X}'' [W (r_u32 ctx 3), U (lr ctx)] st)"

definition RevanaTraceWorldErrorState :: "rex_memory \<Rightarrow> ppc_context \<Rightarrow> runtime \<Rightarrow> runtime" where
  "RevanaTraceWorldErrorState rm ctx = when_tracing (counting world_error_cell 96 (trace_world_error rm ctx))"

definition trace_world_dispatch :: "rex_memory \<Rightarrow> ppc_context \<Rightarrow> runtime \<Rightarrow> runtime" where
  "trace_world_dispatch rm ctx st =
     (let packet_address = r_u32 ctx 5 in
      if packet_address = 0 then st
      else
        let packet = (\<lambda>i. host st (TranslateVirtual rm packet_address + i)) in
        REXLOG_INFO ''Xbox world dispatch: id=0x{:03X} size={} handler=0x{:08X} namespace=0x{:08X}''
          [U (ucast (packet_id (packet 0) (packet 1))), W (packet_size (packet 1)), W (ucast (ctr ctx)), U (lr ctx)] st)"

definition RevanaTraceWorldDispatch :: "rex_memory \<Rightarrow> ppc_context \<Rightarrow> runtime \<Rightarrow> runtime" where
  "RevanaTraceWorldDispatch rm ctx = when_tracing (counting world_dispatch_cell 1024 (trace_world_dispatch rm ctx))"

definition trace_world_fatal :: "rex_memory \<Rightarrow> ppc_context \<Rightarrow> runtime \<Rightarrow> runtime" where
  "trace_world_fatal rm ctx st =
     (let event_address = r_u32 ctx 5 in
      if event_address = 0
      then REXLOG_WARN ''Xbox world fatal callback: caller=0x{:08X} event=null'' [U (lr ctx)] st
      else
        let event = TranslateVirtual rm event_address;
            event_type = load_and_swap32 rm (host st) (event + 4)
        in REXLOG_WARN
             ''Xbox world fatal callback: caller=0x{:08X} event=0x{:08X} type=0x{:08X} bytes={:02X} {:02X} {:02X} {:02X} {:02X} {:02X} {:02X} {:02X} {:02X} {:02X} {:02X} {:02X} {:02X} {:02X} {:02X} {:02X}''
             ([U (lr ctx), W event_address, W event_type] @ map (\<lambda>i. U (ucast (host st (event + i)))) [0..<16]) st)"

definition RevanaTraceWorldFatalState :: "rex_memory \<Rightarrow> ppc_context \<Rightarrow> runtime \<Rightarrow> runtime" where
  "RevanaTraceWorldFatalState rm ctx = when_tracing (counting world_fatal_cell 16 (trace_world_fatal rm ctx))"

definition trace_object_build :: "rex_memory \<Rightarrow> ppc_context \<Rightarrow> runtime \<Rightarrow> runtime" where
  "trace_object_build rm ctx st =
     (let resource = [W (resource_load_id (observed st)), W (resource_load_caller (observed st))] in
      if r_u32 ctx 5 = 0
      then REXLOG_INFO
             ''Xbox object build: caller=0x{:08X} manager=0x{:08X} input=null aux=0x{:08X} resource=0x{:08X} requested_by=0x{:08X}''
             ([U (lr ctx), W (r_u32 ctx 4), W (r_u32 ctx 6)] @ resource) st
      else
        let input = TranslateVirtual rm (r_u32 ctx 5) in
        REXLOG_INFO
          ''Xbox object build: caller=0x{:08X} manager=0x{:08X} input=0x{:08X} aux=0x{:08X} resource=0x{:08X} requested_by=0x{:08X} bytes={:02X} {:02X} {:02X} {:02X} {:02X} {:02X} {:02X} {:02X} {:02X} {:02X} {:02X} {:02X} {:02X} {:02X} {:02X} {:02X}''
          ([U (lr ctx), W (r_u32 ctx 4), W (r_u32 ctx 5), W (r_u32 ctx 6)] @ resource @
           map (\<lambda>i. U (ucast (host st (input + i)))) [0..<16]) st)"

definition RevanaTraceObjectBuildEntry :: "rex_memory \<Rightarrow> ppc_context \<Rightarrow> runtime \<Rightarrow> runtime" where
  "RevanaTraceObjectBuildEntry rm ctx = when_tracing (counting object_build_cell 128 (trace_object_build rm ctx))"

text \<open>The resource a load names, for the build lines; the caller is cut to 32 bits.\<close>

definition RevanaTraceResourceLoadEntry :: "ppc_context \<Rightarrow> runtime \<Rightarrow> runtime" where
  "RevanaTraceResourceLoadEntry ctx = when_tracing (\<lambda>st.
     st\<lparr>observed := (observed st)\<lparr>resource_load_id := r_u32 ctx 5, resource_load_caller := ucast (lr ctx)\<rparr>\<rparr>)"

section \<open>Every event\<close>

definition RevanaTraceObjectBuildNull :: "ppc_context \<Rightarrow> runtime \<Rightarrow> runtime" where
  "RevanaTraceObjectBuildNull ctx = when_tracing
     (REXLOG_ERROR
        ''Xbox object build null predecessor: caller=0x{:08X} manager=0x{:08X} input=0x{:08X} current=0x{:08X} node=0x{:08X} cache=0x{:08X}''
        [U (lr ctx), W (r_u32 ctx 15), W (r_u32 ctx 31), W (r_u32 ctx 14), W (r_u32 ctx 27), W (r_u32 ctx 9)])"

definition RevanaTraceGuestExceptionRaise :: "ppc_context \<Rightarrow> runtime \<Rightarrow> runtime" where
  "RevanaTraceGuestExceptionRaise ctx = when_tracing
     (REXLOG_ERROR
        ''Xbox guest exception raise caller=0x{:08X} code=0x{:08X} flags={} parameters={} information=0x{:08X}''
        [W (ucast (lr ctx)), W (r_u32 ctx 3), W (r_u32 ctx 4), W (r_u32 ctx 5), W (r_u32 ctx 6)])"

definition RevanaTraceGuestCppThrow :: "ppc_context \<Rightarrow> runtime \<Rightarrow> runtime" where
  "RevanaTraceGuestCppThrow ctx = when_tracing
     (REXLOG_ERROR ''Xbox guest C++ throw caller=0x{:08X} object=0x{:08X} throw_info=0x{:08X}''
        [W (ucast (lr ctx)), W (r_u32 ctx 3), W (r_u32 ctx 4)])"

definition RevanaTraceFrameStateTransition :: "ppc_context \<Rightarrow> runtime \<Rightarrow> runtime" where
  "RevanaTraceFrameStateTransition ctx = when_tracing (\<lambda>st.
     if r_u32 ctx 11 = r_u32 ctx 10 then st
     else REXLOG_INFO ''Xbox frame state transition {} -> {} object=0x{:08X}''
            [W (r_u32 ctx 10), W (r_u32 ctx 11), W (r_u32 ctx 30)] st)"

section \<open>A repeated observation is logged once\<close>

text \<open>The values that differ from the one before them.\<close>

fun changes :: "'a \<Rightarrow> 'a list \<Rightarrow> 'a list" where
  "changes seen [] = []"
| "changes seen (v # vs) = (if v = seen then changes seen vs else v # changes v vs)"

lemma changes_remdups_adj: "changes seen vs = tl (remdups_adj (seen # vs))"
  by (induction seen vs rule: changes.induct) auto

context runtime_cell
begin

lemma observing_line:
  "observing c v (write_log l fmt as) st =
     (if get_cell c st = v then st else put_cell c v st\<lparr>logged := logged st @ [Log l fmt as]\<rparr>)"
  using put_get [of st] put_frame(2) [of v st] by (auto simp: observing_def write_log_def Let_def)

text \<open>The guest runs between two calls; \<open>g\<close> is what it does.\<close>

lemma observing_lines:
  assumes h: "\<And>x st. hooks_enabled (trace st) \<Longrightarrow> h x st = observing c (key x) (write_log l fmt (as (key x))) (g x st)"
    and g: "\<And>x st. get_cell c (g x st) = get_cell c st" "\<And>x st. logged (g x st) = logged st"
      "\<And>x st. hooks_enabled (trace (g x st)) = hooks_enabled (trace st)"
    and "hooks_enabled (trace st)"
  shows "logged (fold h xs st) = logged st @ map (\<lambda>v. Log l fmt (as v)) (changes (get_cell c st) (map key xs))"
  using assms(5)
proof (induction xs arbitrary: st)
  case (Cons x xs)
  let ?st = "observing c (key x) (write_log l fmt (as (key x))) (g x st)"
  have "program_state ?st = program_state (g x st)"
    by (simp add: observing_line put_frame(1))
  with Cons.prems g(3) have on: "hooks_enabled (trace ?st)" by (simp add: program_state_def)
  from Cons.IH [OF on] Cons.prems show ?case
    by (simp add: h g observing_line get_put log_frame put_frame(2))
qed simp

end

definition zone_observation :: "rex_memory \<Rightarrow> ppc_context \<times> host_memory \<Rightarrow> u64" where
  "zone_observation rm = (\<lambda>(ctx, m). phase_observation (r_u32 ctx 3)
     (load_and_swap16 rm m (TranslateVirtual rm (r_u32 ctx 3 + 4)))
     (load_and_swap16 rm m (TranslateVirtual rm (r_u32 ctx 3 + 6))))"

lemma phase_observation_fields:
  "ucast (drop_bit 32 (phase_observation a b c)) = a" "ucast (drop_bit 16 (phase_observation a b c)) = b"
  "ucast (phase_observation a b c) = c"
  by (rule bit_word_eqI, auto simp: phase_observation_def bit_simps dest: bit_imp_le_length)+

text \<open>
  C33: what the zone-load hook logs over any sequence of its calls, whatever the guest does to memory in
  between: one line for each observation that differs from the one before it, showing its three fields,
  and nothing else.
\<close>

theorem zone_load_log_exact:
  assumes "hooks_enabled (trace st)"
  shows "logged (fold (\<lambda>(ctx, m) st. RevanaTraceZoneLoadSequence rm ctx (st\<lparr>host := m\<rparr>)) xs st) =
    logged st @ map (\<lambda>v. Log Info ''Xbox zone-load sequence: object=0x{:08X} phase={} detail={}''
        [W (ucast (drop_bit 32 v)), U (ucast (ucast (drop_bit 16 v) :: u16)), U (ucast (ucast v :: u16))])
      (tl (remdups_adj (zone_load_sequence_state (observed st) # map (zone_observation rm) xs)))"
proof -
  let ?as = "\<lambda>v :: u64. [W (ucast (drop_bit 32 v)), U (ucast (ucast (drop_bit 16 v) :: u16)), U (ucast (ucast v :: u16))]"
  have h: "(\<lambda>(ctx, m) st. RevanaTraceZoneLoadSequence rm ctx (st\<lparr>host := m\<rparr>)) x st =
    observing zone_load_cell (zone_observation rm x)
      (REXLOG_INFO ''Xbox zone-load sequence: object=0x{:08X} phase={} detail={}'' (?as (zone_observation rm x)))
      (st\<lparr>host := snd x\<rparr>)" if "hooks_enabled (trace st)" for x st
    using that by (simp add: RevanaTraceZoneLoadSequence_def when_tracing_def zone_observation_def load_half_def
        phase_observation_fields Let_def split: prod.split)
  have "logged (fold (\<lambda>(ctx, m) st. RevanaTraceZoneLoadSequence rm ctx (st\<lparr>host := m\<rparr>)) xs st) = logged st @
      map (\<lambda>v. Log Info ''Xbox zone-load sequence: object=0x{:08X} phase={} detail={}'' (?as v))
        (changes (get_cell zone_load_cell st) (map (zone_observation rm) xs))"
    by (rule zone_load.observing_lines [where g = "\<lambda>x st. st\<lparr>host := snd x\<rparr>"], erule h)
      (simp_all add: zone_load_cell_def assms)
  then show ?thesis by (simp only: changes_remdups_adj zone_load_cell_def cell.select_convs)
qed

lemma zone_observation_zero: "zone_observation flat_memory (ctx, \<lambda>_. 0) = push_bit 32 (ucast (r_u32 ctx 3))"
proof -
  have "be_load 2 (\<lambda>_. 0) p = (0 :: u16)" for p
    by (simp add: be_load_def be_value_def host_range_def numeral_2_eq_2)
  then show ?thesis by (simp add: zone_observation_def phase_observation_def flat_memory_def)
qed

theorem zone_load_log_exact_witness:
  "logged (fold (\<lambda>(ctx, m) st. RevanaTraceZoneLoadSequence flat_memory ctx (st\<lparr>host := m\<rparr>))
      [(\<lparr>gpr = \<lambda>_. 0x1000, lr = 0, ctr = 0\<rparr>, \<lambda>_. 0), (\<lparr>gpr = \<lambda>_. 0x1000, lr = 0, ctr = 0\<rparr>, \<lambda>_. 0)]
      (RevanaSetGuestTraceHooksEnabled True (sample_runtime (\<lambda>_. 0) initial_map_globals))) =
    [Log Info ''Xbox guest mid-asm trace enabled'' [],
     Log Info ''Xbox zone-load sequence: object=0x{:08X} phase={} detail={}'' [W 0x1000, U 0, U 0]]"
proof -
  let ?x = "(\<lparr>gpr = \<lambda>_. 0x1000, lr = 0, ctr = 0\<rparr>, \<lambda>_. 0) :: ppc_context \<times> host_memory"
  have "hooks_enabled (trace (RevanaSetGuestTraceHooksEnabled True (sample_runtime (\<lambda>_. 0) initial_map_globals)))"
    by (simp add: RevanaSetGuestTraceHooksEnabled_def)
  from zone_load_log_exact [OF this, of flat_memory "[?x, ?x]"] show ?thesis
    by (simp add: zone_observation_zero r_u32_def RevanaSetGuestTraceHooksEnabled_def sample_runtime_def write_log_def)
qed

end
