(* ===== verification/Post_Selection.thy ===== *)
theory Post_Selection
  imports Trace_World
begin

text \<open>
  The post-selection hooks of \<^verbatim>\<open>src/runtime/revana_hooks.cpp\<close>: the descriptor lookup, which looks at the 64
  connections of PolCore and, when the experimental switch is on, makes one up for the selected character,
  and the four returns of the service and the association, one of which turns an obsolete failure into a
  completion.
\<close>

section \<open>The descriptor lookup\<close>

abbreviation (input) kFfxiStatePointer :: u32 where "kFfxiStatePointer \<equiv> 0x847A12F8"
abbreviation (input) kPolServiceTable :: u32 where "kPolServiceTable \<equiv> 0x82524210"
abbreviation (input) kPolConnectionTable :: u32 where "kPolConnectionTable \<equiv> 0x824DFAF0"
abbreviation (input) kPolConnectionSize :: u32 where "kPolConnectionSize \<equiv> 104"
abbreviation (input) kPolConnectionCount :: u32 where "kPolConnectionCount \<equiv> 64"
abbreviation (input) kPolLocalEndpointTable :: u32 where "kPolLocalEndpointTable \<equiv> 0x824DD650"
abbreviation (input) kDescriptorIdentifierOffset :: u32 where "kDescriptorIdentifierOffset \<equiv> 65536 + 11988"
abbreviation (input) kDescriptorEndpointHighOffset :: u32 where "kDescriptorEndpointHighOffset \<equiv> 65536 + 11992"
abbreviation (input) kDescriptorEndpointLowOffset :: u32 where "kDescriptorEndpointLowOffset \<equiv> 65536 + 11994"
abbreviation (input) kDescriptorEndpointByteOffset :: u32 where "kDescriptorEndpointByteOffset \<equiv> 65536 + 11999"

definition load_double :: "rex_memory \<Rightarrow> runtime \<Rightarrow> u32 \<Rightarrow> u64" where
  "load_double rm st address = load_and_swap64 rm (host st) (TranslateVirtual rm address)"

definition store_half :: "rex_memory \<Rightarrow> u32 \<Rightarrow> u16 \<Rightarrow> runtime \<Rightarrow> runtime" where
  "store_half rm address v st = st\<lparr>host := store_and_swap16 rm (host st) (TranslateVirtual rm address) v\<rparr>"

definition store_double :: "rex_memory \<Rightarrow> u32 \<Rightarrow> u64 \<Rightarrow> runtime \<Rightarrow> runtime" where
  "store_double rm address v st = st\<lparr>host := store_and_swap64 rm (host st) (TranslateVirtual rm address) v\<rparr>"

definition connection_at :: "u32 \<Rightarrow> u32" where
  "connection_at index = kPolConnectionTable + index * kPolConnectionSize"

text \<open>The loop over the table: the number of active connections and the index of the first.\<close>

fun scan_connections :: "rex_memory \<Rightarrow> runtime \<Rightarrow> nat \<Rightarrow> u32 \<Rightarrow> u32 \<times> u32 \<Rightarrow> u32 \<times> u32" where
  "scan_connections rm st 0 index (active_count, first_active) = (active_count, first_active)"
| "scan_connections rm st (Suc left) index (active_count, first_active) =
     scan_connections rm st left (index + 1)
       (if load_half rm st (connection_at index) AND 1 \<noteq> 0
        then (active_count + 1, if first_active = kPolConnectionCount then index else first_active)
        else (active_count, first_active))"

definition synthesized_endpoint :: "u8 \<Rightarrow> u16 \<Rightarrow> u16 \<Rightarrow> u32" where
  "synthesized_endpoint endpoint_byte endpoint_high endpoint_low =
     (let combined = push_bit 16 (ucast endpoint_byte) + ucast endpoint_high;
          intermediate = (word_rotl 8 (ucast endpoint_low) AND 0x00FFFF00) OR (combined AND 0xFFFF0000)
      in (word_rotl 8 intermediate AND 0xFFFFFF00) OR (combined AND 0xFFFF))"

definition synthesize_descriptors :: "rex_memory \<Rightarrow> u32 \<Rightarrow> u32 \<Rightarrow> runtime \<Rightarrow> runtime" where
  "synthesize_descriptors rm endpoint identifier st =
     (let st = store_half rm kPolConnectionTable 1 st;
          st = store_half rm (kPolConnectionTable + 2) 1 st;
          st = store_word rm (kPolConnectionTable + 4) endpoint st;
          st = store_double rm (kPolConnectionTable + 8) (ucast identifier) st;
          st = store_double rm (kPolConnectionTable + 16) 0 st
      in store_double rm kPolLocalEndpointTable 1 st)"

definition flag_text :: "bool \<Rightarrow> string" where
  "flag_text b = (if b then ''true'' else ''false'')"

definition RevanaTraceZoneDescriptorLookup :: "rex_memory \<Rightarrow> hook_flags \<Rightarrow> guest_state \<Rightarrow> guest_state" where
  "RevanaTraceZoneDescriptorLookup rm flags = (\<lambda>(ctx, st).
     let (trace_enabled, st) = GuestTraceHooksEnabled st in
     if \<not> trace_enabled \<and> \<not> kSynthesizePostSelectionDescriptors flags then (ctx, st)
     else
       let state = load_word rm st kFfxiStatePointer;
           selected = r_u32 ctx 29
       in if state = 0 \<or> 16 \<le> selected
          then (ctx, if trace_enabled
                then REXLOG_INFO ''Xbox post-selection descriptor lookup result={} selected={} state=0x{:08X}''
                       [S (r_s32 ctx 3), W selected, W state] st
                else st)
          else
            let record_address = state + selected * 140;
                (active_count, first_active) = scan_connections rm st 64 0 (0, kPolConnectionCount);
                first_connection = connection_at first_active;
                identifier = load_word rm st (record_address + kDescriptorIdentifierOffset);
                endpoint_high = load_half rm st (record_address + kDescriptorEndpointHighOffset);
                endpoint_low = load_half rm st (record_address + kDescriptorEndpointLowOffset);
                endpoint_byte = load_byte rm st (record_address + kDescriptorEndpointByteOffset);
                synthesized = (r_s32 ctx 3 < 0 \<and> active_count = 0 \<and> kSynthesizePostSelectionDescriptors flags);
                endpoint = synthesized_endpoint endpoint_byte endpoint_high endpoint_low;
                (ctx, st) =
                  (if synthesized
                   then
                     let st = synthesize_descriptors rm endpoint identifier st in
                     (set_r_s64 ctx 3 0,
                      if trace_enabled
                      then REXLOG_WARN
                        ''Experimental post-selection remote and local descriptors synthesized: endpoint=0x{:08X} identifier=0x{:08X}''
                        [W endpoint, W identifier] st
                      else st)
                   else (ctx, st));
                found = first_active < kPolConnectionCount
            in (ctx, if \<not> trace_enabled then st
                else REXLOG_INFO
                  ''Xbox post-selection descriptor lookup result={} selected={} identifier_key=0x{:08X} endpoint_high=0x{:04X} endpoint_low={} endpoint_byte=0x{:02X} service708=0x{:08X} active={} first={} flags=0x{:04X} type={} endpoint=0x{:08X} identifier=0x{:016X} token=0x{:016X} synthesized={}''
                  [S (r_s32 ctx 3), W selected, W identifier, U (ucast endpoint_high), U (ucast endpoint_low),
                   U (ucast endpoint_byte), W (load_word rm st (kPolServiceTable + 708)), W active_count, W first_active,
                   U (if found then ucast (load_half rm st first_connection) else 0),
                   U (if found then ucast (load_half rm st (first_connection + 2)) else 0),
                   W (if found then load_word rm st (first_connection + 4) else 0),
                   U (if found then load_double rm st (first_connection + 8) else 0),
                   U (if found then load_double rm st (first_connection + 16) else 0),
                   T (flag_text synthesized)] st))"

section \<open>The service and association returns\<close>

abbreviation (input) kPostSelectionHandleOffset :: u32 where "kPostSelectionHandleOffset \<equiv> 65536 + 11576"

definition TracePostSelectionServiceReturn ::
  "rex_memory \<Rightarrow> string \<Rightarrow> u64 cell \<Rightarrow> ppc_context \<Rightarrow> runtime \<Rightarrow> runtime" where
  "TracePostSelectionServiceReturn rm operation observed_result ctx = when_tracing (\<lambda>st.
     let flow = r_u32 ctx 27;
         data = load_word rm st kFfxiStatePointer;
         state = (if flow \<noteq> 0 then load_word rm st flow else 0xFFFFFFFF);
         stored_handle = (if data \<noteq> 0 then load_word rm st (data + kPostSelectionHandleOffset) else 0);
         observation = push_bit 32 (ucast state) OR ucast (r_u32 ctx 3)
     in observing observed_result observation
          (REXLOG_INFO
             ''Xbox post-selection {} return={} state={} stored_handle=0x{:08X} r3=0x{:08X} r4=0x{:08X} r29=0x{:08X}''
             [T operation, S (r_s32 ctx 3), W state, W stored_handle, W (r_u32 ctx 3), W (r_u32 ctx 4), W (r_u32 ctx 29)]) st)"

definition RevanaTracePostSelectionServiceOpen :: "rex_memory \<Rightarrow> ppc_context \<Rightarrow> runtime \<Rightarrow> runtime" where
  "RevanaTracePostSelectionServiceOpen rm = TracePostSelectionServiceReturn rm ''service open'' service_open_cell"

definition RevanaTracePostSelectionServicePoll :: "rex_memory \<Rightarrow> hook_flags \<Rightarrow> guest_state \<Rightarrow> guest_state" where
  "RevanaTracePostSelectionServicePoll rm flags = (\<lambda>(ctx, st).
     let st = TracePostSelectionServiceReturn rm ''service poll'' service_poll_cell ctx st in
     if r_s32 ctx 3 < 0 \<and> kSkipPostSelectionServiceFailure flags
     then (set_r_s64 ctx 3 1,
       REXLOG_WARN ''Experimental direct mode translated obsolete post-selection service failure {} to completion''
         [S (r_s32 ctx 3)] st)
     else (ctx, st))"

definition RevanaTracePostSelectionAssociationOpen :: "rex_memory \<Rightarrow> ppc_context \<Rightarrow> runtime \<Rightarrow> runtime" where
  "RevanaTracePostSelectionAssociationOpen rm =
     TracePostSelectionServiceReturn rm ''association open'' association_open_cell"

definition RevanaTracePostSelectionAssociationPoll :: "rex_memory \<Rightarrow> ppc_context \<Rightarrow> runtime \<Rightarrow> runtime" where
  "RevanaTracePostSelectionAssociationPoll rm =
     TracePostSelectionServiceReturn rm ''association poll'' association_poll_cell"


section \<open>The endpoint that is made up\<close>

lemma bit_rotl8: "n < 32 \<Longrightarrow> bit (word_rotl 8 (w :: u32)) n = bit w (if n < 8 then n + 24 else n - 8)"
  by (auto simp: bit_word_rotl_iff mod_if)

lemma synthesized_endpoint_eq:
  "synthesized_endpoint b h l =
     push_bit 24 (ucast (b OR ucast (drop_bit 8 l))) OR push_bit 16 (ucast (ucast l :: u8)) OR ucast h"
proof -
  have sum: "push_bit 16 (ucast b) + ucast h = (push_bit 16 (ucast b) OR ucast h :: u32)"
    by (intro disjunctive_add) (auto simp: bit_simps dest: bit_imp_le_length)
  have masks: "(0x00FFFF00 :: u32) = push_bit 8 (mask 16)" "(0xFFFF0000 :: u32) = push_bit 16 (mask 16)"
    "(0xFFFFFF00 :: u32) = push_bit 8 (mask 24)" "(0xFFFF :: u32) = mask 16"
    by (simp_all add: mask_eq_exp_minus_1)
  have short: "bit b k \<Longrightarrow> k < 8" "bit h k \<Longrightarrow> k < 16" "bit l k \<Longrightarrow> k < 16" for k
    using bit_imp_le_length [of b k] bit_imp_le_length [of h k] bit_imp_le_length [of l k] by simp_all
  show ?thesis
    unfolding synthesized_endpoint_def Let_def sum masks
  proof (rule bit_word_eqI)
    fix n
    assume "n < LENGTH(32)"
    then consider "n < 8" | "8 \<le> n" "n < 16" | "16 \<le> n" "n < 24" | "24 \<le> n" "n < 32" by fastforce
    then show "bit (word_rotl 8 (word_rotl 8 (ucast l) AND push_bit 8 (mask 16) OR
          (push_bit 16 (ucast b) OR ucast h) AND push_bit 16 (mask 16)) AND push_bit 8 (mask 24) OR
        (push_bit 16 (ucast b) OR ucast h) AND mask 16 :: u32) n =
      bit (push_bit 24 (ucast (b OR ucast (drop_bit 8 l))) OR push_bit 16 (ucast (ucast l :: u8)) OR ucast h :: u32) n"
      by cases (auto simp: bit_rotl8 bit_and_iff bit_or_iff bit_push_bit_iff bit_mask_iff bit_ucast_iff bit_drop_bit_eq
          dest: short)
  qed
qed

section \<open>The scan\<close>

definition active_connection :: "rex_memory \<Rightarrow> runtime \<Rightarrow> nat \<Rightarrow> bool" where
  "active_connection rm st i \<longleftrightarrow> load_half rm st (connection_at (of_nat i)) AND 1 \<noteq> 0"

lemma scan_connections_eq:
  "i + left \<le> 64 \<Longrightarrow> scan_connections rm st left (of_nat i) (n, f) =
     (n + of_nat (length (filter (active_connection rm st) [i..<i + left])),
      if f = 64 then (case find (active_connection rm st) [i..<i + left] of None \<Rightarrow> 64 | Some j \<Rightarrow> of_nat j) else f)"
proof (induction left arbitrary: i n f)
  case (Suc left)
  have i: "(of_nat i :: u32) \<noteq> 64"
  proof
    assume "(of_nat i :: u32) = 64"
    then have "unat (of_nat i :: u32) = 64" by simp
    with Suc.prems show False by (simp add: unat_of_nat)
  qed
  have list: "[i..<i + Suc left] = i # [Suc i..<Suc i + left]" using upt_conv_Cons [of i "i + Suc left"] by simp
  have a: "(load_half rm st (connection_at (of_nat i)) AND 1 \<noteq> 0) = active_connection rm st i"
    by (simp add: active_connection_def)
  have step: "(of_nat i + 1 :: u32) = of_nat (Suc i)" by simp
  have "Suc i + left \<le> 64" using Suc.prems by simp
  from Suc.IH [OF this] show ?case
    unfolding list scan_connections.simps step a by (simp add: i add.commute del: upt_Suc)
qed simp


section \<open>When a descriptor is made up, and what it is\<close>

definition descriptor_missing :: "rex_memory \<Rightarrow> hook_flags \<Rightarrow> ppc_context \<Rightarrow> runtime \<Rightarrow> bool" where
  "descriptor_missing rm flags ctx st \<longleftrightarrow>
     kSynthesizePostSelectionDescriptors flags \<and> r_s32 ctx 3 < 0 \<and> r_u32 ctx 29 < 16 \<and>
     load_word rm st kFfxiStatePointer \<noteq> 0 \<and> (\<forall>i < 64. \<not> active_connection rm st i)"

definition selected_record :: "rex_memory \<Rightarrow> ppc_context \<Rightarrow> runtime \<Rightarrow> u32" where
  "selected_record rm ctx st = load_word rm st kFfxiStatePointer + r_u32 ctx 29 * 140"

definition selected_identifier :: "rex_memory \<Rightarrow> ppc_context \<Rightarrow> runtime \<Rightarrow> u32" where
  "selected_identifier rm ctx st = load_word rm st (selected_record rm ctx st + kDescriptorIdentifierOffset)"

definition selected_endpoint :: "rex_memory \<Rightarrow> ppc_context \<Rightarrow> runtime \<Rightarrow> u32" where
  "selected_endpoint rm ctx st =
     (let r = selected_record rm ctx st in
      synthesized_endpoint (load_byte rm st (r + kDescriptorEndpointByteOffset))
        (load_half rm st (r + kDescriptorEndpointHighOffset)) (load_half rm st (r + kDescriptorEndpointLowOffset)))"

lemma no_active_scan:
  "fst (scan_connections rm st 64 0 (0, 64)) = 0 \<longleftrightarrow> (\<forall>i < 64. \<not> active_connection rm st i)"
proof -
  let ?xs = "filter (active_connection rm st) [0..<64]"
  have "length ?xs \<le> 64" using length_filter_le [of "active_connection rm st" "[0..<64]"] by simp
  then have "unat (of_nat (length ?xs) :: u32) = length ?xs" by (simp add: unat_of_nat)
  then have "(of_nat (length ?xs) :: u32) = 0 \<longleftrightarrow> ?xs = []" by auto
  then show ?thesis using scan_connections_eq [of 0 64 rm st 0 64] by (auto simp: filter_empty_conv)
qed

text \<open>What is read depends on the guest's memory only.\<close>

lemma load_host:
  assumes "host st = host st'"
  shows "load_byte rm st = load_byte rm st'" "load_half rm st = load_half rm st'" "load_word rm st = load_word rm st'"
    "load_double rm st = load_double rm st'" "active_connection rm st = active_connection rm st'"
    "descriptor_missing rm flags ctx st = descriptor_missing rm flags ctx st'"
    "selected_identifier rm ctx st = selected_identifier rm ctx st'"
    "selected_endpoint rm ctx st = selected_endpoint rm ctx st'"
  unfolding load_byte_def [abs_def] load_half_def [abs_def] load_word_def [abs_def] load_double_def [abs_def]
    active_connection_def [abs_def] descriptor_missing_def selected_identifier_def selected_record_def
    selected_endpoint_def assms by (rule refl)+

definition descriptors_in :: "rex_memory \<Rightarrow> u32 \<Rightarrow> u32 \<Rightarrow> runtime \<Rightarrow> bool" where
  "descriptors_in rm endpoint identifier st \<longleftrightarrow>
     load_half rm st kPolConnectionTable = 1 \<and> load_half rm st (kPolConnectionTable + 2) = 1 \<and>
     load_word rm st (kPolConnectionTable + 4) = endpoint \<and>
     load_double rm st (kPolConnectionTable + 8) = ucast identifier \<and>
     load_double rm st (kPolConnectionTable + 16) = 0 \<and> load_double rm st kPolLocalEndpointTable = 1"

text \<open>The lookup, when there is nothing to make up and when there is.\<close>

lemma RevanaTraceZoneDescriptorLookup_outcome:
  assumes "RevanaTraceZoneDescriptorLookup rm flags (ctx, st) = (ctx', st')"
  shows "if descriptor_missing rm flags ctx st
    then ctx' = set_r_s64 ctx 3 0 \<and>
      host st' = host (synthesize_descriptors rm (selected_endpoint rm ctx st) (selected_identifier rm ctx st) st)
    else ctx' = ctx \<and> host st' = host st"
    "lobby st' = lobby st" "map_handoff st' = map_handoff st" "resolver st' = resolver st" "bootstrap st' = bootstrap st"
proof -
  obtain enabled st1 where g: "GuestTraceHooksEnabled st = (enabled, st1)" by fastforce
  note frame = GuestTraceHooksEnabled_frame [OF g]
  note same = load_host [OF frame(1)]
  have syn: "host (synthesize_descriptors rm e i st1) = host (synthesize_descriptors rm e i st)" for e i
    using frame(1) by (simp add: synthesize_descriptors_def store_half_def store_word_def store_double_def Let_def)
  obtain n f where scan: "scan_connections rm st1 64 0 (0, 64) = (n, f)" by fastforce
  then have none: "(n = 0) = (\<forall>i < 64. \<not> active_connection rm st i)" using no_active_scan [of rm st1] same(5) by simp
  have other: "lobby (synthesize_descriptors rm e i st1) = lobby st" "map_handoff (synthesize_descriptors rm e i st1) = map_handoff st"
    "resolver (synthesize_descriptors rm e i st1) = resolver st" "bootstrap (synthesize_descriptors rm e i st1) = bootstrap st" for e i
    using frame by (simp_all add: synthesize_descriptors_def store_half_def store_word_def store_double_def Let_def)
  note hook = assms [unfolded RevanaTraceZoneDescriptorLookup_def prod.case g Let_def scan]
  have all: "(if descriptor_missing rm flags ctx st
    then ctx' = set_r_s64 ctx 3 0 \<and>
      host st' = host (synthesize_descriptors rm (selected_endpoint rm ctx st) (selected_identifier rm ctx st) st)
    else ctx' = ctx \<and> host st' = host st) \<and>
    lobby st' = lobby st \<and> map_handoff st' = map_handoff st \<and> resolver st' = resolver st \<and> bootstrap st' = bootstrap st"
  proof (cases "descriptor_missing rm flags ctx st")
    case True
    then have c: "kSynthesizePostSelectionDescriptors flags" "r_s32 ctx 3 < 0" "\<not> 16 \<le> r_u32 ctx 29"
      "load_word rm st1 kFfxiStatePointer \<noteq> 0" "n = 0"
      using same none by (auto simp: descriptor_missing_def)
    with hook True frame other syn same(7,8) show ?thesis
      by (auto simp: selected_identifier_def selected_endpoint_def selected_record_def Let_def same)
  next
    case False
    then have "\<not> (kSynthesizePostSelectionDescriptors flags \<and> r_s32 ctx 3 < 0 \<and> n = 0)
        \<or> 16 \<le> r_u32 ctx 29 \<or> load_word rm st1 kFfxiStatePointer = 0"
      using same none by (auto simp: descriptor_missing_def not_less)
    with hook False frame show ?thesis by (auto split: if_splits)
  qed
  then show "if descriptor_missing rm flags ctx st
    then ctx' = set_r_s64 ctx 3 0 \<and>
      host st' = host (synthesize_descriptors rm (selected_endpoint rm ctx st) (selected_identifier rm ctx st) st)
    else ctx' = ctx \<and> host st' = host st"
    "lobby st' = lobby st" "map_handoff st' = map_handoff st" "resolver st' = resolver st" "bootstrap st' = bootstrap st"
    by blast+
qed


context guest_memory
begin

lemma table_addresses:
  defines "table \<equiv> TranslateVirtual rm kPolConnectionTable" and "local \<equiv> TranslateVirtual rm kPolLocalEndpointTable"
  shows "TranslateVirtual rm (kPolConnectionTable + 2) = table + 2" "TranslateVirtual rm (kPolConnectionTable + 4) = table + 4"
    "TranslateVirtual rm (kPolConnectionTable + 8) = table + 8" "TranslateVirtual rm (kPolConnectionTable + 16) = table + 16"
    "table = local + 9376"
  using translate_offset [of kPolConnectionTable 2] translate_offset [of kPolConnectionTable 4]
    translate_offset [of kPolConnectionTable 8] translate_offset [of kPolConnectionTable 16]
    translate_offset [of kPolLocalEndpointTable 9376]
  by (simp_all add: table_def local_def)

lemmas store_frames = w16.store_frame w32.store_frame w64.store_frame

lemma synthesize_descriptors_frame:
  assumes "host (synthesize_descriptors rm e i st) q \<noteq> host st q"
  shows "q \<in> {TranslateVirtual rm kPolConnectionTable..<TranslateVirtual rm kPolConnectionTable + 24} \<union>
    {TranslateVirtual rm kPolLocalEndpointTable..<TranslateVirtual rm kPolLocalEndpointTable + 8}"
proof (rule ccontr)
  define t l where "t = TranslateVirtual rm kPolConnectionTable" and "l = TranslateVirtual rm kPolLocalEndpointTable"
  assume "\<not> ?thesis"
  then have "q < t \<or> t + 24 \<le> q" "q < l \<or> l + 8 \<le> q" by (auto simp: t_def l_def)
  then have "host (synthesize_descriptors rm e i st) q = host st q"
    unfolding synthesize_descriptors_def Let_def store_half_def store_word_def store_double_def table_addresses(1-4)
      t_def [symmetric] l_def [symmetric]
    by (elim disjE) (simp_all add: store_frames)
  with assms show False by simp
qed

lemma synthesize_descriptors_in: "descriptors_in rm e i (synthesize_descriptors rm e i st)"
proof -
  define t l where "t = TranslateVirtual rm kPolConnectionTable" and "l = TranslateVirtual rm kPolLocalEndpointTable"
  note a = table_addresses [folded t_def l_def]
  define h1 where "h1 = store_and_swap16 rm (host st) t 1"
  define h2 where "h2 = store_and_swap16 rm h1 (t + 2) 1"
  define h3 where "h3 = store_and_swap32 rm h2 (t + 4) e"
  define h4 where "h4 = store_and_swap64 rm h3 (t + 8) (ucast i)"
  define h5 where "h5 = store_and_swap64 rm h4 (t + 16) 0"
  define h6 where "h6 = store_and_swap64 rm h5 l 1"
  have h: "host (synthesize_descriptors rm e i st) = h6"
    unfolding synthesize_descriptors_def store_half_def store_word_def store_double_def Let_def a(1-4)
      t_def [symmetric] l_def [symmetric] h1_def h2_def h3_def h4_def h5_def h6_def by simp
  have f1: "load_and_swap16 rm h6 t = load_and_swap16 rm h1 t"
    by (rule w16.load_local) (simp add: h2_def h3_def h4_def h5_def h6_def a(5) store_frames)
  have f2: "load_and_swap16 rm h6 (t + 2) = load_and_swap16 rm h2 (t + 2)"
    by (rule w16.load_local) (simp add: h3_def h4_def h5_def h6_def a(5) store_frames)
  have f3: "load_and_swap32 rm h6 (t + 4) = load_and_swap32 rm h3 (t + 4)"
    by (rule w32.load_local) (simp add: h4_def h5_def h6_def a(5) store_frames)
  have f4: "load_and_swap64 rm h6 (t + 8) = load_and_swap64 rm h4 (t + 8)"
    by (rule w64.load_local) (simp add: h5_def h6_def a(5) store_frames)
  have f5: "load_and_swap64 rm h6 (t + 16) = load_and_swap64 rm h5 (t + 16)"
    by (rule w64.load_local) (simp add: h6_def a(5) store_frames)
  show ?thesis
    unfolding descriptors_in_def load_half_def load_word_def load_double_def h a(1-4) t_def [symmetric] l_def [symmetric]
      f1 f2 f3 f4 f5
    by (simp add: h1_def h2_def h3_def h4_def h5_def h6_def w16.load_store w32.load_store w64.load_store)
qed

end

lemma descriptors_active:
  assumes "descriptors_in rm e i st" shows "\<not> descriptor_missing rm flags ctx st"
  using assms
  by (auto simp: descriptors_in_def descriptor_missing_def active_connection_def connection_at_def intro!: exI [of _ 0])

text \<open>
  C23: a descriptor is made up only when the switch is on, the lookup failed, a character is selected and
  none of the 64 connections is active.  Then the lookup is reported as successful, the first connection
  and the local endpoint hold what the character's record says, no byte outside the two has changed, and
  no lookup makes up another while they stand.  In every other case neither the guest's memory nor its
  registers change, and the rest of the program never does.
\<close>

theorem zone_descriptor_synthesis:
  assumes "guest_memory rm" and "RevanaTraceZoneDescriptorLookup rm flags (ctx, st) = (ctx', st')"
  shows "(if descriptor_missing rm flags ctx st
    then r_s32 ctx' 3 = 0 \<and> descriptors_in rm (selected_endpoint rm ctx st) (selected_identifier rm ctx st) st' \<and>
      (\<forall>q. host st' q \<noteq> host st q \<longrightarrow>
         q \<in> {TranslateVirtual rm 0x824DFAF0..<TranslateVirtual rm 0x824DFAF0 + 24} \<union>
             {TranslateVirtual rm 0x824DD650..<TranslateVirtual rm 0x824DD650 + 8}) \<and>
      (\<forall>flags2 ctx2 st2. host st2 = host st' \<longrightarrow> \<not> descriptor_missing rm flags2 ctx2 st2)
    else ctx' = ctx \<and> host st' = host st) \<and>
    lobby st' = lobby st \<and> map_handoff st' = map_handoff st \<and> resolver st' = resolver st \<and> bootstrap st' = bootstrap st"
proof -
  note out = RevanaTraceZoneDescriptorLookup_outcome [OF assms(2)]
  let ?s = "synthesize_descriptors rm (selected_endpoint rm ctx st) (selected_identifier rm ctx st) st"
  show ?thesis
  proof (cases "descriptor_missing rm flags ctx st")
    case True
    with out(1) have ctx: "ctx' = set_r_s64 ctx 3 0" and host: "host st' = host ?s" by simp_all
    have "r_s32 ctx' 3 = 0" unfolding ctx by (rule r_s32_set_r_s64) simp_all
    moreover have "descriptors_in rm (selected_endpoint rm ctx st) (selected_identifier rm ctx st) st'"
      using guest_memory.synthesize_descriptors_in [OF assms(1)] unfolding descriptors_in_def load_host(2-4) [OF host] .
    moreover have "\<not> descriptor_missing rm flags2 ctx2 st2" if "host st2 = host st'" for flags2 ctx2 st2
      unfolding load_host(6) [OF that] by (rule descriptors_active) (rule calculation(2))
    moreover note guest_memory.synthesize_descriptors_frame [OF assms(1), of "selected_endpoint rm ctx st"
        "selected_identifier rm ctx st" st, folded host]
    ultimately show ?thesis unfolding if_P [OF True] using out(2-5) by blast
  next
    case False
    with out show ?thesis by simp
  qed
qed

definition sample_record_memory :: host_memory where
  "sample_record_memory = (\<lambda>_. 0)(0x847A12F8 := 0x10)"

definition sample_lookup_context :: ppc_context where
  "sample_lookup_context = \<lparr>gpr = (\<lambda>_. 0)(3 := 0xFFFFFFFF), lr = 0, ctr = 0\<rparr>"

definition sample_lookup_flags :: hook_flags where
  "sample_lookup_flags = \<lparr>kSynthesizePostSelectionDescriptors = True, kSkipPostSelectionServiceFailure = True,
     kRestoreWorldLoginCharacterId = False\<rparr>"

lemma sample_descriptor_missing:
  "descriptor_missing flat_memory sample_lookup_flags sample_lookup_context
     (sample_runtime sample_record_memory initial_map_globals)"
proof -
  have "unat (connection_at (of_nat i)) = 0x824DFAF0 + 104 * i" if "i < 64" for i
    using that by (simp add: connection_at_def unat_word_ariths unat_of_nat)
  then have "load_half flat_memory (sample_runtime sample_record_memory initial_map_globals) (connection_at (of_nat i)) = 0"
    if "i < 64" for i
    using that by (simp add: load_half_def flat_memory_def sample_runtime_def sample_record_memory_def be_load_def
        be_value_def host_range_def numeral_2_eq_2)
  moreover have "load_word flat_memory (sample_runtime sample_record_memory initial_map_globals) 0x847A12F8 \<noteq> 0"
    by (simp add: load_word_def flat_memory_def sample_runtime_def sample_record_memory_def be_load_def
        be_value_def host_range_def upt_rec)
  ultimately show ?thesis
    by (simp add: descriptor_missing_def active_connection_def sample_lookup_flags_def sample_lookup_context_def
        r_s32_def r_u32_def)
qed

theorem zone_descriptor_synthesis_witness:
  "\<exists>ctx' st'. RevanaTraceZoneDescriptorLookup flat_memory sample_lookup_flags
      (sample_lookup_context, sample_runtime sample_record_memory initial_map_globals) = (ctx', st') \<and>
    r_s32 ctx' 3 = 0 \<and> load_half flat_memory st' 0x824DFAF0 = 1"
proof -
  obtain ctx' st' where r: "RevanaTraceZoneDescriptorLookup flat_memory sample_lookup_flags
      (sample_lookup_context, sample_runtime sample_record_memory initial_map_globals) = (ctx', st')" by fastforce
  from zone_descriptor_synthesis [OF flat.guest_memory_axioms this] sample_descriptor_missing r show ?thesis
    by (auto simp: descriptors_in_def)
qed

section \<open>The poll\<close>

text \<open>The four returns only trace.\<close>

lemma post_selection_returns_trace:
  "observer_cell c \<Longrightarrow> traces 1 (TracePostSelectionServiceReturn rm operation c ctx)"
  unfolding TracePostSelectionServiceReturn_def Let_def
  by (intro when_tracing_traces runtime_cell.observing_traces observer_cell.axioms(1) traces_write [where k = 0, folded One_nat_def] traces_id)

text \<open>An obsolete failure becomes the completion 1, and only under its switch.\<close>

lemma service_poll_result:
  assumes "RevanaTracePostSelectionServicePoll rm flags (ctx, st) = (ctx', st')"
  shows "ctx' = (if r_s32 ctx 3 < 0 \<and> kSkipPostSelectionServiceFailure flags then set_r_s64 ctx 3 1 else ctx)"
    "program_state st' = program_state st"
  using assms tracesD(1) [OF post_selection_returns_trace [OF service_poll.observer_cell_axioms]]
  by (auto simp: RevanaTracePostSelectionServicePoll_def Let_def write_log_def split: if_splits)

end
