(* ===== verification/Trace_Hooks.thy ===== *)
theory Trace_Hooks
  imports Trace_Cells
begin

text \<open>
  The trace hooks of \<^verbatim>\<open>src/runtime/revana_hooks.cpp\<close> behind the gate \<^verbatim>\<open>GuestTraceHooksEnabled\<close>: start-up,
  main loop, lobby set-up, service dispatch, the type 2 messages, lobby command 0x1F, the PolCore errors
  and the configuration service.  All of them draw on one budget of 256 events.
\<close>

section \<open>Hooks that log one fixed line\<close>

definition RevanaTraceNetworkInitEntry :: "runtime \<Rightarrow> runtime" where
  "RevanaTraceNetworkInitEntry = gated (REXLOG_INFO ''Xbox network initializer entered'' [])"

definition RevanaTraceNetworkInitFatalConfig :: "runtime \<Rightarrow> runtime" where
  "RevanaTraceNetworkInitFatalConfig = gated (REXLOG_INFO ''Xbox network initializer selected fatal configuration path'' [])"

definition RevanaTraceNetworkInitBeforeWsa :: "runtime \<Rightarrow> runtime" where
  "RevanaTraceNetworkInitBeforeWsa = gated (REXLOG_INFO ''Xbox network initializer reached WSA handoff'' [])"

definition RevanaTraceNetworkInitFailure :: "runtime \<Rightarrow> runtime" where
  "RevanaTraceNetworkInitFailure = gated (REXLOG_INFO ''Xbox network initializer returned failure'' [])"

definition RevanaTraceNetworkInitSuccess :: "runtime \<Rightarrow> runtime" where
  "RevanaTraceNetworkInitSuccess = gated (REXLOG_INFO ''Xbox network initializer returned success'' [])"

definition RevanaTraceLobbySetupEntry :: "runtime \<Rightarrow> runtime" where
  "RevanaTraceLobbySetupEntry = gated (REXLOG_INFO ''Xbox lobby setup entered'' [])"

definition RevanaTraceLobbySetupGuardAccepted :: "runtime \<Rightarrow> runtime" where
  "RevanaTraceLobbySetupGuardAccepted = gated (REXLOG_INFO ''Xbox lobby setup initialization guard accepted'' [])"

definition RevanaTraceLobbySetupFailure :: "runtime \<Rightarrow> runtime" where
  "RevanaTraceLobbySetupFailure = gated (REXLOG_INFO ''Xbox lobby setup returned failure'' [])"

definition RevanaTraceLobbyControllerFailure :: "runtime \<Rightarrow> runtime" where
  "RevanaTraceLobbyControllerFailure = gated (REXLOG_INFO ''Xbox lobby controller initialization returned failure'' [])"

definition RevanaTraceMainBootstrapEntry :: "runtime \<Rightarrow> runtime" where
  "RevanaTraceMainBootstrapEntry = gated (REXLOG_INFO ''Xbox main bootstrap entered'' [])"

definition RevanaTraceMainBootstrapConfigReady :: "runtime \<Rightarrow> runtime" where
  "RevanaTraceMainBootstrapConfigReady = gated (REXLOG_INFO ''Xbox main bootstrap configuration ready'' [])"

definition RevanaTraceMainBootstrapServicesReady :: "runtime \<Rightarrow> runtime" where
  "RevanaTraceMainBootstrapServicesReady = gated (REXLOG_INFO ''Xbox main bootstrap services ready'' [])"

definition RevanaTraceMainBootstrapGraphicsReady :: "runtime \<Rightarrow> runtime" where
  "RevanaTraceMainBootstrapGraphicsReady = gated (REXLOG_INFO ''Xbox main bootstrap graphics ready'' [])"

definition RevanaTraceMainDispatchEntry :: "runtime \<Rightarrow> runtime" where
  "RevanaTraceMainDispatchEntry = gated (REXLOG_INFO ''Xbox main dispatch entered'' [])"

definition RevanaTraceMainDispatchObjectReady :: "runtime \<Rightarrow> runtime" where
  "RevanaTraceMainDispatchObjectReady = gated (REXLOG_INFO ''Xbox main dispatch object ready'' [])"

definition RevanaTraceMainLoopEntry :: "runtime \<Rightarrow> runtime" where
  "RevanaTraceMainLoopEntry = gated (REXLOG_INFO ''Xbox main loop entered'' [])"

definition RevanaTraceFfxiMainOrdinal2Call :: "runtime \<Rightarrow> runtime" where
  "RevanaTraceFfxiMainOrdinal2Call = gated (REXLOG_INFO ''Xbox FFXi requested FFXiMain ordinal 2 call'' [])"

definition RevanaTraceFfxiMainOrdinal3Call :: "runtime \<Rightarrow> runtime" where
  "RevanaTraceFfxiMainOrdinal3Call = gated (REXLOG_INFO ''Xbox FFXi requested FFXiMain ordinal 3 call'' [])"

definition RevanaTraceFfxiMainOrdinal4Call :: "runtime \<Rightarrow> runtime" where
  "RevanaTraceFfxiMainOrdinal4Call = gated (REXLOG_INFO ''Xbox FFXi requested FFXiMain ordinal 4 call'' [])"

definition RevanaTraceFfxiMainOrdinal5Call :: "runtime \<Rightarrow> runtime" where
  "RevanaTraceFfxiMainOrdinal5Call = gated (REXLOG_INFO ''Xbox FFXi requested FFXiMain ordinal 5 call'' [])"

definition RevanaTraceMainLoopSystemReady :: "runtime \<Rightarrow> runtime" where
  "RevanaTraceMainLoopSystemReady = gated (REXLOG_INFO ''Xbox main loop system precondition ready'' [])"

definition RevanaTraceMainLoopHostReady :: "runtime \<Rightarrow> runtime" where
  "RevanaTraceMainLoopHostReady = gated (REXLOG_INFO ''Xbox main loop host precondition ready'' [])"

definition RevanaTraceMainLoopFrameAllocated :: "runtime \<Rightarrow> runtime" where
  "RevanaTraceMainLoopFrameAllocated = gated (REXLOG_INFO ''Xbox main loop frame object allocated'' [])"

definition RevanaTraceMainLoopWorkerStarted :: "runtime \<Rightarrow> runtime" where
  "RevanaTraceMainLoopWorkerStarted = gated (REXLOG_INFO ''Xbox main loop startup worker started'' [])"

definition RevanaTraceMainLoopWorkerReady :: "runtime \<Rightarrow> runtime" where
  "RevanaTraceMainLoopWorkerReady = gated (REXLOG_INFO ''Xbox main loop startup worker reported ready'' [])"

definition RevanaTraceMainLoopCleanup :: "runtime \<Rightarrow> runtime" where
  "RevanaTraceMainLoopCleanup = gated (REXLOG_INFO ''Xbox main loop entered cleanup'' [])"

definition RevanaTraceMainLoopDeviceProbe :: "runtime \<Rightarrow> runtime" where
  "RevanaTraceMainLoopDeviceProbe = gated (REXLOG_INFO ''Xbox main loop entered device probe'' [])"

definition RevanaTraceStartupSelector13LoadReturned :: "runtime \<Rightarrow> runtime" where
  "RevanaTraceStartupSelector13LoadReturned = gated (REXLOG_INFO ''Xbox startup selector 13 load returned'' [])"

definition RevanaTraceStartupWorkerFailure :: "runtime \<Rightarrow> runtime" where
  "RevanaTraceStartupWorkerFailure = gated (REXLOG_INFO ''Xbox startup worker returned failure'' [])"

definition RevanaTracePackageMetadataFailure :: "runtime \<Rightarrow> runtime" where
  "RevanaTracePackageMetadataFailure = gated (REXLOG_INFO ''Xbox package metadata check returned failure'' [])"

definition RevanaTraceStartupPackageValidationFailure :: "runtime \<Rightarrow> runtime" where
  "RevanaTraceStartupPackageValidationFailure = gated (REXLOG_INFO ''Xbox startup package validation returned failure'' [])"

section \<open>Hooks that log registers and guest words\<close>

definition RevanaTraceServiceDispatchSlot1852Object :: "ppc_context \<Rightarrow> runtime \<Rightarrow> runtime" where
  "RevanaTraceServiceDispatchSlot1852Object ctx = gated
     (REXLOG_INFO ''Xbox service dispatch +1852 object call argument=0x{:08X} table=0x{:08X} target=0x{:08X}''
        [W (r_u32 ctx 3), W (r_u32 ctx 11), W (r_u32 ctx 8)])"

definition RevanaTraceType2Enqueue :: "rex_memory \<Rightarrow> ppc_context \<Rightarrow> runtime \<Rightarrow> runtime" where
  "RevanaTraceType2Enqueue rm ctx = gated (\<lambda>st.
     if r_u32 ctx 4 \<noteq> 8 \<or> r_u32 ctx 5 \<noteq> 2 then st
     else
       REXLOG_INFO
         ''Xbox eight-word enqueue read state handle=0x{:08X} bytes={} buffer_words={:08X},{:08X}''
         [W (load_word rm st (r_u32 ctx 1 + 160)), W (load_word rm st (r_u32 ctx 1 + 164)),
          W (load_word rm st (r_u32 ctx 6)), W (load_word rm st (r_u32 ctx 6 + 4))]
       (REXLOG_INFO
         ''Xbox eight-word enqueue lr=0x{:08X} owner=0x{:08X} type={} payload={:08X},{:08X},{:08X},{:08X},{:08X},{:08X},{:08X}''
         [U (lr ctx), W (r_u32 ctx 3), W (r_u32 ctx 5), W (r_u32 ctx 6), W (r_u32 ctx 7), W (r_u32 ctx 8),
          W (r_u32 ctx 9), W (r_u32 ctx 10), W (load_word rm st (r_u32 ctx 1 + 84)),
          W (load_word rm st (r_u32 ctx 1 + 92))] st))"

definition RevanaTraceType2ReadReturned :: "rex_memory \<Rightarrow> ppc_context \<Rightarrow> runtime \<Rightarrow> runtime" where
  "RevanaTraceType2ReadReturned rm ctx = gated (\<lambda>st.
     REXLOG_INFO
       ''Xbox type 2 read returned result={} handle=0x{:08X} bytes={} buffer=0x{:08X} words={:08X},{:08X} requested={}''
       [W (r_u32 ctx 3), W (load_word rm st (r_u32 ctx 1 + 160)), W (load_word rm st (r_u32 ctx 1 + 164)),
        W (r_u32 ctx 30), W (load_word rm st (r_u32 ctx 30)), W (load_word rm st (r_u32 ctx 30 + 4)),
        W (r_u32 ctx 27)] st)"

text \<open>\<^verbatim>\<open>ctx->r4.u32 - 4\<close> wraps around.\<close>

definition RevanaTraceType2ConsumerEntry :: "rex_memory \<Rightarrow> ppc_context \<Rightarrow> runtime \<Rightarrow> runtime" where
  "RevanaTraceType2ConsumerEntry rm ctx = gated (\<lambda>st.
     REXLOG_INFO
       ''Xbox type 2 consumer callbacks [1]={:08X} [2]={:08X} [3]={:08X} [4]={:08X} [5]={:08X} [6]={:08X}''
       (map (\<lambda>address. W (load_word_or_zero rm st address))
          [0x847309FC, 0x84730A00, 0x84730A04, 0x84730A08, 0x84730A0C, 0x84730A10])
     (REXLOG_INFO
       ''Xbox type 2 consumer input words [0]={:08X} [4]={:08X} [8]={:08X} [12]={:08X} [16]={:08X} [20]={:08X} [24]={:08X}''
       (map (\<lambda>offset. W (load_word_or_zero rm st (r_u32 ctx 4 + offset))) [0, 4, 8, 12, 16, 20, 24])
     (REXLOG_INFO
       ''Xbox type 2 consumer entry lr=0x{:08X} r3=0x{:08X} r4=0x{:08X} message_type={}''
       [U (lr ctx), W (r_u32 ctx 3), W (r_u32 ctx 4), W (load_word_or_zero rm st (r_u32 ctx 4 - 4))] st)))"

definition RevanaTraceType2ConsumerTagRead :: "rex_memory \<Rightarrow> ppc_context \<Rightarrow> runtime \<Rightarrow> runtime" where
  "RevanaTraceType2ConsumerTagRead rm ctx = gated (\<lambda>st.
     REXLOG_INFO
       ''Xbox type 2 consumer tags input={:08X} candidate=0x{:08X}/{:08X} expected={:08X},{:08X}''
       [W (load_word_or_zero rm st (r_u32 ctx 30)), W (load_word_or_zero rm st (r_u32 ctx 31 + 12)),
        W (load_word_or_zero rm st (load_word_or_zero rm st (r_u32 ctx 31 + 12))),
        W (load_word_or_zero rm st 0x8402A510), W (load_word_or_zero rm st 0x8402A518)]
     (REXLOG_INFO
       ''Xbox type 2 consumer read r22=0x{:08X} r26=0x{:08X} r28=0x{:08X} r30=0x{:08X} r31=0x{:08X}''
       [W (r_u32 ctx 22), W (r_u32 ctx 26), W (r_u32 ctx 28), W (r_u32 ctx 30), W (r_u32 ctx 31)] st))"

text \<open>The controller is recorded whether or not anything is traced.\<close>

definition RevanaTraceLobbyControllerEntry :: "ppc_context \<Rightarrow> runtime \<Rightarrow> runtime" where
  "RevanaTraceLobbyControllerEntry ctx st =
     gated (REXLOG_INFO ''Xbox lobby controller initialization entered'' [])
       (st\<lparr>lobby := (lobby st)\<lparr>lobby_controller_object := r_u32 ctx 3, lobby_controller_ready := True\<rparr>\<rparr>)"

text \<open>A poll that failed while the connection is not in state 6 does not count as an event.\<close>

definition RevanaTraceLobbyCommand31Poll :: "rex_memory \<Rightarrow> ppc_context \<Rightarrow> runtime \<Rightarrow> runtime" where
  "RevanaTraceLobbyCommand31Poll rm ctx st =
     (let queue_result = r_s32 ctx 3;
          connection_state = sint (load_word rm st (r_u32 ctx 30))
      in if queue_result < 0 \<and> connection_state \<noteq> 6 then st
         else gated (\<lambda>st.
           REXLOG_INFO
             ''Xbox lobby command 0x1F poll result={} connection_state={} transaction_state={} packet=0x{:08X}''
             [S queue_result, S connection_state, W (load_word rm st (r_u32 ctx 28)),
              W (if 0 \<le> queue_result then load_word rm st (r_u32 ctx 1 + 80) else 0)] st) st)"

definition RevanaTraceLobbyCommand31Packet :: "rex_memory \<Rightarrow> ppc_context \<Rightarrow> runtime \<Rightarrow> runtime" where
  "RevanaTraceLobbyCommand31Packet rm ctx = gated (\<lambda>st.
     REXLOG_INFO ''Xbox lobby command 0x1F response type={} packet=0x{:08X} packet_error={}''
       [W (r_u32 ctx 3), W (r_u32 ctx 27), S (sint (load_word rm st (r_u32 ctx 27 + 32)))] st)"

definition RevanaTracePolError2071MapperA :: "ppc_context \<Rightarrow> runtime \<Rightarrow> runtime" where
  "RevanaTracePolError2071MapperA ctx = gated
     (REXLOG_INFO ''Xbox POL error mapper sub_82462A48 selected -2071 from raw={} caller=0x{:08X}''
        [S (r_s32 ctx 3), U (lr ctx)])"

definition RevanaTracePolError2071MapperB :: "ppc_context \<Rightarrow> runtime \<Rightarrow> runtime" where
  "RevanaTracePolError2071MapperB ctx = gated
     (REXLOG_INFO ''Xbox POL error mapper sub_82465678 selected -2071 from raw={} caller=0x{:08X}''
        [S (r_s32 ctx 3), U (lr ctx)])"

definition RevanaTracePolServiceOpenEntry :: "ppc_context \<Rightarrow> runtime \<Rightarrow> runtime" where
  "RevanaTracePolServiceOpenEntry ctx = gated
     (REXLOG_INFO ''Xbox PolCore sub_82465C88 entry caller=0x{:08X} argument=0x{:08X}'' [U (lr ctx), W (r_u32 ctx 3)])"

definition RevanaTracePolError2071UninitializedA :: "ppc_context \<Rightarrow> runtime \<Rightarrow> runtime" where
  "RevanaTracePolError2071UninitializedA ctx = gated
     (REXLOG_INFO ''Xbox PolCore sub_82465C88 returned -2071 for uninitialized service caller=0x{:08X}'' [U (lr ctx)])"

definition RevanaTracePolError2071UninitializedB :: "ppc_context \<Rightarrow> runtime \<Rightarrow> runtime" where
  "RevanaTracePolError2071UninitializedB ctx = gated
     (REXLOG_INFO ''Xbox PolCore sub_82465D90 returned -2071 for uninitialized service caller=0x{:08X}'' [U (lr ctx)])"

definition RevanaTracePolError2071UninitializedC :: "ppc_context \<Rightarrow> runtime \<Rightarrow> runtime" where
  "RevanaTracePolError2071UninitializedC ctx = gated
     (REXLOG_INFO ''Xbox PolCore sub_82465ED8 returned -2071 for uninitialized service caller=0x{:08X}'' [U (lr ctx)])"

definition RevanaTraceFfxiExportEntry :: "rex_memory \<Rightarrow> ppc_context \<Rightarrow> runtime \<Rightarrow> runtime" where
  "RevanaTraceFfxiExportEntry rm ctx = gated (\<lambda>st.
     if r_u32 ctx 3 = 0 then REXLOG_INFO ''Xbox FFXi module entry invoked without a service table'' [] st
     else
       let services = r_u32 ctx 3 in
       REXLOG_INFO
         ''Xbox FFXi export service table=0x{:08X} targets +1684=0x{:08X} +3876=0x{:08X} +4104=0x{:08X}''
         (W services # map (\<lambda>offset. W (load_word_or_zero rm st (services + offset))) [1684, 3876, 4104]) st)"

text \<open>The mode is forced to 1, English, whatever is traced: a write of the low word of \<^verbatim>\<open>r3\<close>.\<close>

definition RevanaSelectPolCoreEnglish :: "guest_state \<Rightarrow> guest_state" where
  "RevanaSelectPolCoreEnglish = (\<lambda>(ctx, st).
     let observed_mode = r_u32 ctx 3 in
     (set_r_u32 ctx 3 1,
      gated (REXLOG_INFO ''Xbox PolCore mode service selected English ({} -> 1)'' [W observed_mode]) st))"

section \<open>The configuration service\<close>

definition pair_observation :: "u32 \<Rightarrow> u64 \<Rightarrow> u64" where
  "pair_observation object state = push_bit 32 (ucast object) OR state"

definition RevanaTraceConfigHandshakeState :: "rex_memory \<Rightarrow> ppc_context \<Rightarrow> runtime \<Rightarrow> runtime" where
  "RevanaTraceConfigHandshakeState rm ctx = when_tracing (\<lambda>st.
     let object = r_u32 ctx 3;
         state = load_byte rm st (object + 9)
     in observing config_handshake_cell (pair_observation object (ucast state))
          (gated (REXLOG_INFO ''Xbox config handshake state={} object=0x{:08X} caller=0x{:08X}''
             [U (ucast state), W object, U (lr ctx)])) st)"

definition RevanaTraceConfigHandshakeReturn :: "rex_memory \<Rightarrow> ppc_context \<Rightarrow> runtime \<Rightarrow> runtime" where
  "RevanaTraceConfigHandshakeReturn rm ctx = gated (\<lambda>st.
     let object = r_u32 ctx 31 in
     REXLOG_INFO ''Xbox config handshake return={} state={} object=0x{:08X} session=0x{:08X} sent={} received={}''
       [S (r_s32 ctx 3), U (ucast (load_byte rm st (object + 9))), W object, W (load_word rm st (object + 4)),
        W (load_word rm st (object + 68)), W (load_word rm st (object + 72))] st)"

definition RevanaTraceConfigRequest :: "rex_memory \<Rightarrow> ppc_context \<Rightarrow> runtime \<Rightarrow> runtime" where
  "RevanaTraceConfigRequest rm ctx = gated (\<lambda>st.
     let object = r_u32 ctx 31 in
     if load_word rm st (object + 68) \<noteq> 0 then st
     else
       let buffer = load_word rm st (object + 64) in
       REXLOG_INFO
         ''Xbox config request object=0x{:08X} buffer=0x{:08X} bytes={:08X}{:08X}{:08X}{:08X}{:08X}{:08X}{:08X}{:08X}{:08X}{:08X}''
         ([W object, W buffer] @
          map (\<lambda>offset. W (load_word rm st (buffer + offset))) [0, 4, 8, 12, 16, 20, 24, 28, 32, 36]) st)"

definition RevanaTraceConfigResponse :: "rex_memory \<Rightarrow> ppc_context \<Rightarrow> runtime \<Rightarrow> runtime" where
  "RevanaTraceConfigResponse rm ctx = gated (\<lambda>st.
     let object = r_u32 ctx 31;
         buffer = load_word rm st (object + 60)
     in REXLOG_INFO
          ''Xbox config response object=0x{:08X} buffer=0x{:08X} bytes={:08X}{:08X}{:08X}{:08X}{:08X}{:08X}''
          ([W object, W buffer] @ map (\<lambda>offset. W (load_word rm st (buffer + offset))) [0, 4, 8, 12, 16, 20]) st)"

definition RevanaTraceConfigServiceState :: "rex_memory \<Rightarrow> ppc_context \<Rightarrow> runtime \<Rightarrow> runtime" where
  "RevanaTraceConfigServiceState rm ctx = when_tracing (\<lambda>st.
     let object = r_u32 ctx 31;
         state = load_byte rm st (object + 8)
     in observing config_service_cell (pair_observation object (ucast state))
          (gated (REXLOG_INFO ''Xbox config service state={} object=0x{:08X}'' [U (ucast state), W object])) st)"

definition RevanaTraceConfigParserState :: "rex_memory \<Rightarrow> ppc_context \<Rightarrow> runtime \<Rightarrow> runtime" where
  "RevanaTraceConfigParserState rm ctx = when_tracing (\<lambda>st.
     let object = r_u32 ctx 31;
         state = load_byte rm st (object + 10)
     in observing config_parser_cell (pair_observation object (ucast state))
          (gated (\<lambda>st. REXLOG_INFO
             ''Xbox config parser state={} object=0x{:08X} active={} record=0x{:08X}/{} command={}/{}''
             [U (ucast state), W object, U (ucast (load_byte rm st (object + 212))),
              W (load_word rm st (object + 200)), W (load_word rm st (object + 204)),
              U (ucast (load_byte rm st (object + 609))), U (ucast (load_byte rm st (object + 610)))] st)) st)"

definition RevanaTraceConfigFollowupState :: "rex_memory \<Rightarrow> ppc_context \<Rightarrow> runtime \<Rightarrow> runtime" where
  "RevanaTraceConfigFollowupState rm ctx = gated (\<lambda>st.
     let object = r_u32 ctx 31 in
     REXLOG_INFO
       ''Xbox config followup object=0x{:08X} data=0x{:08X} session_cipher_table=0x{:08X} response_word=0x{:08X} network_word=0x{:08X} encrypted={}''
       [W object, W (load_word rm st (object + 808)), W (load_word rm st (object + 152)),
        W (load_word rm st (object + 184)), W (load_word rm st (object + 812)),
        U (ucast (load_byte rm st (object + 11)))] st)"

text \<open>Here the gate comes first: a repeated observation uses up an event.\<close>

definition transfer_observation :: "u32 \<Rightarrow> u8 \<Rightarrow> u8 \<Rightarrow> u32 \<Rightarrow> u64" where
  "transfer_observation object state transport_state progress =
     push_bit 32 (ucast object) OR push_bit 24 (ucast state) OR push_bit 16 (ucast transport_state) OR
       ucast (progress AND 0xFFFF)"

definition RevanaTraceConfigTransferState :: "rex_memory \<Rightarrow> ppc_context \<Rightarrow> runtime \<Rightarrow> runtime" where
  "RevanaTraceConfigTransferState rm ctx = gated (\<lambda>st.
     let object = r_u32 ctx 31;
         state = load_byte rm st (object + 8);
         transport_state = load_byte rm st (object + 9);
         progress = load_word rm st (object + 28)
     in observing config_transfer_cell (transfer_observation object state transport_state progress)
          (\<lambda>st. REXLOG_INFO
             ''Xbox config transfer state={} transport={} result={} total={} progress={} chunk_bytes={} mode={} send_progress={} io_progress={}''
             [U (ucast state), U (ucast transport_state), S (r_s32 ctx 30), W (load_word rm st (object + 196)),
              W progress, W (load_word rm st (object + 200)), W (load_word rm st (object + 204)),
              W (load_word rm st (object + 68)), W (load_word rm st (object + 72))] st) st)"

end
