(* ===== verification/Trace_Budget.thy ===== *)
theory Trace_Budget
  imports Trace_Hooks Trace_World
begin

text \<open>
  What the trace hooks of \<^verbatim>\<open>src/runtime/revana_hooks.cpp\<close> promise together: none of them touches the
  program they observe, and the log they write is bounded.  The bound is an amortised one: a hook pays for
  its lines with the events left.
\<close>

section \<open>The lines left\<close>

definition lines_left :: "runtime \<Rightarrow> nat" where
  "lines_left st =
     (let events = unat (hook_count (trace st)) in if events \<le> 256 then 3 * (256 - events) + 1 else 0) +
     (96 - unat (world_error_trace_count (counters st))) + (1024 - unat (world_dispatch_trace_count (counters st))) +
     (16 - unat (world_fatal_trace_count (counters st))) + (128 - unat (object_build_trace_count (counters st))) +
     (32 - unat (world_status_set_count (counters st)))"

text \<open>No count wraps around within \<open>n\<close> more calls.\<close>

definition calls_fit :: "nat \<Rightarrow> runtime \<Rightarrow> bool" where
  "calls_fit n st \<longleftrightarrow> unat (hook_count (trace st)) + n < 2 ^ 32 \<and>
     unat (world_error_trace_count (counters st)) + n < 2 ^ 32 \<and> unat (world_dispatch_trace_count (counters st)) + n < 2 ^ 32 \<and>
     unat (world_fatal_trace_count (counters st)) + n < 2 ^ 32 \<and> unat (object_build_trace_count (counters st)) + n < 2 ^ 32 \<and>
     unat (world_status_set_count (counters st)) + n < 2 ^ 32"

text \<open>A step that does nothing while tracing is off, and one that pays for its lines.\<close>

definition inert :: "(runtime \<Rightarrow> runtime) \<Rightarrow> bool" where
  "inert f \<longleftrightarrow> (\<forall>st. \<not> hooks_enabled (trace st) \<longrightarrow> f st = st)"

definition pays :: "(runtime \<Rightarrow> runtime) \<Rightarrow> bool" where
  "pays f \<longleftrightarrow> (\<forall>n st. calls_fit (Suc n) st \<longrightarrow> calls_fit n (f st) \<and>
     length (logged (f st)) + lines_left (f st) \<le> length (logged st) + lines_left st)"

definition observer_hook :: "(runtime \<Rightarrow> runtime) \<Rightarrow> bool" where
  "observer_hook f \<longleftrightarrow> traces 3 f \<and> inert f"

definition budgeted_hook :: "(runtime \<Rightarrow> runtime) \<Rightarrow> bool" where
  "budgeted_hook f \<longleftrightarrow> traces 3 f \<and> inert f \<and> pays f"

section \<open>Hooks on a budget\<close>

locale line_budget =
  fixes fit :: "nat \<Rightarrow> 's \<Rightarrow> bool" and spent left :: "'s \<Rightarrow> nat" and step :: "('s \<Rightarrow> 's) \<Rightarrow> bool"
  assumes step_fit: "step f \<Longrightarrow> fit (Suc n) s \<Longrightarrow> fit n (f s)"
    and step_pays: "step f \<Longrightarrow> fit (Suc n) s \<Longrightarrow> spent (f s) + left (f s) \<le> spent s + left s"
begin

lemma run_fit: "list_all step fs \<Longrightarrow> fit (length fs + n) s \<Longrightarrow> fit n (fold (\<lambda>f. f) fs s)"
  by (induction fs arbitrary: s) (auto intro: step_fit)

lemma run_pays:
  "list_all step fs \<Longrightarrow> fit (length fs) s \<Longrightarrow> spent (fold (\<lambda>f. f) fs s) + left (fold (\<lambda>f. f) fs s) \<le> spent s + left s"
proof (induction fs arbitrary: s)
  case (Cons f fs)
  then have "fit (length fs) (f s)" "spent (f s) + left (f s) \<le> spent s + left s"
    using step_fit step_pays by auto
  with Cons show ?case by fastforce
qed simp

end

interpretation trace_lines: line_budget calls_fit "\<lambda>st. length (logged st)" lines_left pays
  by unfold_locales (simp_all add: pays_def)

lemma tally_lines:
  assumes "tally st = tally st'" shows "lines_left st = lines_left st'" "calls_fit n st = calls_fit n st'"
  using assms by (simp_all add: tally_def lines_left_def calls_fit_def)

lemma calls_fit_less: "calls_fit (Suc n) st \<Longrightarrow> calls_fit n st"
  by (auto simp: calls_fit_def)

lemma unat_plus_one: "unat i + 1 < 2 ^ 32 \<Longrightarrow> unat (i + 1) = unat i + 1" for i :: u32
  by (simp add: unat_word_ariths)

lemma gated_pays:
  assumes q: "quiet 3 f" shows "pays (gated f)"
  unfolding pays_def
proof (intro allI impI)
  fix n st
  assume fit: "calls_fit (Suc n) st"
  let ?st = "st\<lparr>trace := (trace st)\<lparr>hook_count := hook_count (trace st) + 1\<rparr>\<rparr>"
  have u: "unat (hook_count (trace st) + 1) = unat (hook_count (trace st)) + 1"
    using fit by (intro unat_plus_one) (simp add: calls_fit_def)
  have fit': "calls_fit n ?st" using fit by (simp add: calls_fit_def u)
  show "calls_fit n (gated f st) \<and>
    length (logged (gated f st)) + lines_left (gated f st) \<le> length (logged st) + lines_left st"
  proof (cases rule: gate_cases [of st])
    case off
    with fit show ?thesis by (simp add: gated_def calls_fit_less)
  next
    case granted
    have "tally (f ?st) = tally ?st" "\<exists>lines. logged (f ?st) = logged ?st @ lines \<and> length lines \<le> 3"
      using q tracesD(2) [of 3 f ?st] by (simp_all add: quiet_def)
    moreover have "lines_left ?st + 3 \<le> lines_left st"
      using granted by (simp add: lines_left_def u word_less_nat_alt)
    ultimately show ?thesis
      using tally_lines [of "f ?st" ?st] fit' granted by (auto simp: gated_def)
  next
    case limit
    with fit u show ?thesis by (simp add: gated_def lines_left_def calls_fit_def)
  next
    case refused
    with fit' show ?thesis by (simp add: gated_def lines_left_def u word_less_nat_alt)
  qed
qed

lemma gated_hook: "quiet k f \<Longrightarrow> k \<le> 3 \<Longrightarrow> budgeted_hook (gated f)"
  using gated_pays [of f] gated_traces [of 2 f] traces_mono [of k f 3]
  by (auto simp: budgeted_hook_def quiet_def inert_def gated_def GuestTraceHooksEnabled_def)

text \<open>A counter pays one line from its own limit.\<close>

locale budget_cell = counter_cell c for c :: "u32 cell" +
  fixes limit :: u32
  assumes fit_put: "calls_fit (Suc n) st \<Longrightarrow> calls_fit n (put_cell c (get_cell c st + 1) st)"
    and left_put: "calls_fit (Suc n) st \<Longrightarrow>
      lines_left (put_cell c (get_cell c st + 1) st) + (if limit \<le> get_cell c st then 0 else 1) \<le> lines_left st"
begin

lemma counting_pays:
  assumes "quiet 1 f" shows "pays (counting c limit f)"
  unfolding pays_def
proof (intro allI impI)
  fix n st
  assume fit: "calls_fit (Suc n) st"
  let ?st = "put_cell c (get_cell c st + 1) st"
  have "tally (f ?st) = tally ?st" "\<exists>lines. logged (f ?st) = logged ?st @ lines \<and> length lines \<le> 1"
    using assms tracesD(2) [of 1 f ?st] by (simp_all add: quiet_def)
  with tally_lines [OF this(1)] fit_put [OF fit] left_put [OF fit]
  show "calls_fit n (counting c limit f st) \<and>
    length (logged (counting c limit f st)) + lines_left (counting c limit f st) \<le> length (logged st) + lines_left st"
    by (auto simp: counting_def Let_def put_frame(2))
qed

lemma counting_hook: "quiet 1 f \<Longrightarrow> budgeted_hook (when_tracing (counting c limit f))"
  using counting_pays [of f] counting_traces [of 1 f limit] when_tracing_traces [of 1 "counting c limit f"]
    traces_mono [of 1 "when_tracing (counting c limit f)" 3] calls_fit_less
  by (auto simp: budgeted_hook_def quiet_def inert_def when_tracing_def pays_def)

end

lemmas budget_cell_defs = cell_defs calls_fit_def lines_left_def unat_plus_one word_le_nat_alt

interpretation world_error_budget: budget_cell world_error_cell 96
  by unfold_locales (auto simp: budget_cell_defs)
interpretation world_dispatch_budget: budget_cell world_dispatch_cell 1024
  by unfold_locales (auto simp: budget_cell_defs)
interpretation world_fatal_budget: budget_cell world_fatal_cell 16
  by unfold_locales (auto simp: budget_cell_defs)
interpretation object_build_budget: budget_cell object_build_cell 128
  by unfold_locales (auto simp: budget_cell_defs)
interpretation status_set_budget: budget_cell status_set_cell 32
  by unfold_locales (auto simp: budget_cell_defs)

section \<open>The hooks\<close>

definition fixed_line_hooks :: "(runtime \<Rightarrow> runtime) list" where
  "fixed_line_hooks =
     [RevanaTraceNetworkInitEntry, RevanaTraceNetworkInitFatalConfig, RevanaTraceNetworkInitBeforeWsa,
      RevanaTraceNetworkInitFailure, RevanaTraceNetworkInitSuccess, RevanaTraceLobbySetupEntry,
      RevanaTraceLobbySetupGuardAccepted, RevanaTraceLobbySetupFailure, RevanaTraceLobbyControllerFailure,
      RevanaTraceMainBootstrapEntry, RevanaTraceMainBootstrapConfigReady,
      RevanaTraceMainBootstrapServicesReady, RevanaTraceMainBootstrapGraphicsReady,
      RevanaTraceMainDispatchEntry, RevanaTraceMainDispatchObjectReady, RevanaTraceMainLoopEntry,
      RevanaTraceFfxiMainOrdinal2Call, RevanaTraceFfxiMainOrdinal3Call, RevanaTraceFfxiMainOrdinal4Call,
      RevanaTraceFfxiMainOrdinal5Call, RevanaTraceMainLoopSystemReady, RevanaTraceMainLoopHostReady,
      RevanaTraceMainLoopFrameAllocated, RevanaTraceMainLoopWorkerStarted, RevanaTraceMainLoopWorkerReady,
      RevanaTraceMainLoopCleanup, RevanaTraceMainLoopDeviceProbe, RevanaTraceStartupSelector13LoadReturned,
      RevanaTraceStartupWorkerFailure, RevanaTracePackageMetadataFailure,
      RevanaTraceStartupPackageValidationFailure]"

definition gated_hooks :: "rex_memory \<Rightarrow> ppc_context \<Rightarrow> (runtime \<Rightarrow> runtime) list" where
  "gated_hooks rm ctx =
     [RevanaTraceServiceDispatchSlot1852Object ctx, RevanaTracePolError2071MapperA ctx,
      RevanaTracePolError2071MapperB ctx, RevanaTracePolServiceOpenEntry ctx,
      RevanaTracePolError2071UninitializedA ctx, RevanaTracePolError2071UninitializedB ctx,
      RevanaTracePolError2071UninitializedC ctx, RevanaTraceType2Enqueue rm ctx,
      RevanaTraceType2ReadReturned rm ctx, RevanaTraceType2ConsumerEntry rm ctx,
      RevanaTraceType2ConsumerTagRead rm ctx, RevanaTraceLobbyCommand31Poll rm ctx,
      RevanaTraceLobbyCommand31Packet rm ctx, RevanaTraceFfxiExportEntry rm ctx,
      RevanaTraceConfigHandshakeState rm ctx, RevanaTraceConfigHandshakeReturn rm ctx,
      RevanaTraceConfigRequest rm ctx, RevanaTraceConfigResponse rm ctx, RevanaTraceConfigServiceState rm ctx,
      RevanaTraceConfigParserState rm ctx, RevanaTraceConfigFollowupState rm ctx,
      RevanaTraceConfigTransferState rm ctx]"

definition counted_hooks :: "rex_memory \<Rightarrow> ppc_context \<Rightarrow> (runtime \<Rightarrow> runtime) list" where
  "counted_hooks rm ctx =
     [RevanaTraceWorldErrorState rm ctx, RevanaTraceWorldDispatch rm ctx, RevanaTraceWorldFatalState rm ctx,
      RevanaTraceObjectBuildEntry rm ctx, RevanaTraceWorldStatusSet ctx]"

definition unbudgeted_hooks :: "rex_memory \<Rightarrow> ppc_context \<Rightarrow> (runtime \<Rightarrow> runtime) list" where
  "unbudgeted_hooks rm ctx =
     [RevanaTracePhase6Readiness ctx, RevanaTraceZoneLoadSequence rm ctx, RevanaTraceGameplayFrameReturn rm ctx,
      RevanaTraceWorldNetworkUpdate rm ctx, RevanaTraceWorldPacketDequeued ctx, RevanaTraceResourceLoadEntry ctx,
      RevanaTraceObjectBuildNull ctx, RevanaTraceGuestExceptionRaise ctx, RevanaTraceGuestCppThrow ctx,
      RevanaTraceFrameStateTransition ctx, RevanaTraceWorldSendEntry ctx, RevanaTraceWorldSendResult ctx]"

lemmas fixed_line_hook_defs =
  RevanaTraceNetworkInitEntry_def RevanaTraceNetworkInitFatalConfig_def RevanaTraceNetworkInitBeforeWsa_def
  RevanaTraceNetworkInitFailure_def RevanaTraceNetworkInitSuccess_def RevanaTraceLobbySetupEntry_def
  RevanaTraceLobbySetupGuardAccepted_def RevanaTraceLobbySetupFailure_def
  RevanaTraceLobbyControllerFailure_def RevanaTraceMainBootstrapEntry_def
  RevanaTraceMainBootstrapConfigReady_def RevanaTraceMainBootstrapServicesReady_def
  RevanaTraceMainBootstrapGraphicsReady_def RevanaTraceMainDispatchEntry_def
  RevanaTraceMainDispatchObjectReady_def RevanaTraceMainLoopEntry_def RevanaTraceFfxiMainOrdinal2Call_def
  RevanaTraceFfxiMainOrdinal3Call_def RevanaTraceFfxiMainOrdinal4Call_def RevanaTraceFfxiMainOrdinal5Call_def
  RevanaTraceMainLoopSystemReady_def RevanaTraceMainLoopHostReady_def RevanaTraceMainLoopFrameAllocated_def
  RevanaTraceMainLoopWorkerStarted_def RevanaTraceMainLoopWorkerReady_def RevanaTraceMainLoopCleanup_def
  RevanaTraceMainLoopDeviceProbe_def RevanaTraceStartupSelector13LoadReturned_def
  RevanaTraceStartupWorkerFailure_def RevanaTracePackageMetadataFailure_def
  RevanaTraceStartupPackageValidationFailure_def

lemmas gated_hook_defs =
  RevanaTraceServiceDispatchSlot1852Object_def RevanaTracePolError2071MapperA_def
  RevanaTracePolError2071MapperB_def RevanaTracePolServiceOpenEntry_def
  RevanaTracePolError2071UninitializedA_def RevanaTracePolError2071UninitializedB_def
  RevanaTracePolError2071UninitializedC_def RevanaTraceType2Enqueue_def RevanaTraceType2ReadReturned_def
  RevanaTraceType2ConsumerEntry_def RevanaTraceType2ConsumerTagRead_def RevanaTraceLobbyCommand31Poll_def
  RevanaTraceLobbyCommand31Packet_def RevanaTraceFfxiExportEntry_def RevanaTraceConfigHandshakeState_def
  RevanaTraceConfigHandshakeReturn_def RevanaTraceConfigRequest_def RevanaTraceConfigResponse_def
  RevanaTraceConfigServiceState_def RevanaTraceConfigParserState_def RevanaTraceConfigFollowupState_def
  RevanaTraceConfigTransferState_def


lemma gated_hook3: "quiet (Suc (Suc (Suc 0))) f \<Longrightarrow> budgeted_hook (gated f)"
  using gated_hook [of 3 f] by (simp add: numeral_3_eq_3)

lemma fixed_line_hook: "budgeted_hook (gated (write_log l fmt as))"
  by (rule gated_hook3) (rule quiet_intros)+

lemma budgeted_unless:
  assumes "\<And>st. budgeted_hook (f st)" shows "budgeted_hook (\<lambda>st. if p st then st else f st st)"
  using assms calls_fit_less by (simp add: budgeted_hook_def traces_def inert_def pays_def)

lemma gated_unless:
  "(\<And>st. quiet (Suc (Suc (Suc 0))) (f st)) \<Longrightarrow> budgeted_hook (\<lambda>st. if p st then st else gated (f st) st)"
  by (rule budgeted_unless) (rule gated_hook3)

lemma observer_unless:
  assumes "quiet (Suc (Suc (Suc 0))) f" shows "observer_hook (when_tracing f)"
  using assms when_tracing_traces [of 3 f]
  by (simp add: observer_hook_def quiet_def inert_def when_tracing_def numeral_3_eq_3)

context observer_cell
begin

lemma observing_hook:
  assumes "\<And>st. budgeted_hook (f st)"
  shows "budgeted_hook (when_tracing (\<lambda>st. observing c (v st) (f st) st))"
proof -
  have "traces 3 (when_tracing (\<lambda>st. observing c (v st) (f st) st))"
    using assms by (intro when_tracing_traces observing_traces) (simp add: budgeted_hook_def)
  moreover have "pays (when_tracing (\<lambda>st. observing c (v st) (f st) st))"
    unfolding pays_def
  proof (intro allI impI)
    fix n st
    assume fit: "calls_fit (Suc n) st"
    let ?st = "put_cell c (v st) st"
    have eq: "lines_left ?st = lines_left st" "calls_fit k ?st = calls_fit k st" for k
      using tally_lines [OF tally_frame] by simp_all
    have "pays (f st)" using assms by (simp add: budgeted_hook_def)
    with fit have "calls_fit n (f st ?st)" "length (logged (f st ?st)) + lines_left (f st ?st) \<le> length (logged st) + lines_left st"
      unfolding pays_def using eq put_frame(2) [of "v st" st] by metis+
    with fit eq calls_fit_less show "calls_fit n (when_tracing (\<lambda>st. observing c (v st) (f st) st) st) \<and>
      length (logged (when_tracing (\<lambda>st. observing c (v st) (f st) st) st)) +
        lines_left (when_tracing (\<lambda>st. observing c (v st) (f st) st) st) \<le> length (logged st) + lines_left st"
      by (simp add: when_tracing_def observing_def Let_def put_frame(2))
  qed
  ultimately show ?thesis by (simp add: budgeted_hook_def inert_def when_tracing_def)
qed

end

lemma fixed_line_hooks_budgeted: "list_all budgeted_hook fixed_line_hooks"
  by (simp add: fixed_line_hooks_def fixed_line_hook_defs fixed_line_hook)

lemmas hook_intros =
  fixed_line_hook gated_hook3 gated_unless config_handshake.observing_hook config_service.observing_hook
  config_parser.observing_hook

lemma gated_hooks_budgeted: "list_all budgeted_hook (gated_hooks rm ctx)"
  unfolding gated_hooks_def list.pred_inject gated_hook_defs Let_def
  by (intro conjI list.pred_inject(1)) (rule hook_intros quiet_intros)+

text \<open>The counted hooks.\<close>

lemma RevanaTraceWorldStatusSet_eq:
  "RevanaTraceWorldStatusSet ctx = (\<lambda>st. if r_u32 ctx 3 AND 0x44 = 0 then st
     else when_tracing (counting status_set_cell 32
       (REXLOG_INFO ''Xbox world status set: flags=0x{:08X} caller=0x{:08X}'' [W (r_u32 ctx 3), U (lr ctx)])) st)"
  by (auto simp: RevanaTraceWorldStatusSet_def when_tracing_def counting_def status_set_cell_def Let_def)

lemma counted_bodies:
  "quiet 1 (trace_world_error rm ctx)" "quiet 1 (trace_world_dispatch rm ctx)"
  "quiet 1 (trace_world_fatal rm ctx)" "quiet 1 (trace_object_build rm ctx)" "quiet 1 (write_log l fmt as)"
  unfolding trace_world_error_def trace_world_dispatch_def trace_world_fatal_def trace_object_build_def Let_def One_nat_def
  by (rule quiet_intros)+

lemma counted_hooks_budgeted: "list_all budgeted_hook (counted_hooks rm ctx)"
  unfolding counted_hooks_def list.pred_inject RevanaTraceWorldErrorState_def RevanaTraceWorldDispatch_def
    RevanaTraceWorldFatalState_def RevanaTraceObjectBuildEntry_def RevanaTraceWorldStatusSet_eq
  by (intro conjI list.pred_inject(1) budgeted_unless world_error_budget.counting_hook world_dispatch_budget.counting_hook
      world_fatal_budget.counting_hook object_build_budget.counting_hook status_set_budget.counting_hook counted_bodies)

text \<open>The others only trace.\<close>

lemma resource_load_quiet:
  "quiet k (\<lambda>st. st\<lparr>observed := (observed st)\<lparr>resource_load_id := i, resource_load_caller := j\<rparr>\<rparr>)"
  by (simp add: quiet_def traces_def program_state_def tally_def)

lemma unbudgeted_hooks_observe: "list_all observer_hook (unbudgeted_hooks rm ctx)"
  unfolding unbudgeted_hooks_def list.pred_inject RevanaTracePhase6Readiness_def RevanaTraceZoneLoadSequence_def
    RevanaTraceGameplayFrameReturn_def RevanaTraceWorldNetworkUpdate_def RevanaTraceWorldPacketDequeued_def
    RevanaTraceResourceLoadEntry_def RevanaTraceObjectBuildNull_def RevanaTraceGuestExceptionRaise_def
    RevanaTraceGuestCppThrow_def RevanaTraceFrameStateTransition_def
    RevanaTraceWorldSendEntry_def [folded when_tracing_def] RevanaTraceWorldSendResult_def [folded when_tracing_def] Let_def
  by (intro conjI list.pred_inject(1)) (rule observer_unless quiet_intros resource_load_quiet)+


section \<open>What the hooks promise together\<close>

definition budgeted_hooks :: "rex_memory \<Rightarrow> ppc_context \<Rightarrow> (runtime \<Rightarrow> runtime) list" where
  "budgeted_hooks rm ctx = fixed_line_hooks @ gated_hooks rm ctx @ counted_hooks rm ctx"

lemma budgeted_hooks_ok: "f \<in> set (budgeted_hooks rm ctx) \<Longrightarrow> budgeted_hook f"
  using fixed_line_hooks_budgeted gated_hooks_budgeted [of rm ctx] counted_hooks_budgeted [of rm ctx]
  by (auto simp: budgeted_hooks_def list_all_iff)

definition trace_hooks :: "rex_memory \<Rightarrow> ppc_context \<Rightarrow> (runtime \<Rightarrow> runtime) list" where
  "trace_hooks rm ctx = budgeted_hooks rm ctx @ unbudgeted_hooks rm ctx"



text \<open>A run: hooks called from any guest thread, with the guest's own writes between them.\<close>

inductive trace_run :: "rex_memory \<Rightarrow> runtime \<Rightarrow> nat \<Rightarrow> runtime \<Rightarrow> bool" for rm st0 where
  Start: "trace_run rm st0 0 st0"
| Hook: "trace_run rm st0 n st \<Longrightarrow> f \<in> set (budgeted_hooks rm ctx) \<Longrightarrow> trace_run rm st0 (Suc n) (f st)"
| Guest: "trace_run rm st0 n st \<Longrightarrow> trace_run rm st0 n (st\<lparr>host := h\<rparr>)"

lemma trace_run_pays:
  assumes "trace_run rm st0 n st" "calls_fit (n + k) st0"
  shows "calls_fit k st \<and> length (logged st) + lines_left st \<le> length (logged st0) + lines_left st0"
  using assms
proof (induction arbitrary: k rule: trace_run.induct)
  case (Hook n st f ctx)
  then have "pays f" using budgeted_hooks_ok by (auto simp: budgeted_hook_def)
  with Hook.IH [of "Suc k"] Hook.prems trace_lines.step_fit trace_lines.step_pays show ?case by fastforce
qed (simp_all add: calls_fit_def lines_left_def)



end
