(* ===== verification/Spec2Isabelle.thy ===== *)
theory Spec2Isabelle
  imports Handle_Ownership Key_Concurrency Revana_App Post_Selection Trace_Budget Trace_World Trace_Hooks Trace_Cells World_Send State_Trace Lobby_Bridge Bridge_Settings View_Bootstrap Pol_Resolver Tls_Login Tls_Service Tls_Resources Tls_Client Rounds Auth_Protocol Lobby_Client Lobby_Parse World_Receive
begin

text \<open>
  Verification library of Vana360's login and runtime bridge.
\<close>

end
